(* ===== verification/Dlm_Prelude.thy ===== *)
theory Dlm_Prelude
  imports Main "HOL-Library.Word"
begin

text \<open>
  Shared vocabulary of the development: the machine integer types of the C sources, the Linux
  error numbers that the daemon returns, the allocator, the clock and the generic lemmas on words
  and lists that the component theories use.

  C \<^verbatim>\<open>uint64_t\<close>, \<^verbatim>\<open>uint32_t\<close>, \<^verbatim>\<open>uint16_t\<close> fields are words of that width.  Node ids and resource
  owners are C \<^verbatim>\<open>int\<close>s that travel through \<^verbatim>\<open>uint32_t\<close> header fields; they are 32-bit words, read
  with \<open>sint\<close> where the code compares or prints them as signed.  Function results (\<^verbatim>\<open>int rv\<close>, 0 or a
  negated error number) and flags that are only tested are \<open>int\<close> and \<open>bool\<close>.
\<close>

type_synonym u64 = "64 word"
type_synonym u32 = "32 word"
type_synonym u16 = "16 word"
type_synonym s32 = "32 word"
type_synonym nodeid = s32

named_theorems plock_simps "unfolding rules for the plock handlers"
named_theorems cpg_simps "unfolding rules for the membership handlers"
named_theorems wf_intros "preservation of well-formedness"

subsection \<open>Error numbers\<close>

abbreviation (input) ENOENT :: int where "ENOENT \<equiv> 2"
abbreviation (input) ESRCH :: int where "ESRCH \<equiv> 3"
abbreviation (input) EAGAIN :: int where "EAGAIN \<equiv> 11"
abbreviation (input) ENOMEM :: int where "ENOMEM \<equiv> 12"
abbreviation (input) EEXIST :: int where "EEXIST \<equiv> 17"
abbreviation (input) EINVAL :: int where "EINVAL \<equiv> 22"
abbreviation (input) ENOSPC :: int where "ENOSPC \<equiv> 28"
abbreviation (input) ENOSYS :: int where "ENOSYS \<equiv> 38"
abbreviation (input) EALREADY :: int where "EALREADY \<equiv> 114"
abbreviation (input) EINPROGRESS :: int where "EINPROGRESS \<equiv> 115"

subsection \<open>Allocator\<close>

text \<open>
  The outcomes of the coming \<^verbatim>\<open>malloc\<close> calls: \<open>None\<close> is a failed call, \<open>Some g\<close> a block whose
  bytes, where the code does not initialise them, read as the fill pattern \<open>g\<close>.  When the list is
  used up every further call succeeds.
\<close>

type_synonym mem = "u32 option list"

fun malloc :: "mem \<Rightarrow> u32 option \<times> mem" where
  "malloc [] = (Some 0, [])"
| "malloc (a # m) = (a, m)"

definition mem_ok :: "mem \<Rightarrow> bool" where
  "mem_ok m = (None \<notin> set m)"

lemma mem_ok_Nil [simp]: "mem_ok []"
  by (simp add: mem_ok_def)

lemma malloc_mem_ok: "mem_ok m \<Longrightarrow> \<exists>g m'. malloc m = (Some g, m') \<and> mem_ok m'"
  by (cases m) (auto simp: mem_ok_def simp flip: not_None_eq)

lemma malloc_keeps_ok: "mem_ok m \<Longrightarrow> malloc m = (a, m') \<Longrightarrow> a \<noteq> None \<and> mem_ok m'"
  by (cases m; cases a) (auto simp: mem_ok_def)

subsection \<open>Lists\<close>

text \<open>Updating the first element of a linked list that satisfies a test.\<close>

fun map_first :: "('a \<Rightarrow> bool) \<Rightarrow> ('a \<Rightarrow> 'a) \<Rightarrow> 'a list \<Rightarrow> 'a list" where
  "map_first P f [] = []"
| "map_first P f (x # xs) = (if P x then f x # xs else x # map_first P f xs)"

lemma map_first_none: "\<not> (\<exists>x\<in>set xs. P x) \<Longrightarrow> map_first P f xs = xs"
  by (induction xs) auto

lemma map_first_map: "(\<And>x. g (f x) = g x) \<Longrightarrow> map g (map_first P f xs) = map g xs"
  by (induction xs) auto

lemma length_map_first [simp]: "length (map_first P f xs) = length xs"
  by (induction xs) auto

lemma find_map_first:
  "(\<And>x. P x \<Longrightarrow> P (f x)) \<Longrightarrow> find P (map_first P f xs) = map_option f (find P xs)"
  by (induction xs) auto

lemma find_map_first_other:
  "(\<And>x. P x \<Longrightarrow> \<not> Q x \<and> \<not> Q (f x)) \<Longrightarrow> find Q (map_first P f xs) = find Q xs"
  by (induction xs) auto

lemma find_append:
  "find P (xs @ ys) = (case find P xs of None \<Rightarrow> find P ys | Some x \<Rightarrow> Some x)"
  by (induction xs) auto

lemma set_map_first: "set (map_first P f xs) \<subseteq> set xs \<union> f ` {x \<in> set xs. P x}"
  by (induction xs) auto

subsection \<open>Invariants of transition systems\<close>

locale invariant_system =
  fixes init :: "'s \<Rightarrow> bool" and step :: "'s \<Rightarrow> 's \<Rightarrow> bool" and inv :: "'s \<Rightarrow> bool"
  assumes init_inv: "init s \<Longrightarrow> inv s"
    and step_inv: "inv s \<Longrightarrow> step s s' \<Longrightarrow> inv s'"
begin

lemma run_inv: "rtranclp step s s' \<Longrightarrow> inv s \<Longrightarrow> inv s'"
  by (induction rule: rtranclp_induct) (auto intro: step_inv)

lemma reachable_inv: "init s \<Longrightarrow> rtranclp step s s' \<Longrightarrow> inv s'"
  using init_inv run_inv by blast

end

subsection \<open>Clock\<close>

record timeval =
  tv_sec :: int
  tv_usec :: int

subsection \<open>Words\<close>

lemma le_minus_one_iff:
  fixes a s x :: "'a::len word"
  assumes "a < s"
  shows "x \<le> s - 1 \<longleftrightarrow> x < s"
proof -
  have "s \<noteq> 0" using assms by auto
  then have "unat (s - 1) = unat s - 1" by (rule unat_minus_one)
  moreover have "0 < unat s" using \<open>s \<noteq> 0\<close> by (simp add: unat_gt_0)
  ultimately show ?thesis by (auto simp: word_le_nat_alt word_less_nat_alt)
qed

lemma plus_one_le_iff:
  fixes e b x :: "'a::len word"
  assumes "e < b"
  shows "e + 1 \<le> x \<longleftrightarrow> e < x"
proof -
  have "unat e < unat b" using assms by (simp add: word_less_nat_alt)
  moreover have "unat b < 2 ^ LENGTH('a)" by simp
  ultimately have "unat (e + 1) = unat e + 1"
    by (simp add: unat_word_ariths(1) less_trans_Suc)
  then show ?thesis by (auto simp: word_le_nat_alt word_less_nat_alt)
qed

end
