(* ===== verification/Dlm_Endian.thy ===== *)
theory Dlm_Endian
  imports Dlm_Prelude
begin

unbundle bit_operations_syntax

text \<open>
  Byte order (\<^verbatim>\<open>linux_endian.h\<close>): everything the daemons exchange is little endian on the wire.  The
  parameter \<open>be\<close> tells whether the host is big endian (\<^verbatim>\<open>__BYTE_ORDER == __BIG_ENDIAN\<close>).  The locale
  \<open>codec\<close> is the contract of every such conversion: what one host writes the same conversion reads
  back.
\<close>

definition bswap_16 :: "u16 \<Rightarrow> u16" where
  "bswap_16 x = push_bit 8 x OR drop_bit 8 x"

definition bswap_32 :: "u32 \<Rightarrow> u32" where
  "bswap_32 x = push_bit 24 x OR push_bit 16 (take_bit 8 (drop_bit 8 x)) OR
     push_bit 8 (take_bit 8 (drop_bit 16 x)) OR drop_bit 24 x"

definition bswap_64 :: "u64 \<Rightarrow> u64" where
  "bswap_64 x = push_bit 32 (ucast (bswap_32 (ucast x))) OR ucast (bswap_32 (ucast (drop_bit 32 x)))"

definition cpu_to_le16 :: "bool \<Rightarrow> u16 \<Rightarrow> u16" where
  "cpu_to_le16 be x = (if be then bswap_16 x else x)"

definition cpu_to_le32 :: "bool \<Rightarrow> u32 \<Rightarrow> u32" where
  "cpu_to_le32 be x = (if be then bswap_32 x else x)"

definition cpu_to_le64 :: "bool \<Rightarrow> u64 \<Rightarrow> u64" where
  "cpu_to_le64 be x = (if be then bswap_64 x else x)"

definition le16_to_cpu :: "bool \<Rightarrow> u16 \<Rightarrow> u16" where
  "le16_to_cpu be x = (if be then bswap_16 x else x)"

definition le32_to_cpu :: "bool \<Rightarrow> u32 \<Rightarrow> u32" where
  "le32_to_cpu be x = (if be then bswap_32 x else x)"

definition le64_to_cpu :: "bool \<Rightarrow> u64 \<Rightarrow> u64" where
  "le64_to_cpu be x = (if be then bswap_64 x else x)"

lemma bit_bswap_16: "bit (bswap_16 x) n \<longleftrightarrow> n < 16 \<and> bit x (if n < 8 then n + 8 else n - 8)"
  by (auto simp: bswap_16_def bit_simps ac_simps dest: bit_imp_le_length)

lemma bit_bswap_32:
  "bit (bswap_32 x) n \<longleftrightarrow> n < 32 \<and>
     bit x (if n < 8 then n + 24 else if n < 16 then n + 8 else if n < 24 then n - 8 else n - 24)"
  by (auto simp: bswap_32_def bit_simps ac_simps dest: bit_imp_le_length)

lemma bswap_16_bswap_16 [simp]: "bswap_16 (bswap_16 x) = x"
  by (rule bit_word_eqI) (auto simp: bit_bswap_16)

lemma bswap_32_bswap_32 [simp]: "bswap_32 (bswap_32 x) = x"
  by (rule bit_word_eqI) (auto simp: bit_bswap_32)

lemma bswap_64_low: "ucast (bswap_64 x) = bswap_32 (ucast (drop_bit 32 x))"
  by (rule bit_word_eqI) (auto simp: bswap_64_def bit_simps)

lemma bswap_64_high: "ucast (drop_bit 32 (bswap_64 x)) = bswap_32 (ucast x)"
  by (rule bit_word_eqI) (auto simp: bswap_64_def bit_simps bit_bswap_32)

lemma bswap_64_bswap_64 [simp]: "bswap_64 (bswap_64 x) = x"
proof -
  have "bswap_64 (bswap_64 x) =
      push_bit 32 (ucast (bswap_32 (ucast (bswap_64 x)))) OR ucast (bswap_32 (ucast (drop_bit 32 (bswap_64 x))))"
    by (subst bswap_64_def) (rule refl)
  also have "\<dots> = push_bit 32 (ucast (ucast (drop_bit 32 x) :: u32)) OR ucast (ucast x :: u32)"
    by (simp add: bswap_64_low bswap_64_high)
  also have "\<dots> = x"
    by (rule bit_word_eqI) (auto simp: bit_simps dest: bit_imp_le_length)
  finally show ?thesis .
qed

subsection \<open>The contract of a conversion\<close>

locale codec =
  fixes enc :: "'a \<Rightarrow> 'b" and dec :: "'b \<Rightarrow> 'a"
  assumes dec_enc [simp]: "dec (enc x) = x"
begin

lemma enc_inj: "enc x = enc y \<longleftrightarrow> x = y"
  by (metis dec_enc)

lemma map_dec_enc [simp]: "map dec (map enc xs) = xs"
  by (induction xs) auto

lemma map_enc_inj: "map enc xs = map enc ys \<longleftrightarrow> xs = ys"
  by (metis map_dec_enc)

end

interpretation le16: codec "cpu_to_le16 be" "le16_to_cpu be"
  by unfold_locales (simp add: cpu_to_le16_def le16_to_cpu_def)

interpretation le32: codec "cpu_to_le32 be" "le32_to_cpu be"
  by unfold_locales (simp add: cpu_to_le32_def le32_to_cpu_def)

interpretation le64: codec "cpu_to_le64 be" "le64_to_cpu be"
  by unfold_locales (simp add: cpu_to_le64_def le64_to_cpu_def)

end
