(* ===== verification/Plock_Range.thy ===== *)
theory Plock_Range
  imports Dlm_Prelude
begin

text \<open>
  Byte ranges of POSIX locks (\<^verbatim>\<open>plock.c\<close>: \<^verbatim>\<open>ranges_overlap\<close>, \<^verbatim>\<open>overlap_type\<close>, \<^verbatim>\<open>shrink_range2\<close>).  A
  range is a pair of inclusive 64-bit offsets; its meaning is the set of offsets between them.
  The lemmas relate each classification and each adjusted bound, computed with wrapping 64-bit
  arithmetic, to that set.
\<close>

definition ranges_overlap :: "u64 \<Rightarrow> u64 \<Rightarrow> u64 \<Rightarrow> u64 \<Rightarrow> bool" where
  "ranges_overlap start1 end1 start2 end2 =
     (if end1 < start2 \<or> start1 > end2 then False else True)"

definition overlap_type :: "u64 \<Rightarrow> u64 \<Rightarrow> u64 \<Rightarrow> u64 \<Rightarrow> int" where
  "overlap_type s1 e1 s2 e2 =
     (if s1 = s2 \<and> e1 = e2 then 0
      else if s1 = s2 \<and> e1 < e2 then 1
      else if s1 > s2 \<and> e1 = e2 then 1
      else if s1 > s2 \<and> e1 < e2 then 2
      else if s1 \<le> s2 \<and> e1 \<ge> e2 then 3
      else if s1 > s2 \<and> e1 > e2 then 4
      else if s1 < s2 \<and> e1 < e2 then 4
      else -1)"

text \<open>The two bounds the C code updates through pointers, and the error code.\<close>

definition shrink_range2 :: "u64 \<Rightarrow> u64 \<Rightarrow> u64 \<Rightarrow> u64 \<Rightarrow> u64 \<times> u64 \<times> int" where
  "shrink_range2 start2 end2 start en =
     (if start2 < start then (start2, start - 1, 0)
      else if end2 > en then (en + 1, end2, 0)
      else (start2, end2, -1))"

lemma ranges_overlap_iff:
  "s1 \<le> e1 \<Longrightarrow> s2 \<le> e2 \<Longrightarrow> ranges_overlap s1 e1 s2 e2 \<longleftrightarrow> {s1..e1} \<inter> {s2..e2} \<noteq> {}"
  by (auto simp: ranges_overlap_def not_less max_def)

lemma ranges_overlap_commute: "ranges_overlap s1 e1 s2 e2 = ranges_overlap s2 e2 s1 e1"
  by (auto simp: ranges_overlap_def)

text \<open>
  C19.  For two non-empty ranges that overlap, \<^verbatim>\<open>overlap_type\<close> never reaches its error value and its
  result says exactly how the new range (first) lies over the existing one (second): equal,
  strictly inside sharing one boundary, strictly inside sharing none, covering, or crossing one end.
\<close>

theorem overlap_type_classifies:
  assumes "s1 \<le> e1" "s2 \<le> e2" "ranges_overlap s1 e1 s2 e2"
  shows "overlap_type s1 e1 s2 e2 \<in> {0, 1, 2, 3, 4} \<and>
    (overlap_type s1 e1 s2 e2 = 0 \<longleftrightarrow> {s1..e1} = {s2..e2}) \<and>
    (overlap_type s1 e1 s2 e2 = 1 \<longleftrightarrow> {s1..e1} \<subset> {s2..e2} \<and> (s1 = s2 \<or> e1 = e2)) \<and>
    (overlap_type s1 e1 s2 e2 = 2 \<longleftrightarrow> {s1..e1} \<subset> {s2..e2} \<and> s1 \<noteq> s2 \<and> e1 \<noteq> e2) \<and>
    (overlap_type s1 e1 s2 e2 = 3 \<longleftrightarrow> {s2..e2} \<subset> {s1..e1}) \<and>
    (overlap_type s1 e1 s2 e2 = 4 \<longleftrightarrow>
       \<not> {s1..e1} \<subseteq> {s2..e2} \<and> \<not> {s2..e2} \<subseteq> {s1..e1})"
  using assms
  by (cases s1 s2 rule: linorder_cases; cases e1 e2 rule: linorder_cases)
    (auto simp: overlap_type_def Icc_eq_Icc atLeastatMost_psubset_iff dest: leD)

theorem overlap_type_classifies_witness:
  "(2::u64) \<le> 9 \<and> (5::u64) \<le> 20 \<and> ranges_overlap 2 9 5 20 \<and> overlap_type 2 9 5 20 = 4 \<and>
   \<not> {2..9::u64} \<subseteq> {5..20}"
proof -
  have h: "(2::u64) \<le> 9" "(5::u64) \<le> 20" "ranges_overlap 2 9 5 20"
    by (simp_all add: ranges_overlap_def)
  have "overlap_type 2 9 5 20 = 4" by (simp add: overlap_type_def)
  then show ?thesis using h overlap_type_classifies [OF h] by blast
qed

text \<open>Which ranges the classification leaves to the shrinking code.\<close>

lemma overlap_type_eq_0D: "overlap_type s1 e1 s2 e2 = 0 \<Longrightarrow> s1 = s2 \<and> e1 = e2"
  by (auto simp: overlap_type_def split: if_splits)

lemma overlap_type_eq_1D:
  "overlap_type s1 e1 s2 e2 = 1 \<Longrightarrow> (s1 = s2 \<and> e1 < e2) \<or> (s2 < s1 \<and> e1 = e2)"
  by (auto simp: overlap_type_def split: if_splits)

lemma overlap_type_eq_2D: "overlap_type s1 e1 s2 e2 = 2 \<Longrightarrow> s2 < s1 \<and> e1 < e2"
  by (auto simp: overlap_type_def split: if_splits)

lemma overlap_type_eq_3D: "overlap_type s1 e1 s2 e2 = 3 \<Longrightarrow> s1 \<le> s2 \<and> e2 \<le> e1"
  by (auto simp: overlap_type_def split: if_splits)

lemma overlap_type_eq_4D:
  "overlap_type s1 e1 s2 e2 = 4 \<Longrightarrow> (s2 < s1 \<and> e2 < e1) \<or> (s1 < s2 \<and> e1 < e2)"
  by (auto simp: overlap_type_def split: if_splits)

lemma overlap_type_inside: "overlap_type s1 e1 s2 e2 \<in> {0, 1, 2} \<Longrightarrow> s2 \<le> s1 \<and> e1 \<le> e2"
  by (auto simp: overlap_type_def split: if_splits)

lemma overlap_type_total: "overlap_type s1 e1 s2 e2 \<in> {0, 1, 2, 3, 4}"
  by (cases s1 s2 rule: linorder_cases; cases e1 e2 rule: linorder_cases)
    (auto simp: overlap_type_def)

text \<open>Cutting a range at the bounds of another one, as sets of offsets.\<close>

lemma cut_front:
  fixes s2 e2 s e :: u64
  assumes "s2 < s" "e2 \<le> e" "s \<le> e2"
  shows "s2 \<le> s - 1" "{s2..s - 1} = {s2..e2} - {s..e}"
  using assms by (auto simp: le_minus_one_iff [OF assms(1)])

lemma cut_back:
  fixes s2 e2 s e :: u64
  assumes "s \<le> s2" "e < e2" "s2 \<le> e"
  shows "e + 1 \<le> e2" "{e + 1..e2} = {s2..e2} - {s..e}"
  using assms by (auto simp: plus_one_le_iff [OF assms(2)])

lemma cut_middle:
  fixes s2 e2 s e :: u64
  assumes "s2 < s" "e < e2" "s \<le> e"
  shows "s2 \<le> s - 1" "e + 1 \<le> e2" "{s2..s - 1} \<inter> {e + 1..e2} = {}"
    "{s2..s - 1} \<union> {e + 1..e2} = {s2..e2} - {s..e}"
proof -
  show "s2 \<le> s - 1" "e + 1 \<le> e2"
    using assms by (simp_all add: le_minus_one_iff [OF assms(1)] plus_one_le_iff [OF assms(2)])
  have "\<not> (x \<le> s - 1 \<and> e + 1 \<le> x)" for x
    using assms(3) by (auto simp: le_minus_one_iff [OF assms(1)] plus_one_le_iff [OF assms(2)])
  then show "{s2..s - 1} \<inter> {e + 1..e2} = {}" by (meson atLeastAtMost_iff disjoint_iff)
  show "{s2..s - 1} \<union> {e + 1..e2} = {s2..e2} - {s..e}"
    using assms by (auto simp: le_minus_one_iff [OF assms(1)] plus_one_le_iff [OF assms(2)])
qed

lemma shrink_range2_cuts:
  assumes "start \<le> en" "start2 \<le> end2" "ranges_overlap start2 end2 start en"
    and "overlap_type start en start2 end2 \<in> {1, 4}"
  shows "\<exists>s' e'. shrink_range2 start2 end2 start en = (s', e', 0) \<and> s' \<le> e' \<and>
           {s'..e'} = {start2..end2} - {start..en}"
proof -
  consider "start2 < start" "end2 \<le> en" "start \<le> end2"
    | "start \<le> start2" "en < end2" "start2 \<le> en"
    using assms overlap_type_eq_1D [of start en start2 end2] overlap_type_eq_4D [of start en start2 end2]
    by (fastforce simp: ranges_overlap_def split: if_splits)
  then show ?thesis
  proof cases
    case 1
    then show ?thesis using cut_front [OF 1] by (simp add: shrink_range2_def)
  next
    case 2
    then show ?thesis using cut_back [OF 2] by (auto simp: shrink_range2_def)
  qed
qed

text \<open>
  C20.  Shrinking an existing range by a new one that lies at its boundary or crosses one of its
  ends (the two cases in which the code calls it) succeeds, leaves a non-empty range without
  wrapping around, and removes exactly the offsets of the new range.
\<close>

theorem shrink_range2_minus:
  assumes "start \<le> en" "start2 \<le> end2" "ranges_overlap start2 end2 start en"
    and "overlap_type start en start2 end2 \<in> {1, 4}"
  shows "\<exists>s' e'. shrink_range2 start2 end2 start en = (s', e', 0) \<and> s' \<le> e' \<and>
           {s'..e'} = {start2..end2} - {start..en}"
  using assms by (rule shrink_range2_cuts)

theorem shrink_range2_minus_witness:
  "overlap_type 5 30 2 9 = 4 \<and>
   (\<exists>s' e'. shrink_range2 2 9 5 30 = (s', e', 0) \<and> s' \<le> e' \<and> {s'..e'} = {2..9} - {5..30})"
proof -
  have h: "(5::u64) \<le> 30" "(2::u64) \<le> 9" "ranges_overlap 2 9 5 30" "overlap_type 5 30 2 9 \<in> {1, 4}"
    by (simp_all add: ranges_overlap_def overlap_type_def)
  show ?thesis using shrink_range2_minus [OF h] by (simp add: overlap_type_def)
qed

end
