(* ===== verification/Plock_Types.thy ===== *)
theory Plock_Types
  imports Plock_Range
begin

text \<open>
  The data of \<^verbatim>\<open>plock.c\<close>: a lock request (\<^verbatim>\<open>struct dlm_plock_info\<close>, the fields the source uses), a
  held range (\<^verbatim>\<open>struct posix_lock\<close>), a queued request (\<^verbatim>\<open>struct lock_waiter\<close>) and the per-inode
  resource that owns the three lists.  Kernel linked lists are HOL lists in list order:
  \<^verbatim>\<open>list_add_tail\<close> appends, \<^verbatim>\<open>list_add\<close> conses.
\<close>

text \<open>Operation codes; the kernel header fixes their numbers, the daemon only tests for them.\<close>

datatype plock_op =
    DLM_PLOCK_OP_LOCK
  | DLM_PLOCK_OP_UNLOCK
  | DLM_PLOCK_OP_GET
  | Plock_op_other nat

record dlm_plock_info =
  in_version :: "u32 \<times> u32 \<times> u32"
  in_optype :: plock_op
  in_ex :: int
  in_wait :: int
  in_pid :: u32
  in_nodeid :: nodeid
  in_rv :: s32
  in_fsid :: u32
  in_number :: u64
  in_start :: u64
  in_end :: u64
  in_owner :: u64

text \<open>\<^verbatim>\<open>memset(&info, 0, sizeof(info))\<close>; operation code 0 is none of the three operations.\<close>

definition info_zero :: dlm_plock_info where
  "info_zero = \<lparr>in_version = (0, 0, 0), in_optype = Plock_op_other 0, in_ex = 0, in_wait = 0,
     in_pid = 0, in_nodeid = 0, in_rv = 0, in_fsid = 0, in_number = 0, in_start = 0, in_end = 0,
     in_owner = 0\<rparr>"

record posix_lock =
  po_pid :: u32
  po_owner :: u64
  po_start :: u64
  po_end :: u64
  po_ex :: int
  po_nodeid :: nodeid
  po_flags :: u32

record lock_waiter =
  w_flags :: u32
  w_info :: dlm_plock_info

record resource =
  r_number :: u64
  r_owner :: s32
  r_flags :: u32
  r_last_access :: timeval
  r_locks :: "posix_lock list"
  r_waiters :: "lock_waiter list"
  r_pending :: "lock_waiter list"

abbreviation (input) R_GOT_UNOWN :: u32 where "R_GOT_UNOWN \<equiv> 1"
abbreviation (input) P_SYNCING :: u32 where "P_SYNCING \<equiv> 1"

text \<open>C's logical negation of an \<^verbatim>\<open>int\<close>.\<close>

definition lnot :: "int \<Rightarrow> int" where
  "lnot x = (if x = 0 then 1 else 0)"

definition op_str :: "plock_op \<Rightarrow> string" where
  "op_str optype = (case optype of
       DLM_PLOCK_OP_LOCK \<Rightarrow> ''LK''
     | DLM_PLOCK_OP_UNLOCK \<Rightarrow> ''UN''
     | DLM_PLOCK_OP_GET \<Rightarrow> ''GET''
     | Plock_op_other _ \<Rightarrow> ''??'')"

definition ex_str :: "plock_op \<Rightarrow> int \<Rightarrow> string" where
  "ex_str optype ex =
     (if optype = DLM_PLOCK_OP_UNLOCK \<or> optype = DLM_PLOCK_OP_GET then ''-''
      else if ex \<noteq> 0 then ''WR'' else ''RD'')"

end
