(* ===== verification/Dlm_Msg.thy ===== *)
theory Dlm_Msg
  imports Dlm_Endian Plock_Types
begin

text \<open>
  Messages between the daemons (\<^verbatim>\<open>dlm_daemon.h\<close>, \<^verbatim>\<open>cpg.c\<close>): the header with its type and flag codes, the
  header conversion \<^verbatim>\<open>dlm_header_in\<close>, the part of the header that \<^verbatim>\<open>dlm_send_message\<close> fills in, and the
  wire form of a lock request (\<^verbatim>\<open>info_bswap_out\<close>, \<^verbatim>\<open>info_bswap_in\<close> of \<^verbatim>\<open>plock.c\<close>).
\<close>

abbreviation (input) DLM_MSG_PROTOCOL :: u16 where "DLM_MSG_PROTOCOL \<equiv> 1"
abbreviation (input) DLM_MSG_START :: u16 where "DLM_MSG_START \<equiv> 2"
abbreviation (input) DLM_MSG_PLOCK :: u16 where "DLM_MSG_PLOCK \<equiv> 3"
abbreviation (input) DLM_MSG_PLOCK_OWN :: u16 where "DLM_MSG_PLOCK_OWN \<equiv> 4"
abbreviation (input) DLM_MSG_PLOCK_DROP :: u16 where "DLM_MSG_PLOCK_DROP \<equiv> 5"
abbreviation (input) DLM_MSG_PLOCK_SYNC_LOCK :: u16 where "DLM_MSG_PLOCK_SYNC_LOCK \<equiv> 6"
abbreviation (input) DLM_MSG_PLOCK_SYNC_WAITER :: u16 where "DLM_MSG_PLOCK_SYNC_WAITER \<equiv> 7"
abbreviation (input) DLM_MSG_PLOCKS_STORED :: u16 where "DLM_MSG_PLOCKS_STORED \<equiv> 8"
abbreviation (input) DLM_MSG_DEADLK_CYCLE_START :: u16 where "DLM_MSG_DEADLK_CYCLE_START \<equiv> 9"
abbreviation (input) DLM_MSG_DEADLK_CYCLE_END :: u16 where "DLM_MSG_DEADLK_CYCLE_END \<equiv> 10"
abbreviation (input) DLM_MSG_DEADLK_CHECKPOINT_READY :: u16 where
  "DLM_MSG_DEADLK_CHECKPOINT_READY \<equiv> 11"
abbreviation (input) DLM_MSG_DEADLK_CANCEL_LOCK :: u16 where "DLM_MSG_DEADLK_CANCEL_LOCK \<equiv> 12"

abbreviation (input) DLM_MFLG_JOINING :: u32 where "DLM_MFLG_JOINING \<equiv> 1"
abbreviation (input) DLM_MFLG_HAVEPLOCK :: u32 where "DLM_MFLG_HAVEPLOCK \<equiv> 2"

definition msg_name :: "u16 \<Rightarrow> string" where
  "msg_name type =
     (if type = DLM_MSG_PROTOCOL then ''protocol''
      else if type = DLM_MSG_START then ''start''
      else if type = DLM_MSG_PLOCK then ''plock''
      else if type = DLM_MSG_PLOCK_OWN then ''plock_own''
      else if type = DLM_MSG_PLOCK_DROP then ''plock_drop''
      else if type = DLM_MSG_PLOCK_SYNC_LOCK then ''plock_sync_lock''
      else if type = DLM_MSG_PLOCK_SYNC_WAITER then ''plock_sync_waiter''
      else if type = DLM_MSG_PLOCKS_STORED then ''plocks_stored''
      else if type = DLM_MSG_DEADLK_CYCLE_START then ''deadlk_cycle_start''
      else if type = DLM_MSG_DEADLK_CYCLE_END then ''deadlk_cycle_end''
      else if type = DLM_MSG_DEADLK_CHECKPOINT_READY then ''deadlk_checkpoint_ready''
      else if type = DLM_MSG_DEADLK_CANCEL_LOCK then ''deadlk_cancel_lock''
      else ''unknown'')"

record dlm_header =
  hd_version :: "u16 \<times> u16 \<times> u16"
  hd_type :: u16
  hd_nodeid :: nodeid
  hd_to_nodeid :: nodeid
  hd_global_id :: u32
  hd_flags :: u32
  hd_msgdata :: u32

definition hd_zero :: dlm_header where
  "hd_zero = \<lparr>hd_version = (0, 0, 0), hd_type = 0, hd_nodeid = 0, hd_to_nodeid = 0,
     hd_global_id = 0, hd_flags = 0, hd_msgdata = 0\<rparr>"

definition dlm_header_in :: "bool \<Rightarrow> dlm_header \<Rightarrow> dlm_header" where
  "dlm_header_in be h = (case hd_version h of (v0, v1, v2) \<Rightarrow>
     \<lparr>hd_version = (le16_to_cpu be v0, le16_to_cpu be v1, le16_to_cpu be v2),
      hd_type = le16_to_cpu be (hd_type h),
      hd_nodeid = le32_to_cpu be (hd_nodeid h),
      hd_to_nodeid = le32_to_cpu be (hd_to_nodeid h),
      hd_global_id = le32_to_cpu be (hd_global_id h),
      hd_flags = le32_to_cpu be (hd_flags h),
      hd_msgdata = le32_to_cpu be (hd_msgdata h)\<rparr>)"

text \<open>The header part of \<^verbatim>\<open>dlm_send_message\<close>: \<open>run\<close> is the negotiated \<^verbatim>\<open>our_protocol.daemon_run\<close>.\<close>

definition dlm_send_header ::
  "bool \<Rightarrow> u16 \<times> u16 \<times> u16 \<Rightarrow> nodeid \<Rightarrow> u32 \<Rightarrow> dlm_header \<Rightarrow> dlm_header"
where
  "dlm_send_header be run our_nodeid global_id h = (case run of (v0, v1, v2) \<Rightarrow>
     \<lparr>hd_version = (cpu_to_le16 be v0, cpu_to_le16 be v1, cpu_to_le16 be v2),
      hd_type = cpu_to_le16 be (hd_type h),
      hd_nodeid = cpu_to_le32 be our_nodeid,
      hd_to_nodeid = cpu_to_le32 be (hd_to_nodeid h),
      hd_global_id = cpu_to_le32 be global_id,
      hd_flags = cpu_to_le32 be (hd_flags h),
      hd_msgdata = cpu_to_le32 be (hd_msgdata h)\<rparr>)"

lemma dlm_header_in_send:
  "dlm_header_in be (dlm_send_header be run our_nodeid global_id h) =
     h\<lparr>hd_version := run, hd_nodeid := our_nodeid, hd_global_id := global_id\<rparr>"
  by (simp add: dlm_header_in_def dlm_send_header_def split: prod.split)

definition info_bswap_out :: "bool \<Rightarrow> dlm_plock_info \<Rightarrow> dlm_plock_info" where
  "info_bswap_out be i = (case in_version i of (v0, v1, v2) \<Rightarrow>
     i\<lparr>in_version := (cpu_to_le32 be v0, cpu_to_le32 be v1, cpu_to_le32 be v2),
       in_pid := cpu_to_le32 be (in_pid i),
       in_nodeid := cpu_to_le32 be (in_nodeid i),
       in_rv := cpu_to_le32 be (in_rv i),
       in_fsid := cpu_to_le32 be (in_fsid i),
       in_number := cpu_to_le64 be (in_number i),
       in_start := cpu_to_le64 be (in_start i),
       in_end := cpu_to_le64 be (in_end i),
       in_owner := cpu_to_le64 be (in_owner i)\<rparr>)"

definition info_bswap_in :: "bool \<Rightarrow> dlm_plock_info \<Rightarrow> dlm_plock_info" where
  "info_bswap_in be i = (case in_version i of (v0, v1, v2) \<Rightarrow>
     i\<lparr>in_version := (le32_to_cpu be v0, le32_to_cpu be v1, le32_to_cpu be v2),
       in_pid := le32_to_cpu be (in_pid i),
       in_nodeid := le32_to_cpu be (in_nodeid i),
       in_rv := le32_to_cpu be (in_rv i),
       in_fsid := le32_to_cpu be (in_fsid i),
       in_number := le64_to_cpu be (in_number i),
       in_start := le64_to_cpu be (in_start i),
       in_end := le64_to_cpu be (in_end i),
       in_owner := le64_to_cpu be (in_owner i)\<rparr>)"

interpretation info: codec "info_bswap_out be" "info_bswap_in be"
  by unfold_locales (simp add: info_bswap_in_def info_bswap_out_def split: prod.split)

subsection \<open>Protocol versions and membership details\<close>

record protocol_version =
  pv_major :: u16
  pv_minor :: u16
  pv_patch :: u16
  pv_flags :: u16

record protocol =
  dm_ver :: protocol_version
  km_ver :: protocol_version
  dr_ver :: protocol_version
  kr_ver :: protocol_version

definition pv_zero :: protocol_version where
  "pv_zero = \<lparr>pv_major = 0, pv_minor = 0, pv_patch = 0, pv_flags = 0\<rparr>"

definition proto_zero :: protocol where
  "proto_zero = \<lparr>dm_ver = pv_zero, km_ver = pv_zero, dr_ver = pv_zero, kr_ver = pv_zero\<rparr>"

definition pv_in :: "bool \<Rightarrow> protocol_version \<Rightarrow> protocol_version" where
  "pv_in be pv = \<lparr>pv_major = le16_to_cpu be (pv_major pv), pv_minor = le16_to_cpu be (pv_minor pv),
     pv_patch = le16_to_cpu be (pv_patch pv), pv_flags = le16_to_cpu be (pv_flags pv)\<rparr>"

definition pv_out :: "bool \<Rightarrow> protocol_version \<Rightarrow> protocol_version" where
  "pv_out be pv = \<lparr>pv_major = cpu_to_le16 be (pv_major pv), pv_minor = cpu_to_le16 be (pv_minor pv),
     pv_patch = cpu_to_le16 be (pv_patch pv), pv_flags = cpu_to_le16 be (pv_flags pv)\<rparr>"

definition protocol_in :: "bool \<Rightarrow> protocol \<Rightarrow> protocol" where
  "protocol_in be p = \<lparr>dm_ver = pv_in be (dm_ver p), km_ver = pv_in be (km_ver p),
     dr_ver = pv_in be (dr_ver p), kr_ver = pv_in be (kr_ver p)\<rparr>"

definition protocol_out :: "bool \<Rightarrow> protocol \<Rightarrow> protocol" where
  "protocol_out be p = \<lparr>dm_ver = pv_out be (dm_ver p), km_ver = pv_out be (km_ver p),
     dr_ver = pv_out be (dr_ver p), kr_ver = pv_out be (kr_ver p)\<rparr>"

interpretation pv: codec "pv_out be" "pv_in be"
  by unfold_locales (simp add: pv_in_def pv_out_def)

interpretation proto: codec "protocol_out be" "protocol_in be"
  by unfold_locales (simp add: protocol_in_def protocol_out_def)

text \<open>
  The body of a start or plocks-stored message.  The id entries that follow \<^verbatim>\<open>struct ls_info\<close> on the
  wire are a list beside it; the sizes are those of the two structures.
\<close>

record ls_info =
  li_ls_info_size :: u32
  li_id_info_size :: u32
  li_id_info_count :: u32
  li_started_count :: u32
  li_member_count :: s32
  li_joined_count :: s32
  li_remove_count :: s32
  li_failed_count :: s32

definition ls_info_in :: "bool \<Rightarrow> ls_info \<Rightarrow> ls_info" where
  "ls_info_in be li = \<lparr>
     li_ls_info_size = le32_to_cpu be (li_ls_info_size li),
     li_id_info_size = le32_to_cpu be (li_id_info_size li),
     li_id_info_count = le32_to_cpu be (li_id_info_count li),
     li_started_count = le32_to_cpu be (li_started_count li),
     li_member_count = le32_to_cpu be (li_member_count li),
     li_joined_count = le32_to_cpu be (li_joined_count li),
     li_remove_count = le32_to_cpu be (li_remove_count li),
     li_failed_count = le32_to_cpu be (li_failed_count li)\<rparr>"

definition ls_info_out :: "bool \<Rightarrow> ls_info \<Rightarrow> ls_info" where
  "ls_info_out be li = \<lparr>
     li_ls_info_size = cpu_to_le32 be (li_ls_info_size li),
     li_id_info_size = cpu_to_le32 be (li_id_info_size li),
     li_id_info_count = cpu_to_le32 be (li_id_info_count li),
     li_started_count = cpu_to_le32 be (li_started_count li),
     li_member_count = cpu_to_le32 be (li_member_count li),
     li_joined_count = cpu_to_le32 be (li_joined_count li),
     li_remove_count = cpu_to_le32 be (li_remove_count li),
     li_failed_count = cpu_to_le32 be (li_failed_count li)\<rparr>"

interpretation ls_info: codec "ls_info_out be" "ls_info_in be"
  by unfold_locales (simp add: ls_info_in_def ls_info_out_def)

text \<open>\<^verbatim>\<open>ids_in\<close>: the first \<^verbatim>\<open>id_info_count\<close> entries are converted in place.\<close>

definition ids_in :: "bool \<Rightarrow> ls_info \<Rightarrow> nodeid list \<Rightarrow> nodeid list" where
  "ids_in be li ids =
     map (le32_to_cpu be) (take (unat (li_id_info_count li)) ids) @
     drop (unat (li_id_info_count li)) ids"

subsection \<open>Messages\<close>

text \<open>
  What follows the header.  Every message of a type has the body its senders give it; the accessors
  read a body of another shape as zero bytes.
\<close>

datatype body =
    Body_none
  | Body_plock dlm_plock_info
  | Body_ls_info ls_info "nodeid list"
  | Body_protocol protocol

fun body_plock :: "body \<Rightarrow> dlm_plock_info" where
  "body_plock (Body_plock i) = i"
| "body_plock _ = info_zero"

fun body_ls_info :: "body \<Rightarrow> ls_info \<times> nodeid list" where
  "body_ls_info (Body_ls_info li ids) = (li, ids)"
| "body_ls_info _ = (\<lparr>li_ls_info_size = 0, li_id_info_size = 0, li_id_info_count = 0,
     li_started_count = 0, li_member_count = 0, li_joined_count = 0, li_remove_count = 0,
     li_failed_count = 0\<rparr>, [])"

fun body_protocol :: "body \<Rightarrow> protocol" where
  "body_protocol (Body_protocol p) = p"
| "body_protocol _ = proto_zero"

record message =
  m_handle :: u64
  m_hd :: dlm_header
  m_body :: body

text \<open>What \<^verbatim>\<open>cpg_mcast_joined\<close> answers.\<close>

datatype cpg_error = CPG_OK | CPG_ERR_TRY_AGAIN | CPG_ERR_other nat

text \<open>
  \<^verbatim>\<open>_send_message\<close>: the answers of the coming \<^verbatim>\<open>cpg_mcast_joined\<close> calls are a list, \<open>[]\<close> meaning that
  every further call succeeds.  The result is the list of answers left and the return value.
\<close>

fun send_message_retry :: "cpg_error list \<Rightarrow> cpg_error list \<times> int" where
  "send_message_retry [] = ([], 0)"
| "send_message_retry (e # es) = (case e of
       CPG_ERR_TRY_AGAIN \<Rightarrow> send_message_retry es
     | CPG_OK \<Rightarrow> (es, 0)
     | CPG_ERR_other _ \<Rightarrow> (es, -1))"

end
