(* ===== verification/Dlm_State.thy ===== *)
theory Dlm_State
  imports Dlm_Msg
begin

text \<open>
  The state of \<^verbatim>\<open>dlm_controld\<close>: the file-scope variables of \<^verbatim>\<open>main.c\<close>, \<^verbatim>\<open>plock.c\<close>, \<^verbatim>\<open>cpg.c\<close> and
  \<^verbatim>\<open>config.h\<close> as one record \<open>daemon\<close>, and \<^verbatim>\<open>struct lockspace\<close> with the structures it holds.  The record
  also carries the environment of a handler call: the clock (one reading per handler), the outcomes
  of the coming allocations and multicasts, and three output logs in program order: messages
  multicast, results written to the plock device, and operations on the kernel (sysfs, configfs).
  What fenced and the quorum service know (\<open>fenced_node_info\<close>, \<open>fenced_domain_info\<close>, \<open>quorum_nodes\<close>) and the
  contents of uninitialised variables (\<open>fence_stack\<close>, \<open>stack_num\<close>) and of a freshly allocated request with a
  given fill (\<open>heap_info\<close>) are fields too, as are the lines of a lockspace's debugfs lock file and whether libdlm
  can open a lockspace.
\<close>

record member =
  mb_nodeid :: nodeid
  mb_start :: bool
  mb_added :: bool
  mb_failed :: bool
  mb_disallowed :: bool
  mb_start_flags :: u32

definition memb_zero :: member where
  "memb_zero = \<lparr>mb_nodeid = 0, mb_start = False, mb_added = False, mb_failed = False,
     mb_disallowed = False, mb_start_flags = 0\<rparr>"

record node =
  nd_nodeid :: nodeid
  nd_check_fencing :: bool
  nd_check_quorum :: bool
  nd_check_fs :: bool
  nd_fs_notified :: bool
  nd_add_time :: u64
  nd_fence_time :: u64
  nd_fence_queries :: u32
  nd_added_seq :: u32
  nd_removed_seq :: u32
  nd_failed_reason :: int
  nd_proto :: protocol

definition node_zero :: node where
  "node_zero = \<lparr>nd_nodeid = 0, nd_check_fencing = False, nd_check_quorum = False, nd_check_fs = False,
     nd_fs_notified = False, nd_add_time = 0, nd_fence_time = 0, nd_fence_queries = 0,
     nd_added_seq = 0, nd_removed_seq = 0, nd_failed_reason = 0, nd_proto = proto_zero\<rparr>"

datatype cg_state = CGST_WAIT_CONDITIONS | CGST_WAIT_MESSAGES

record change =
  cg_members :: "member list"
  cg_removed :: "member list"
  cg_member_count :: s32
  cg_joined_count :: s32
  cg_remove_count :: s32
  cg_failed_count :: s32
  cg_state :: cg_state
  cg_we_joined :: bool
  cg_seq :: u32
  cg_combined_seq :: u32

text \<open>A saved plock message (\<^verbatim>\<open>struct save_msg\<close>): its type, its sender and the message as received.\<close>

record save_msg =
  sm_nodeid :: nodeid
  sm_type :: u16
  sm_hd :: dlm_header
  sm_body :: body

text \<open>
  The deadlock detector (\<^verbatim>\<open>deadlock.c\<close>).  A lock (\<^verbatim>\<open>struct dlm_lkb\<close>) is on the list of its resource and on that
  of its transaction, so locks live in a store \<open>dk_lkbs\<close> and both lists hold positions in it.  Pointers to
  transactions and resources are their xid and name, by which the code looks them up.
\<close>

record pack_lock =
  pl_xid :: u64
  pl_id :: u32
  pl_nodeid :: nodeid
  pl_remid :: u32
  pl_ownpid :: s32
  pl_exflags :: u32
  pl_flags :: u32
  pl_status :: "8 word"
  pl_grmode :: "8 word"
  pl_rqmode :: "8 word"
  pl_copy :: "8 word"

record dlm_lkb =
  lkb_lock :: pack_lock
  lkb_home :: nodeid
  lkb_rsb :: "string option"
  lkb_trans :: "u64 option"
  lkb_waitfor_trans :: "u64 option"

record dlm_rsb =
  rsb_name :: string
  rsb_locks :: "nat list"

record trans =
  tr_locks :: "nat list"
  tr_xid :: u64
  tr_others_waiting_on_us :: int
  tr_waitfor_alloc :: nat
  tr_waitfor_count :: nat
  tr_waitfor :: "u64 option list"

record dk_node =
  dn_nodeid :: nodeid
  dn_checkpoint_ready :: bool
  dn_in_cycle :: bool

record deadlk =
  dk_low_nodeid :: nodeid
  dk_nodes :: "dk_node list"
  dk_ckpt_handle :: u64
  dk_confchg_init :: bool
  dk_transactions :: "trans list"
  dk_resources :: "dlm_rsb list"
  dk_lkbs :: "dlm_lkb list"
  dk_cycle_start_time :: timeval
  dk_cycle_end_time :: timeval
  dk_last_send_cycle_start :: timeval
  dk_cycle_running :: bool
  dk_all_checkpoints_ready :: bool

definition dk_zero :: deadlk where
  "dk_zero = \<lparr>dk_low_nodeid = 0, dk_nodes = [], dk_ckpt_handle = 0, dk_confchg_init = False,
     dk_transactions = [], dk_resources = [], dk_lkbs = [], dk_cycle_start_time = \<lparr>tv_sec = 0, tv_usec = 0\<rparr>,
     dk_cycle_end_time = \<lparr>tv_sec = 0, tv_usec = 0\<rparr>, dk_last_send_cycle_start = \<lparr>tv_sec = 0, tv_usec = 0\<rparr>,
     dk_cycle_running = False, dk_all_checkpoints_ready = False\<rparr>"

record lockspace =
  ls_name :: string
  ls_global_id :: u32
  ls_cpg_handle :: u64
  ls_cpg_client :: int
  ls_joining :: bool
  ls_leaving :: bool
  ls_kernel_stopped :: bool
  ls_fs_registered :: bool
  ls_change_seq :: u32
  ls_started_count :: u32
  ls_started_change :: "change option"
  ls_changes :: "change list"
  ls_node_history :: "node list"
  ls_plock_ckpt_node :: nodeid
  ls_need_plocks :: bool
  ls_save_plocks :: bool
  ls_associated_mg_id :: u32
  ls_saved_messages :: "save_msg list"
  ls_plock_resources :: "resource list"
  ls_last_checkpoint_time :: int
  ls_last_plock_time :: int
  ls_drop_resources_last :: timeval
  ls_plock_ckpt_handle :: u64
  ls_deadlk :: deadlk

definition ls_zero :: lockspace where
  "ls_zero = \<lparr>ls_name = '''', ls_global_id = 0, ls_cpg_handle = 0, ls_cpg_client = 0,
     ls_joining = False, ls_leaving = False, ls_kernel_stopped = False, ls_fs_registered = False,
     ls_change_seq = 0, ls_started_count = 0, ls_started_change = None, ls_changes = [],
     ls_node_history = [], ls_plock_ckpt_node = 0, ls_need_plocks = False, ls_save_plocks = False,
     ls_associated_mg_id = 0, ls_saved_messages = [], ls_plock_resources = [],
     ls_last_checkpoint_time = 0, ls_last_plock_time = 0,
     ls_drop_resources_last = \<lparr>tv_sec = 0, tv_usec = 0\<rparr>, ls_plock_ckpt_handle = 0,
     ls_deadlk = dk_zero\<rparr>"

text \<open>Operations on the kernel and the cluster manager, in the order the daemon performs them.\<close>

datatype kernel_op =
    Set_sysfs_control string int
  | Set_sysfs_event_done string int
  | Set_sysfs_id string u32
  | Set_configfs_members string "nodeid list" "nodeid list"
  | Cfg_kill_node nodeid
  | Cfg_try_shutdown
  | Deadlock_cancel string u32
  | Cpg_join u64 string
  | Cpg_leave u64 string
  | Cpg_finalize u64
  | Client_dead int

text \<open>
  The AIS checkpoint service.  Its answers to the coming calls are a list; a call takes the first one, and
  with \<open>[]\<close> every call succeeds (and a section iteration ends).  An answer carries the error code, the handle
  an open returns, and the section id and contents that iteration and reading return (\<open>sa_extra\<close>: the bytes
  read after the last whole entry).  The calls made are logged with the error code they returned.
\<close>

record pack_plock =
  pp_start :: u64
  pp_end :: u64
  pp_owner :: u64
  pp_pid :: u32
  pp_nodeid :: u32
  pp_ex :: "8 word"
  pp_waiter :: "8 word"

datatype sa_error =
    SA_AIS_OK
  | SA_AIS_ERR_TRY_AGAIN
  | SA_AIS_ERR_EXIST
  | SA_AIS_ERR_NO_SECTIONS
  | SA_AIS_ERR_other nat

record sa_answer =
  sa_err :: sa_error
  sa_handle :: u64
  sa_id :: string
  sa_data :: "pack_plock list"
  sa_extra :: nat
  sa_locks :: "pack_lock list"

datatype ckpt_op =
    Ckpt_unlink string
  | Ckpt_status u64
  | Ckpt_close u64
  | Ckpt_create string nat nat nat
  | Ckpt_section u64 string "pack_plock list"
  | Ckpt_lock_section u64 string "pack_lock list"
  | Ckpt_open string
  | Ckpt_iter_init u64
  | Ckpt_iter_next
  | Ckpt_read u64 string
  | Ckpt_iter_fini

record daemon =
  our_nodeid :: nodeid
  big_endian :: bool
  now :: timeval
  dmem :: mem
  mcast :: "cpg_error list"
  sent :: "message list"
  plock_results :: "dlm_plock_info list"
  kernel_ops :: "kernel_op list"
  our_protocol :: protocol
  cfgd_enable_plock :: bool
  cfgd_plock_ownership :: bool
  cfgd_plock_rate_limit :: u32
  cfgd_drop_resources_time :: u32
  cfgd_drop_resources_count :: int
  cfgd_drop_resources_age :: u32
  cfgd_enable_fencing :: bool
  cfgd_enable_quorum :: bool
  need_fsid_translation :: bool
  plock_read_count :: u32
  plock_recv_count :: u32
  plock_rate_delays :: u32
  plock_read_time :: timeval
  plock_recv_time :: timeval
  plock_rate_last :: timeval
  message_flow_control_on :: bool
  poll_ignore_plock :: bool
  poll_fencing :: bool
  poll_quorum :: bool
  poll_fs :: bool
  cluster_quorate :: bool
  ckpt_answers :: "sa_answer list"
  ckpt_ops :: "(ckpt_op \<times> sa_error) list"
  fenced_node_info :: "nodeid \<Rightarrow> int \<times> u64"
  fenced_domain_info :: "int \<times> s32"
  fence_stack :: u64
  quorum_nodes :: "nodeid list"
  daemon_nodes :: "node list"
  daemon_member :: "nodeid list"
  heap_info :: "u32 \<Rightarrow> dlm_plock_info"
  stack_num :: u64
  cfgd_enable_deadlk :: bool
  debugfs_locks :: "string \<Rightarrow> string list option"
  dlm_opens :: bool
  daemon_cpg_handle :: u64
  cluster_down :: bool
  daemon_quit :: bool

subsection \<open>Time\<close>

definition timersub :: "timeval \<Rightarrow> timeval \<Rightarrow> timeval" where
  "timersub a b =
     (let s = tv_sec a - tv_sec b; u = tv_usec a - tv_usec b in
      if u < 0 then \<lparr>tv_sec = s - 1, tv_usec = u + 1000000\<rparr> else \<lparr>tv_sec = s, tv_usec = u\<rparr>)"

definition time_diff_ms :: "timeval \<Rightarrow> timeval \<Rightarrow> u64" where
  "time_diff_ms begin_t end_t =
     (let result = timersub end_t begin_t in
      word_of_int (tv_sec result * 1000 + tv_usec result div 1000))"

definition dt_usec :: "timeval \<Rightarrow> timeval \<Rightarrow> u64" where
  "dt_usec start stop =
     (let dt = word_of_int (tv_sec stop - tv_sec start) :: u64;
          dt = dt * 1000000
      in dt + word_of_int (tv_usec stop - tv_usec start))"

text \<open>\<^verbatim>\<open>time(NULL)\<close>\<close>

definition time_now :: "daemon \<Rightarrow> int" where
  "time_now d = tv_sec (now d)"

subsection \<open>Sending\<close>

definition daemon_run :: "daemon \<Rightarrow> u16 \<times> u16 \<times> u16" where
  "daemon_run d = (let v = dr_ver (our_protocol d) in (pv_major v, pv_minor v, pv_patch v))"

definition send_message :: "daemon \<Rightarrow> message \<Rightarrow> daemon \<times> int" where
  "send_message d m = (case send_message_retry (mcast d) of (es, rv) \<Rightarrow>
     (d\<lparr>mcast := es, sent := (if rv = 0 then sent d @ [m] else sent d)\<rparr>, rv))"

definition dlm_send_message :: "daemon \<Rightarrow> lockspace \<Rightarrow> dlm_header \<Rightarrow> body \<Rightarrow> daemon" where
  "dlm_send_message d ls h b =
     fst (send_message d
       \<lparr>m_handle = ls_cpg_handle ls,
        m_hd = dlm_send_header (big_endian d) (daemon_run d) (our_nodeid d) (ls_global_id ls) h,
        m_body = b\<rparr>)"

end
