(* ===== verification/Plock_Lock.thy ===== *)
theory Plock_Lock
  imports Plock_Types
begin

text \<open>
  Granting and releasing byte ranges on one resource (\<^verbatim>\<open>plock.c\<close>: \<^verbatim>\<open>is_conflict\<close>, \<^verbatim>\<open>add_lock\<close>,
  \<^verbatim>\<open>lock_case1\<close>, \<^verbatim>\<open>lock_case2\<close>, \<^verbatim>\<open>lock_internal\<close>, \<^verbatim>\<open>unlock_internal\<close>).  The list walks carry the part of
  \<^verbatim>\<open>r->locks\<close> already passed and the part still to visit; in-place updates of the visited lock act
  between the two.  \<^verbatim>\<open>Plock_Refine\<close> relates them to an abstract view.
\<close>

fun is_conflict_loop :: "posix_lock list \<Rightarrow> dlm_plock_info \<Rightarrow> bool \<Rightarrow> bool \<times> dlm_plock_info" where
  "is_conflict_loop [] i get = (False, i)"
| "is_conflict_loop (po # pos) i get =
     (if po_nodeid po = in_nodeid i \<and> po_owner po = in_owner i then is_conflict_loop pos i get
      else if \<not> ranges_overlap (po_start po) (po_end po) (in_start i) (in_end i)
        then is_conflict_loop pos i get
      else if in_ex i \<noteq> 0 \<or> po_ex po \<noteq> 0 then
        (True, if get then i\<lparr>in_ex := po_ex po, in_pid := po_pid po, in_start := po_start po,
                            in_end := po_end po\<rparr> else i)
      else is_conflict_loop pos i get)"

definition is_conflict :: "resource \<Rightarrow> dlm_plock_info \<Rightarrow> bool \<Rightarrow> bool \<times> dlm_plock_info" where
  "is_conflict r i get = is_conflict_loop (r_locks r) i get"

definition add_lock ::
  "mem \<Rightarrow> posix_lock list \<Rightarrow> nodeid \<Rightarrow> u64 \<Rightarrow> u32 \<Rightarrow> int \<Rightarrow> u64 \<Rightarrow> u64 \<Rightarrow> mem \<times> posix_lock list \<times> int"
where
  "add_lock m locks nodeid owner pid ex start en =
     (case malloc m of
        (None, m') \<Rightarrow> (m', locks, - ENOMEM)
      | (Some _, m') \<Rightarrow>
          (m', locks @ [\<lparr>po_pid = pid, po_owner = owner, po_start = start, po_end = en,
                         po_ex = ex, po_nodeid = nodeid, po_flags = 0\<rparr>], 0))"

text \<open>The existing lock \<open>po\<close> stands between \<open>pre\<close> and \<open>rest\<close> in \<^verbatim>\<open>r->locks\<close>.\<close>

definition lock_case1 ::
  "mem \<Rightarrow> posix_lock list \<Rightarrow> posix_lock \<Rightarrow> posix_lock list \<Rightarrow> dlm_plock_info
     \<Rightarrow> mem \<times> posix_lock list \<times> int"
where
  "lock_case1 m pre po rest i =
     (case shrink_range2 (po_start po) (po_end po) (in_start i) (in_end i) of
        (start2, end2, rv) \<Rightarrow>
          if rv \<noteq> 0 then (m, pre @ po # rest, rv)
          else add_lock m
                 (pre @ po\<lparr>po_start := in_start i, po_end := in_end i, po_ex := in_ex i\<rparr> # rest)
                 (in_nodeid i) (in_owner i) (in_pid i) (lnot (in_ex i)) start2 end2)"

definition lock_case2 ::
  "mem \<Rightarrow> posix_lock list \<Rightarrow> posix_lock \<Rightarrow> posix_lock list \<Rightarrow> dlm_plock_info
     \<Rightarrow> mem \<times> posix_lock list \<times> int"
where
  "lock_case2 m pre po rest i =
     (case add_lock m (pre @ po # rest) (in_nodeid i) (in_owner i) (in_pid i) (lnot (in_ex i))
             (po_start po) (in_start i - 1) of
        (m1, locks1, rv1) \<Rightarrow>
          if rv1 \<noteq> 0 then (m1, locks1, rv1)
          else
            (case add_lock m1 locks1 (in_nodeid i) (in_owner i) (in_pid i) (lnot (in_ex i))
                    (in_end i + 1) (po_end po) of
               (m2, locks2, rv2) \<Rightarrow>
                 if rv2 \<noteq> 0 then (m2, locks2, rv2)
                 else (m2, locks2[length pre :=
                         po\<lparr>po_start := in_start i, po_end := in_end i, po_ex := in_ex i\<rparr>], 0)))"

fun lock_internal_loop ::
  "mem \<Rightarrow> dlm_plock_info \<Rightarrow> posix_lock list \<Rightarrow> posix_lock list \<Rightarrow> mem \<times> posix_lock list \<times> int"
where
  "lock_internal_loop m i pre [] =
     add_lock m pre (in_nodeid i) (in_owner i) (in_pid i) (in_ex i) (in_start i) (in_end i)"
| "lock_internal_loop m i pre (po # rest) =
     (if po_nodeid po \<noteq> in_nodeid i \<or> po_owner po \<noteq> in_owner i
        then lock_internal_loop m i (pre @ [po]) rest
      else if \<not> ranges_overlap (po_start po) (po_end po) (in_start i) (in_end i)
        then lock_internal_loop m i (pre @ [po]) rest
      else
        (let t = overlap_type (in_start i) (in_end i) (po_start po) (po_end po) in
         if t = 0 then
           (if po_ex po = in_ex i then (m, pre @ po # rest, 0)
            else (m, pre @ po\<lparr>po_ex := in_ex i\<rparr> # rest, 0))
         else if t = 1 then
           (if po_ex po = in_ex i then (m, pre @ po # rest, 0) else lock_case1 m pre po rest i)
         else if t = 2 then
           (if po_ex po = in_ex i then (m, pre @ po # rest, 0) else lock_case2 m pre po rest i)
         else if t = 3 then lock_internal_loop m i pre rest
         else if t = 4 then
           (if po_start po < in_start i
              then lock_internal_loop m i (pre @ [po\<lparr>po_end := in_start i - 1\<rparr>]) rest
              else lock_internal_loop m i (pre @ [po\<lparr>po_start := in_end i + 1\<rparr>]) rest)
         else (m, pre @ po # rest, -1)))"

definition lock_internal :: "mem \<Rightarrow> resource \<Rightarrow> dlm_plock_info \<Rightarrow> mem \<times> resource \<times> int" where
  "lock_internal m r i =
     (case lock_internal_loop m i [] (r_locks r) of
        (m', locks, rv) \<Rightarrow> (m', r\<lparr>r_locks := locks\<rparr>, rv))"

text \<open>\<^verbatim>\<open>rv\<close> keeps the result of the latest \<^verbatim>\<open>shrink_range\<close> while the walk continues.\<close>

fun unlock_internal_loop ::
  "mem \<Rightarrow> dlm_plock_info \<Rightarrow> int \<Rightarrow> posix_lock list \<Rightarrow> posix_lock list \<Rightarrow> mem \<times> posix_lock list \<times> int"
where
  "unlock_internal_loop m i rv pre [] = (m, pre, rv)"
| "unlock_internal_loop m i rv pre (po # rest) =
     (if po_nodeid po \<noteq> in_nodeid i \<or> po_owner po \<noteq> in_owner i
        then unlock_internal_loop m i rv (pre @ [po]) rest
      else if \<not> ranges_overlap (po_start po) (po_end po) (in_start i) (in_end i)
        then unlock_internal_loop m i rv (pre @ [po]) rest
      else
        (let t = overlap_type (in_start i) (in_end i) (po_start po) (po_end po) in
         if t = 0 then (m, pre @ rest, rv)
         else if t = 1 then
           (case shrink_range2 (po_start po) (po_end po) (in_start i) (in_end i) of
              (s, e, rv') \<Rightarrow> (m, pre @ po\<lparr>po_start := s, po_end := e\<rparr> # rest, rv'))
         else if t = 2 then
           (case add_lock m (pre @ po # rest) (in_nodeid i) (in_owner i) (in_pid i) (po_ex po)
                   (in_end i + 1) (po_end po) of
              (m', locks, rv') \<Rightarrow> (m', locks[length pre := po\<lparr>po_end := in_start i - 1\<rparr>], rv'))
         else if t = 3 then unlock_internal_loop m i rv pre rest
         else if t = 4 then
           (case shrink_range2 (po_start po) (po_end po) (in_start i) (in_end i) of
              (s, e, rv') \<Rightarrow>
                unlock_internal_loop m i rv' (pre @ [po\<lparr>po_start := s, po_end := e\<rparr>]) rest)
         else (m, pre @ po # rest, -1)))"

definition unlock_internal :: "mem \<Rightarrow> resource \<Rightarrow> dlm_plock_info \<Rightarrow> mem \<times> resource \<times> int" where
  "unlock_internal m r i =
     (case unlock_internal_loop m i 0 [] (r_locks r) of
        (m', locks, rv) \<Rightarrow> (m', r\<lparr>r_locks := locks\<rparr>, rv))"

end
