(* ===== verification/Plock_Refine.thy ===== *)
theory Plock_Refine
  imports Plock_Lock
begin

text \<open>
  What granting and releasing a byte range means.  The abstract view of \<^verbatim>\<open>r->locks\<close> is the set of
  cells (node, owner, offset, mode) it covers; the list is well-formed when every range is
  non-empty, every mode is read or write, and the ranges of one owner are disjoint.  The lemmas show that
  \<^verbatim>\<open>lock_internal\<close> is the assignment and \<^verbatim>\<open>unlock_internal\<close> the removal of one range for one owner
  in that view, and that \<^verbatim>\<open>is_conflict\<close> decides whether another owner blocks the request.  The
  locale \<open>lock_table\<close> is the interface the handlers use.
\<close>

subsection \<open>Abstract view\<close>

text \<open>A cell is an offset held by an owner (a node and the owner value it sent) in a mode.\<close>

type_synonym cell = "nodeid \<times> u64 \<times> u64 \<times> int"

definition cells :: "nodeid \<Rightarrow> u64 \<Rightarrow> u64 set \<Rightarrow> int \<Rightarrow> cell set" where
  "cells n w X e = (\<lambda>x. (n, w, x, e)) ` X"

definition po_cover :: "posix_lock \<Rightarrow> cell set" where
  "po_cover po = cells (po_nodeid po) (po_owner po) {po_start po..po_end po} (po_ex po)"

definition cover :: "posix_lock list \<Rightarrow> cell set" where
  "cover pos = (\<Union>po\<in>set pos. po_cover po)"

definition in_cells :: "dlm_plock_info \<Rightarrow> cell set" where
  "in_cells i = {(n, w, x, e). n = in_nodeid i \<and> w = in_owner i \<and> x \<in> {in_start i..in_end i}}"

text \<open>The specification: one owner's mode on a range is replaced, or removed.\<close>

definition spec_unlock :: "dlm_plock_info \<Rightarrow> cell set \<Rightarrow> cell set" where
  "spec_unlock i c = c - in_cells i"

definition spec_lock :: "dlm_plock_info \<Rightarrow> cell set \<Rightarrow> cell set" where
  "spec_lock i c =
     (c - in_cells i) \<union> cells (in_nodeid i) (in_owner i) {in_start i..in_end i} (in_ex i)"

definition po_valid :: "posix_lock \<Rightarrow> bool" where
  "po_valid po = (po_start po \<le> po_end po \<and> po_ex po \<in> {0, 1})"

definition po_disj :: "posix_lock \<Rightarrow> posix_lock \<Rightarrow> bool" where
  "po_disj a b = (po_nodeid a = po_nodeid b \<and> po_owner a = po_owner b \<longrightarrow>
     \<not> ranges_overlap (po_start a) (po_end a) (po_start b) (po_end b))"

definition locks_wf :: "posix_lock list \<Rightarrow> bool" where
  "locks_wf pos = ((\<forall>po\<in>set pos. po_valid po) \<and> sorted_wrt po_disj pos)"

definition info_wf :: "dlm_plock_info \<Rightarrow> bool" where
  "info_wf i = (in_start i \<le> in_end i \<and> in_ex i \<in> {0, 1})"

definition clear_of :: "dlm_plock_info \<Rightarrow> posix_lock \<Rightarrow> bool" where
  "clear_of i po = (po_nodeid po = in_nodeid i \<and> po_owner po = in_owner i \<longrightarrow>
     \<not> ranges_overlap (po_start po) (po_end po) (in_start i) (in_end i))"

subsection \<open>Algebra of the abstract view\<close>

lemma cells_Un: "cells n w (X \<union> Y) e = cells n w X e \<union> cells n w Y e"
  by (simp add: cells_def image_Un)

lemma cells_minus_in:
  "n = in_nodeid i \<Longrightarrow> w = in_owner i \<Longrightarrow>
   cells n w X e - in_cells i = cells n w (X - {in_start i..in_end i}) e"
  by (auto simp: cells_def in_cells_def)

lemma cells_eq_empty [simp]: "cells n w {} e = {}"
  by (simp add: cells_def)

lemma cover_Nil [simp]: "cover [] = {}"
  by (simp add: cover_def)

lemma cover_Cons [simp]: "cover (po # pos) = po_cover po \<union> cover pos"
  by (simp add: cover_def)

lemma cover_append [simp]: "cover (xs @ ys) = cover xs \<union> cover ys"
  by (simp add: cover_def)

lemma clear_of_cells: "po_valid po \<Longrightarrow> info_wf i \<Longrightarrow> clear_of i po \<Longrightarrow> po_cover po \<inter> in_cells i = {}"
  by (auto simp: clear_of_def po_cover_def cells_def in_cells_def po_valid_def info_wf_def
      ranges_overlap_def split: if_splits)

lemma cover_clear:
  assumes "\<forall>po\<in>set pos. po_valid po" "info_wf i" "\<forall>po\<in>set pos. clear_of i po"
  shows "cover pos - in_cells i = cover pos"
  using assms clear_of_cells unfolding cover_def by blast

lemma po_disj_sym: "po_disj a b \<Longrightarrow> po_disj b a"
  by (auto simp: po_disj_def ranges_overlap_commute)

lemma locks_wf_middle:
  "locks_wf (pre @ po # rest) \<longleftrightarrow>
     locks_wf (pre @ rest) \<and> po_valid po \<and> (\<forall>q\<in>set pre \<union> set rest. po_disj po q)"
  by (auto simp: locks_wf_def sorted_wrt_append dest: po_disj_sym)

lemma locks_wf_snoc:
  "locks_wf (pos @ [po]) \<longleftrightarrow> locks_wf pos \<and> po_valid po \<and> (\<forall>q\<in>set pos. po_disj po q)"
  using locks_wf_middle [of pos po "[]"] by simp

lemma po_disj_subrange:
  assumes "po_disj po q" "po_valid po'" "po_valid q"
    and "po_nodeid po' = po_nodeid po" "po_owner po' = po_owner po"
    and "po_start po \<le> po_start po'" "po_end po' \<le> po_end po"
  shows "po_disj po' q"
  using assms by (auto simp: po_disj_def ranges_overlap_def po_valid_def split: if_splits)

lemma locks_wf_valid: "locks_wf pos \<Longrightarrow> po \<in> set pos \<Longrightarrow> po_valid po"
  by (simp add: locks_wf_def)

text \<open>Replacing a lock by one of the same owner inside its range keeps the list well-formed.\<close>

lemma locks_wf_shrink:
  assumes "locks_wf (pre @ po # rest)" "po_valid po'"
    and "po_nodeid po' = po_nodeid po" "po_owner po' = po_owner po"
    and "po_start po \<le> po_start po'" "po_end po' \<le> po_end po"
  shows "locks_wf (pre @ po' # rest)"
  using assms
  by (auto simp: locks_wf_middle locks_wf_valid intro: po_disj_subrange [of po])

text \<open>A request inside one lock of its owner meets no other lock of that owner.\<close>

lemma others_clear:
  assumes "locks_wf (pre @ po # rest)" "info_wf i"
    and "po_nodeid po = in_nodeid i" "po_owner po = in_owner i"
    and "po_start po \<le> in_start i" "in_end i \<le> po_end po"
  shows "\<forall>q\<in>set (pre @ rest). clear_of i q"
proof
  fix q
  assume "q \<in> set (pre @ rest)"
  with assms(1) have "po_disj po q" by (auto simp: locks_wf_middle)
  then show "clear_of i q"
    using assms(3-6) by (auto simp: clear_of_def po_disj_def ranges_overlap_def split: if_splits)
qed

text \<open>Requests outside every lock of their owner may be appended.\<close>

lemma locks_wf_add:
  assumes "locks_wf pos" "info_wf i" "\<forall>q\<in>set pos. clear_of i q"
    and "po_nodeid po = in_nodeid i" "po_owner po = in_owner i"
    and "po_start po = in_start i" "po_end po = in_end i" "po_ex po = in_ex i"
  shows "locks_wf (pos @ [po])"
  using assms
  by (auto simp: locks_wf_snoc po_valid_def info_wf_def clear_of_def po_disj_def
      ranges_overlap_commute)

lemma add_lock_ok:
  "add_lock m pos n w pid ex s e = (m', pos', rv) \<Longrightarrow>
   (rv = 0 \<and> pos' = pos @ [\<lparr>po_pid = pid, po_owner = w, po_start = s, po_end = e, po_ex = ex,
      po_nodeid = n, po_flags = 0\<rparr>]) \<or> (rv = - ENOMEM \<and> pos' = pos)"
  by (auto simp: add_lock_def split: prod.splits option.splits)

lemma add_lock_mem_ok:
  "mem_ok m \<Longrightarrow> add_lock m pos n w pid ex s e = (m', pos', rv) \<Longrightarrow> rv = 0 \<and> mem_ok m'"
  using malloc_mem_ok [of m] by (auto simp: add_lock_def)

lemma add_lock_total:
  "mem_ok m \<Longrightarrow> \<exists>m' pos'. add_lock m pos n w pid ex s e = (m', pos', 0) \<and> mem_ok m'"
  using malloc_mem_ok [of m] by (auto simp: add_lock_def)

lemma lnot_ex: "a \<in> {0, 1} \<Longrightarrow> b \<in> {0, 1} \<Longrightarrow> a \<noteq> b \<Longrightarrow> lnot b = a"
  by (auto simp: lnot_def)

subsection \<open>Locking is assignment of a range\<close>

definition within :: "posix_lock \<Rightarrow> posix_lock \<Rightarrow> bool" where
  "within po q = (po_valid q \<and> po_nodeid q = po_nodeid po \<and> po_owner q = po_owner po \<and>
     po_start po \<le> po_start q \<and> po_end q \<le> po_end po)"

text \<open>A lock may be split into disjoint parts, the first in place and the others at the tail.\<close>

lemma locks_wf_split:
  assumes wf: "locks_wf (pre @ po # rest)"
    and parts: "\<forall>q\<in>set (po' # fs). within po q" "sorted_wrt po_disj (po' # fs)"
  shows "locks_wf (pre @ po' # rest @ fs)"
proof -
  have out: "po_disj q r" "po_disj r q" if "q \<in> set (po' # fs)" "r \<in> set pre \<union> set rest" for q r
  proof -
    have "po_disj po r" using wf that(2) by (auto simp: locks_wf_middle)
    moreover have "po_valid r" using wf that(2) by (auto simp: locks_wf_def)
    ultimately show "po_disj q r" using parts(1) that(1) by (auto simp: within_def intro: po_disj_subrange)
    then show "po_disj r q" by (rule po_disj_sym)
  qed
  have "locks_wf (pre @ rest)" using wf by (simp add: locks_wf_middle)
  then show ?thesis
    using parts out by (auto simp: locks_wf_def sorted_wrt_append within_def)
qed

text \<open>The request lies inside the lock \<open>po\<close> of its owner, in the other mode.\<close>

lemma lock_inside:
  assumes wf: "locks_wf (pre @ po # rest)" and i: "info_wf i"
    and key: "po_nodeid po = in_nodeid i" "po_owner po = in_owner i"
    and sub: "po_start po \<le> in_start i" "in_end i \<le> po_end po"
    and fcov: "cover fs = cells (in_nodeid i) (in_owner i)
                 ({po_start po..po_end po} - {in_start i..in_end i}) (po_ex po)"
  shows "cover (pre @ po\<lparr>po_start := in_start i, po_end := in_end i, po_ex := in_ex i\<rparr> # rest @ fs)
           = spec_lock i (cover (pre @ po # rest))"
proof -
  have "\<forall>q\<in>set (pre @ rest). clear_of i q" by (rule others_clear [OF wf i key sub])
  moreover have "\<forall>q\<in>set (pre @ rest). po_valid q" using wf by (auto simp: locks_wf_def)
  ultimately have "cover (pre @ rest) - in_cells i = cover (pre @ rest)"
    by (intro cover_clear i)
  moreover have "po_cover po - in_cells i = cover fs"
    by (simp add: po_cover_def cells_minus_in key fcov)
  ultimately show ?thesis
    by (auto simp: spec_lock_def po_cover_def key)
qed

text \<open>The request lies inside a lock of its owner that already has its mode.\<close>

lemma lock_same_mode:
  assumes wf: "locks_wf (pre @ po # rest)" and i: "info_wf i"
    and key: "po_nodeid po = in_nodeid i" "po_owner po = in_owner i"
    and sub: "po_start po \<le> in_start i" "in_end i \<le> po_end po"
    and ex: "po_ex po = in_ex i"
  shows "cover (pre @ po # rest) = spec_lock i (cover (pre @ po # rest))"
proof -
  have "\<forall>q\<in>set (pre @ rest). clear_of i q" by (rule others_clear [OF wf i key sub])
  moreover have "\<forall>q\<in>set (pre @ rest). po_valid q" using wf by (auto simp: locks_wf_def)
  ultimately have c: "cover (pre @ rest) - in_cells i = cover (pre @ rest)"
    by (intro cover_clear i)
  have "{po_start po..po_end po} = ({po_start po..po_end po} - {in_start i..in_end i}) \<union> {in_start i..in_end i}"
    using sub by auto
  then have "po_cover po = (po_cover po - in_cells i) \<union>
      cells (in_nodeid i) (in_owner i) {in_start i..in_end i} (in_ex i)"
    by (simp add: po_cover_def cells_minus_in key ex flip: cells_Un)
  with c show ?thesis by (auto simp: spec_lock_def)
qed

lemma lock_case1_ok:
  assumes wf: "locks_wf (pre @ po # rest)" and i: "info_wf i"
    and key: "po_nodeid po = in_nodeid i" "po_owner po = in_owner i"
    and ov: "ranges_overlap (po_start po) (po_end po) (in_start i) (in_end i)"
    and t: "overlap_type (in_start i) (in_end i) (po_start po) (po_end po) = 1"
    and ex: "po_ex po \<noteq> in_ex i"
    and run: "lock_case1 m pre po rest i = (m', pos, 0)"
  shows "locks_wf pos \<and> cover pos = spec_lock i (cover (pre @ po # rest))"
proof -
  let ?S = "{po_start po..po_end po} - {in_start i..in_end i}"
  let ?po = "po\<lparr>po_start := in_start i, po_end := in_end i, po_ex := in_ex i\<rparr>"
  have v: "po_valid po" using wf by (simp add: locks_wf_middle)
  have t': "(in_start i = po_start po \<and> in_end i < po_end po) \<or>
      (po_start po < in_start i \<and> in_end i = po_end po)"
    by (rule overlap_type_eq_1D [OF t])
  have sub: "po_start po \<le> in_start i" "in_end i \<le> po_end po" using t' by auto
  obtain s e where se: "shrink_range2 (po_start po) (po_end po) (in_start i) (in_end i) = (s, e, 0)"
      "s \<le> e" "{s..e} = ?S"
    using shrink_range2_cuts [of "in_start i" "in_end i" "po_start po" "po_end po"] v i ov t
    by (auto simp: po_valid_def info_wf_def)
  have lex: "lnot (in_ex i) = po_ex po"
    using v i ex by (auto simp: po_valid_def info_wf_def lnot_def)
  define f where "f = \<lparr>po_pid = in_pid i, po_owner = in_owner i, po_start = s, po_end = e,
      po_ex = po_ex po, po_nodeid = in_nodeid i, po_flags = 0\<rparr>"
  have pos: "pos = pre @ ?po # rest @ [f]"
    using run by (auto simp: lock_case1_def se(1) lex f_def dest: add_lock_ok)
  have "po_start po \<le> s \<and> e \<le> po_end po"
    using se(2,3) by (metis DiffD1 atLeastAtMost_iff order_refl)
  then have w: "within po ?po" "within po f"
    using v i sub se(2) key by (auto simp: within_def po_valid_def info_wf_def f_def)
  have "\<not> ranges_overlap (in_start i) (in_end i) s e"
    using se(2,3) i by (auto simp: ranges_overlap_iff info_wf_def)
  then have "sorted_wrt po_disj [?po, f]" by (simp add: po_disj_def f_def)
  then have "locks_wf pos" using locks_wf_split [OF wf, of ?po "[f]"] w pos by simp
  moreover have "cover [f] = cells (in_nodeid i) (in_owner i) ?S (po_ex po)"
    by (simp add: f_def po_cover_def se(3))
  then have "cover pos = spec_lock i (cover (pre @ po # rest))"
    unfolding pos by (rule lock_inside [OF wf i key sub])
  ultimately show ?thesis by simp
qed

lemma lock_case2_ok:
  assumes wf: "locks_wf (pre @ po # rest)" and i: "info_wf i"
    and key: "po_nodeid po = in_nodeid i" "po_owner po = in_owner i"
    and t: "overlap_type (in_start i) (in_end i) (po_start po) (po_end po) = 2"
    and ex: "po_ex po \<noteq> in_ex i"
    and run: "lock_case2 m pre po rest i = (m', pos, 0)"
  shows "locks_wf pos \<and> cover pos = spec_lock i (cover (pre @ po # rest))"
proof -
  let ?S = "{po_start po..po_end po} - {in_start i..in_end i}"
  let ?po = "po\<lparr>po_start := in_start i, po_end := in_end i, po_ex := in_ex i\<rparr>"
  have v: "po_valid po" using wf by (simp add: locks_wf_middle)
  have i': "in_start i \<le> in_end i" using i by (simp add: info_wf_def)
  have t': "po_start po < in_start i" "in_end i < po_end po" using overlap_type_eq_2D [OF t] by auto
  note cut = cut_middle [OF t' i']
  have lex: "lnot (in_ex i) = po_ex po"
    using v i ex by (auto simp: po_valid_def info_wf_def lnot_def)
  define frag where "frag s e = \<lparr>po_pid = in_pid i, po_owner = in_owner i, po_start = s, po_end = e,
      po_ex = po_ex po, po_nodeid = in_nodeid i, po_flags = 0\<rparr>" for s e
  let ?f = "frag (po_start po) (in_start i - 1)" and ?b = "frag (in_end i + 1) (po_end po)"
  have pos: "pos = pre @ ?po # rest @ [?f, ?b]"
    using run
    by (auto simp: lock_case2_def lex frag_def list_update_append
        dest!: add_lock_ok split: prod.splits if_splits)
  have b1: "in_start i - 1 < in_start i" using le_minus_one_iff [OF t'(1), of "in_start i - 1"] by simp
  have b2: "in_end i < in_end i + 1" using plus_one_le_iff [OF t'(2), of "in_end i + 1"] by simp
  have w: "within po ?po" "within po ?f" "within po ?b"
    using v i t' cut(1,2) b1 b2 key
    by (auto simp: within_def po_valid_def info_wf_def frag_def)
  have "\<not> ranges_overlap (in_start i) (in_end i) (po_start po) (in_start i - 1)"
    "\<not> ranges_overlap (in_start i) (in_end i) (in_end i + 1) (po_end po)"
    "\<not> ranges_overlap (po_start po) (in_start i - 1) (in_end i + 1) (po_end po)"
    using b1 b2 i' by (auto simp: ranges_overlap_def)
  then have "sorted_wrt po_disj [?po, ?f, ?b]" by (simp add: po_disj_def frag_def)
  then have "locks_wf pos" using locks_wf_split [OF wf, of ?po "[?f, ?b]"] w pos by simp
  moreover have "cover [?f, ?b] = cells (in_nodeid i) (in_owner i) ?S (po_ex po)"
    by (simp add: frag_def po_cover_def flip: cut(4) cells_Un)
  then have "cover pos = spec_lock i (cover (pre @ po # rest))"
    unfolding pos using t' by (intro lock_inside [OF wf i key]) auto
  ultimately show ?thesis by simp
qed

text \<open>A lock the request covers or cuts no longer holds any of its cells, and keeps its other cells.\<close>

lemma po_cover_covered:
  assumes "po_nodeid po = in_nodeid i" "po_owner po = in_owner i"
    and "in_start i \<le> po_start po" "po_end po \<le> in_end i"
  shows "po_cover po \<subseteq> in_cells i"
  using assms by (auto simp: po_cover_def cells_def in_cells_def)

lemma cut_ok:
  assumes wf: "locks_wf (pre @ po # rest)" and i: "info_wf i"
    and key: "po_nodeid po = in_nodeid i" "po_owner po = in_owner i"
    and cut: "{s..e} = {po_start po..po_end po} - {in_start i..in_end i}" "s \<le> e"
    and po': "po' = po\<lparr>po_start := s, po_end := e\<rparr>"
  shows "locks_wf (pre @ po' # rest)" "clear_of i po'" "po_cover po' = po_cover po - in_cells i"
proof -
  have v: "po_valid po" using wf by (simp add: locks_wf_middle)
  have sub: "po_start po \<le> s" "e \<le> po_end po"
    using cut by (metis DiffD1 atLeastAtMost_iff order_refl)+
  show "locks_wf (pre @ po' # rest)"
    by (rule locks_wf_shrink [OF wf]) (use v sub cut(2) in \<open>auto simp: po' po_valid_def\<close>)
  have "{s..e} \<inter> {in_start i..in_end i} = {}" using cut(1) by blast
  then show "clear_of i po'"
    using cut(2) i by (auto simp: clear_of_def po' ranges_overlap_iff info_wf_def)
  show "po_cover po' = po_cover po - in_cells i"
    by (simp add: po' po_cover_def cells_minus_in key cut(1))
qed

text \<open>The walk, one equation per way the visited lock can lie to the request.\<close>

abbreviation hit_type :: "dlm_plock_info \<Rightarrow> posix_lock \<Rightarrow> int" where
  "hit_type i po \<equiv> overlap_type (in_start i) (in_end i) (po_start po) (po_end po)"

lemma clear_of_iff:
  "clear_of i po \<longleftrightarrow> po_nodeid po \<noteq> in_nodeid i \<or> po_owner po \<noteq> in_owner i \<or>
     \<not> ranges_overlap (po_start po) (po_end po) (in_start i) (in_end i)"
  by (auto simp: clear_of_def)

lemma lock_loop_skip:
  "clear_of i po \<Longrightarrow> lock_internal_loop m i pre (po # rest) = lock_internal_loop m i (pre @ [po]) rest"
  by (auto simp: clear_of_iff)

lemma lock_loop_equal:
  "\<not> clear_of i po \<Longrightarrow> hit_type i po = 0 \<Longrightarrow>
   lock_internal_loop m i pre (po # rest) = (m, pre @ po\<lparr>po_ex := in_ex i\<rparr> # rest, 0)"
  by (simp add: clear_of_iff)

lemma lock_loop_edge:
  "\<not> clear_of i po \<Longrightarrow> hit_type i po = 1 \<Longrightarrow>
   lock_internal_loop m i pre (po # rest) =
     (if po_ex po = in_ex i then (m, pre @ po # rest, 0) else lock_case1 m pre po rest i)"
  by (simp add: clear_of_iff)

lemma lock_loop_inner:
  "\<not> clear_of i po \<Longrightarrow> hit_type i po = 2 \<Longrightarrow>
   lock_internal_loop m i pre (po # rest) =
     (if po_ex po = in_ex i then (m, pre @ po # rest, 0) else lock_case2 m pre po rest i)"
  by (simp add: clear_of_iff)

lemma lock_loop_covered:
  "\<not> clear_of i po \<Longrightarrow> hit_type i po = 3 \<Longrightarrow>
   lock_internal_loop m i pre (po # rest) = lock_internal_loop m i pre rest"
  by (simp add: clear_of_iff)

definition trim :: "dlm_plock_info \<Rightarrow> posix_lock \<Rightarrow> posix_lock" where
  "trim i po = (if po_start po < in_start i then po\<lparr>po_end := in_start i - 1\<rparr>
     else po\<lparr>po_start := in_end i + 1\<rparr>)"

lemma lock_loop_cross:
  "\<not> clear_of i po \<Longrightarrow> hit_type i po = 4 \<Longrightarrow>
   lock_internal_loop m i pre (po # rest) = lock_internal_loop m i (pre @ [trim i po]) rest"
  by (simp add: clear_of_iff trim_def)

declare lock_internal_loop.simps(2) [simp del]

lemma trim_shrink:
  "shrink_range2 (po_start po) (po_end po) (in_start i) (in_end i) = (s, e, 0) \<Longrightarrow>
   trim i po = po\<lparr>po_start := s, po_end := e\<rparr>"
  by (auto simp: trim_def shrink_range2_def split: if_splits)

lemma trim_ok:
  assumes wf: "locks_wf (pre @ po # rest)" and i: "info_wf i"
    and hit: "\<not> clear_of i po" "hit_type i po \<in> {1, 4}"
  shows "locks_wf (pre @ trim i po # rest)" "clear_of i (trim i po)"
    "po_cover (trim i po) = po_cover po - in_cells i"
proof -
  have v: "in_start i \<le> in_end i" "po_start po \<le> po_end po"
    using wf i by (simp_all add: locks_wf_middle po_valid_def info_wf_def)
  have key: "po_nodeid po = in_nodeid i" "po_owner po = in_owner i"
    and ov: "ranges_overlap (po_start po) (po_end po) (in_start i) (in_end i)"
    using hit(1) by (auto simp: clear_of_iff)
  obtain s e where sh: "shrink_range2 (po_start po) (po_end po) (in_start i) (in_end i) = (s, e, 0)"
    and cut: "s \<le> e" "{s..e} = {po_start po..po_end po} - {in_start i..in_end i}"
    using shrink_range2_cuts [OF v ov] hit(2) by auto
  note c = cut_ok [OF wf i key cut(2,1) trim_shrink [OF sh]]
  show "locks_wf (pre @ trim i po # rest)" "clear_of i (trim i po)"
    "po_cover (trim i po) = po_cover po - in_cells i"
    by (fact c)+
qed

lemma lock_loop_inside_ok:
  assumes wf: "locks_wf (pre @ po # rest)" and i: "info_wf i" and hit: "\<not> clear_of i po"
    and t: "hit_type i po \<in> {0, 1, 2}"
    and run: "lock_internal_loop m i pre (po # rest) = (m', pos, 0)"
  shows "locks_wf pos \<and> cover pos = spec_lock i (cover (pre @ po # rest))"
proof -
  have key: "po_nodeid po = in_nodeid i" "po_owner po = in_owner i"
    and ov: "ranges_overlap (po_start po) (po_end po) (in_start i) (in_end i)"
    using hit by (auto simp: clear_of_iff)
  have sub: "po_start po \<le> in_start i" "in_end i \<le> po_end po"
    using overlap_type_inside [OF t] by simp_all
  note same = lock_same_mode [OF wf i key sub]
  consider "hit_type i po = 0" | "hit_type i po = 1" | "hit_type i po = 2" using t by blast
  then show ?thesis
  proof cases
    case 1
    let ?po = "po\<lparr>po_start := in_start i, po_end := in_end i, po_ex := in_ex i\<rparr>"
    have eq: "in_start i = po_start po" "in_end i = po_end po"
      using overlap_type_eq_0D [OF 1] by simp_all
    have "pos = pre @ ?po # rest @ []" using run lock_loop_equal [OF hit 1] by (simp add: eq)
    moreover have "locks_wf (pre @ ?po # rest)"
      by (rule locks_wf_shrink [OF wf]) (use i in \<open>auto simp: po_valid_def info_wf_def eq\<close>)
    moreover have "cover (pre @ ?po # rest @ []) = spec_lock i (cover (pre @ po # rest))"
      by (rule lock_inside [OF wf i key]) (simp_all add: eq)
    ultimately show ?thesis by simp
  next
    case 2
    then show ?thesis
      using run lock_loop_edge [OF hit 2] same wf lock_case1_ok [OF wf i key ov 2]
      by (cases "po_ex po = in_ex i") auto
  next
    case 3
    then show ?thesis
      using run lock_loop_inner [OF hit 3] same wf lock_case2_ok [OF wf i key 3]
      by (cases "po_ex po = in_ex i") auto
  qed
qed

lemma lock_internal_loop_ok:
  assumes "locks_wf (pre @ rest)" "\<forall>q\<in>set pre. clear_of i q" "info_wf i"
    and "lock_internal_loop m i pre rest = (m', pos, 0)"
  shows "locks_wf pos \<and> cover pos = spec_lock i (cover (pre @ rest))"
  using assms
proof (induction rest arbitrary: pre)
  case Nil
  have pos: "pos = pre @ [\<lparr>po_pid = in_pid i, po_owner = in_owner i, po_start = in_start i,
      po_end = in_end i, po_ex = in_ex i, po_nodeid = in_nodeid i, po_flags = 0\<rparr>]"
    using Nil.prems(4) by (auto dest: add_lock_ok)
  have "locks_wf pos" unfolding pos using Nil.prems by (intro locks_wf_add) auto
  moreover have "cover pre - in_cells i = cover pre"
    using Nil.prems by (intro cover_clear) (auto simp: locks_wf_def)
  ultimately show ?case by (auto simp: pos spec_lock_def po_cover_def)
next
  case (Cons po rest)
  note wf = Cons.prems(1) and i = Cons.prems(3)
  consider (skip) "clear_of i po" | (inside) "\<not> clear_of i po" "hit_type i po \<in> {0, 1, 2}"
    | (covered) "\<not> clear_of i po" "hit_type i po = 3" | (cross) "\<not> clear_of i po" "hit_type i po = 4"
    using overlap_type_total by blast
  then show ?case
  proof cases
    case skip
    with Cons.IH [of "pre @ [po]"] Cons.prems show ?thesis by (simp add: lock_loop_skip)
  next
    case inside
    then show ?thesis using Cons.prems(4) by (rule lock_loop_inside_ok [OF wf i])
  next
    case covered
    then have "po_cover po \<subseteq> in_cells i"
      using overlap_type_eq_3D [OF covered(2)] po_cover_covered [of po i] by (auto simp: clear_of_iff)
    then have "spec_lock i (cover (pre @ po # rest)) = spec_lock i (cover (pre @ rest))"
      by (auto simp: spec_lock_def)
    moreover have "locks_wf (pre @ rest)" using wf by (simp add: locks_wf_middle)
    ultimately show ?thesis using Cons.IH [of pre] Cons.prems lock_loop_covered [OF covered] by simp
  next
    case cross
    have t: "hit_type i po \<in> {1, 4}" using cross(2) by simp
    note c = trim_ok [OF wf i cross(1) t]
    have "locks_wf pos \<and> cover pos = spec_lock i (cover ((pre @ [trim i po]) @ rest))"
      by (rule Cons.IH) (use c Cons.prems lock_loop_cross [OF cross] in simp_all)
    then show ?thesis using c(3) by (auto simp: spec_lock_def)
  qed
qed

text \<open>With memory available the walk always succeeds.\<close>

lemma lock_case1_total:
  assumes "mem_ok m" "info_wf i" "po_valid po" "\<not> clear_of i po" "hit_type i po = 1"
  shows "\<exists>m' pos. lock_case1 m pre po rest i = (m', pos, 0) \<and> mem_ok m'"
proof -
  obtain s e where "shrink_range2 (po_start po) (po_end po) (in_start i) (in_end i) = (s, e, 0)"
    using shrink_range2_cuts [of "in_start i" "in_end i" "po_start po" "po_end po"] assms
    by (auto simp: info_wf_def po_valid_def clear_of_iff)
  then show ?thesis
    using add_lock_total [OF assms(1)] by (simp add: lock_case1_def)
qed

lemma lock_case2_total:
  assumes "mem_ok m"
  shows "\<exists>m' pos. lock_case2 m pre po rest i = (m', pos, 0) \<and> mem_ok m'"
proof -
  obtain m1 pos1 where 1: "add_lock m (pre @ po # rest) (in_nodeid i) (in_owner i) (in_pid i)
      (lnot (in_ex i)) (po_start po) (in_start i - 1) = (m1, pos1, 0)" "mem_ok m1"
    using add_lock_total [OF assms] by blast
  obtain m2 pos2 where "add_lock m1 pos1 (in_nodeid i) (in_owner i) (in_pid i)
      (lnot (in_ex i)) (in_end i + 1) (po_end po) = (m2, pos2, 0)" "mem_ok m2"
    using add_lock_total [OF 1(2)] by blast
  with 1 show ?thesis by (simp add: lock_case2_def)
qed

lemma lock_internal_loop_total:
  assumes "mem_ok m" "info_wf i" "\<forall>po\<in>set rest. po_valid po"
  shows "\<exists>m' pos. lock_internal_loop m i pre rest = (m', pos, 0) \<and> mem_ok m'"
  using assms(3)
proof (induction rest arbitrary: pre)
  case Nil
  show ?case using add_lock_total [OF assms(1)] by simp
next
  case (Cons po rest)
  have IH: "\<exists>m' pos. lock_internal_loop m i pre rest = (m', pos, 0) \<and> mem_ok m'" for pre
    using Cons by simp
  consider "clear_of i po" | "\<not> clear_of i po" "hit_type i po = 0" | "\<not> clear_of i po" "hit_type i po = 1"
    | "\<not> clear_of i po" "hit_type i po = 2" | "\<not> clear_of i po" "hit_type i po = 3"
    | "\<not> clear_of i po" "hit_type i po = 4"
    using overlap_type_total by blast
  then show ?case
  proof cases
    case 1
    with IH show ?thesis by (simp add: lock_loop_skip)
  next
    case 2
    with assms(1) show ?thesis by (simp add: lock_loop_equal)
  next
    case 3
    with assms(1) Cons.prems lock_case1_total [OF assms(1,2), of po] show ?thesis
      by (simp add: lock_loop_edge)
  next
    case 4
    with assms(1) lock_case2_total [OF assms(1)] show ?thesis by (simp add: lock_loop_inner)
  next
    case 5
    with IH show ?thesis by (simp add: lock_loop_covered)
  next
    case 6
    with IH show ?thesis by (simp add: lock_loop_cross)
  qed
qed

subsection \<open>Unlocking is removal of a range\<close>

lemma unlock_loop_skip:
  "clear_of i po \<Longrightarrow>
   unlock_internal_loop m i rv pre (po # rest) = unlock_internal_loop m i rv (pre @ [po]) rest"
  by (auto simp: clear_of_iff)

lemma unlock_loop_equal:
  "\<not> clear_of i po \<Longrightarrow> hit_type i po = 0 \<Longrightarrow>
   unlock_internal_loop m i rv pre (po # rest) = (m, pre @ rest, rv)"
  by (simp add: clear_of_iff)

lemma unlock_loop_edge:
  assumes "\<not> clear_of i po" "hit_type i po = 1" "info_wf i" "po_valid po"
  shows "unlock_internal_loop m i rv pre (po # rest) = (m, pre @ trim i po # rest, 0)"
proof -
  obtain s e where "shrink_range2 (po_start po) (po_end po) (in_start i) (in_end i) = (s, e, 0)"
    using shrink_range2_cuts [of "in_start i" "in_end i" "po_start po" "po_end po"] assms
    by (auto simp: info_wf_def po_valid_def clear_of_iff)
  with assms(1,2) show ?thesis by (simp add: clear_of_iff trim_shrink)
qed

lemma unlock_loop_inner:
  "\<not> clear_of i po \<Longrightarrow> hit_type i po = 2 \<Longrightarrow>
   unlock_internal_loop m i rv pre (po # rest) =
     (case add_lock m (pre @ po # rest) (in_nodeid i) (in_owner i) (in_pid i) (po_ex po)
             (in_end i + 1) (po_end po) of
        (m', locks, rv') \<Rightarrow> (m', locks[length pre := po\<lparr>po_end := in_start i - 1\<rparr>], rv'))"
  by (simp add: clear_of_iff)

lemma unlock_loop_covered:
  "\<not> clear_of i po \<Longrightarrow> hit_type i po = 3 \<Longrightarrow>
   unlock_internal_loop m i rv pre (po # rest) = unlock_internal_loop m i rv pre rest"
  by (simp add: clear_of_iff)

lemma unlock_loop_cross:
  assumes "\<not> clear_of i po" "hit_type i po = 4" "info_wf i" "po_valid po"
  shows "unlock_internal_loop m i rv pre (po # rest) =
           unlock_internal_loop m i 0 (pre @ [trim i po]) rest"
proof -
  obtain s e where "shrink_range2 (po_start po) (po_end po) (in_start i) (in_end i) = (s, e, 0)"
    using shrink_range2_cuts [of "in_start i" "in_end i" "po_start po" "po_end po"] assms
    by (auto simp: info_wf_def po_valid_def clear_of_iff)
  with assms(1,2) show ?thesis by (simp add: clear_of_iff trim_shrink)
qed

declare unlock_internal_loop.simps(2) [simp del]

lemma unlock_inner_ok:
  assumes wf: "locks_wf (pre @ po # rest)" and i: "info_wf i" and hit: "\<not> clear_of i po"
    and t: "hit_type i po = 2"
    and run: "unlock_internal_loop m i rv pre (po # rest) = (m', pos, 0)"
  shows "locks_wf pos \<and> cover pos = spec_unlock i (cover (pre @ po # rest))"
proof -
  let ?S = "{po_start po..po_end po} - {in_start i..in_end i}"
  have key: "po_nodeid po = in_nodeid i" "po_owner po = in_owner i"
    using hit by (auto simp: clear_of_iff)
  have v: "po_valid po" using wf by (simp add: locks_wf_middle)
  have i': "in_start i \<le> in_end i" using i by (simp add: info_wf_def)
  have t': "po_start po < in_start i" "in_end i < po_end po" using overlap_type_eq_2D [OF t] by auto
  note cut = cut_middle [OF t' i']
  define f where "f = po\<lparr>po_end := in_start i - 1\<rparr>"
  define b where "b = \<lparr>po_pid = in_pid i, po_owner = in_owner i, po_start = in_end i + 1,
      po_end = po_end po, po_ex = po_ex po, po_nodeid = in_nodeid i, po_flags = 0\<rparr>"
  have pos: "pos = pre @ f # rest @ [b]"
    using run unlock_loop_inner [OF hit t]
    by (auto simp: f_def b_def list_update_append dest!: add_lock_ok split: prod.splits)
  have b1: "in_start i - 1 < in_start i" using le_minus_one_iff [OF t'(1), of "in_start i - 1"] by simp
  have b2: "in_end i < in_end i + 1" using plus_one_le_iff [OF t'(2), of "in_end i + 1"] by simp
  have "within po f" "within po b"
    using v i' t' cut(1,2) b1 b2 key by (auto simp: within_def po_valid_def f_def b_def)
  moreover have "sorted_wrt po_disj [f, b]"
    using b1 b2 i' by (auto simp: po_disj_def f_def b_def ranges_overlap_def)
  ultimately have "locks_wf pos" using locks_wf_split [OF wf, of f "[b]"] pos by simp
  moreover have "\<forall>q\<in>set (pre @ rest). clear_of i q"
    using t' by (intro others_clear [OF wf i key]) auto
  then have "cover (pre @ rest) - in_cells i = cover (pre @ rest)"
    using wf by (intro cover_clear i) (auto simp: locks_wf_def)
  moreover have "po_cover f \<union> po_cover b = po_cover po - in_cells i"
    by (simp add: f_def b_def po_cover_def cells_minus_in key flip: cut(4) cells_Un)
  ultimately show ?thesis by (auto simp: pos spec_unlock_def)
qed

lemma unlock_internal_loop_ok:
  assumes "locks_wf (pre @ rest)" "\<forall>q\<in>set pre. clear_of i q" "info_wf i"
    and "unlock_internal_loop m i rv pre rest = (m', pos, 0)"
  shows "locks_wf pos \<and> cover pos = spec_unlock i (cover (pre @ rest))"
  using assms
proof (induction rest arbitrary: pre rv)
  case Nil
  moreover have "cover pre - in_cells i = cover pre"
    using Nil.prems by (intro cover_clear) (auto simp: locks_wf_def)
  ultimately show ?case by (auto simp: spec_unlock_def)
next
  case (Cons po rest)
  note wf = Cons.prems(1) and i = Cons.prems(3)
  have v: "po_valid po" using wf by (simp add: locks_wf_middle)
  have wf': "locks_wf (pre @ rest)" using wf by (simp add: locks_wf_middle)
  have clr: "cover (pre @ rest) - in_cells i = cover (pre @ rest)"
    if "\<not> clear_of i po" "hit_type i po \<in> {0, 1, 2}"
    using that wf overlap_type_inside [OF that(2)]
    by (intro cover_clear i others_clear) (auto simp: locks_wf_def clear_of_iff)
  consider (skip) "clear_of i po" | (equal) "\<not> clear_of i po" "hit_type i po = 0"
    | (edge) "\<not> clear_of i po" "hit_type i po = 1" | (inner) "\<not> clear_of i po" "hit_type i po = 2"
    | (covered) "\<not> clear_of i po" "hit_type i po = 3" | (cross) "\<not> clear_of i po" "hit_type i po = 4"
    using overlap_type_total by blast
  then show ?case
  proof cases
    case skip
    with Cons.IH [of "pre @ [po]"] Cons.prems show ?thesis by (simp add: unlock_loop_skip)
  next
    case equal
    then have "po_cover po \<subseteq> in_cells i"
      using overlap_type_eq_0D [OF equal(2)] po_cover_covered [of po i] by (auto simp: clear_of_iff)
    then show ?thesis
      using Cons.prems(4) unlock_loop_equal [OF equal] wf' clr [OF equal(1)] equal(2)
      by (auto simp: spec_unlock_def)
  next
    case edge
    have t: "hit_type i po \<in> {1, 4}" using edge(2) by simp
    note c = trim_ok [OF wf i edge(1) t]
    show ?thesis
      using Cons.prems(4) unlock_loop_edge [OF edge i v] c clr [OF edge(1)] edge(2)
      by (auto simp: spec_unlock_def)
  next
    case inner
    then show ?thesis using Cons.prems(4) by (rule unlock_inner_ok [OF wf i])
  next
    case covered
    then have "po_cover po \<subseteq> in_cells i"
      using overlap_type_eq_3D [OF covered(2)] po_cover_covered [of po i] by (auto simp: clear_of_iff)
    then show ?thesis
      using Cons.IH [of pre rv] Cons.prems wf' unlock_loop_covered [OF covered]
      by (auto simp: spec_unlock_def)
  next
    case cross
    have t: "hit_type i po \<in> {1, 4}" using cross(2) by simp
    note c = trim_ok [OF wf i cross(1) t]
    have "locks_wf pos \<and> cover pos = spec_unlock i (cover ((pre @ [trim i po]) @ rest))"
      by (rule Cons.IH [of _ 0]) (use c cross Cons.prems unlock_loop_cross [OF cross i v] in simp_all)
    then show ?thesis using c(3) cross by (auto simp: spec_unlock_def)
  qed
qed

lemma unlock_internal_loop_total:
  assumes "mem_ok m" "info_wf i" "\<forall>po\<in>set rest. po_valid po" "rv = 0"
  shows "\<exists>m' pos. unlock_internal_loop m i rv pre rest = (m', pos, 0) \<and> mem_ok m'"
  using assms(3,4)
proof (induction rest arbitrary: pre rv)
  case Nil
  then show ?case using assms(1) by simp
next
  case (Cons po rest)
  have IH: "\<exists>m' pos. unlock_internal_loop m i 0 pre rest = (m', pos, 0) \<and> mem_ok m'" for pre
    using Cons by simp
  have v: "po_valid po" using Cons.prems by simp
  consider "clear_of i po" | "\<not> clear_of i po" "hit_type i po = 0" | "\<not> clear_of i po" "hit_type i po = 1"
    | "\<not> clear_of i po" "hit_type i po = 2" | "\<not> clear_of i po" "hit_type i po = 3"
    | "\<not> clear_of i po" "hit_type i po = 4"
    using overlap_type_total by blast
  then show ?case
  proof cases
    case 1
    with IH Cons.prems show ?thesis by (simp add: unlock_loop_skip)
  next
    case 2
    with assms(1) Cons.prems show ?thesis by (simp add: unlock_loop_equal)
  next
    case 3
    with assms(1) unlock_loop_edge [OF 3 assms(2) v] show ?thesis by simp
  next
    case 4
    obtain m' pos where "add_lock m (pre @ po # rest) (in_nodeid i) (in_owner i) (in_pid i) (po_ex po)
        (in_end i + 1) (po_end po) = (m', pos, 0)" "mem_ok m'"
      using add_lock_total [OF assms(1)] by blast
    with 4 show ?thesis by (simp add: unlock_loop_inner)
  next
    case 5
    with IH Cons.prems show ?thesis by (simp add: unlock_loop_covered)
  next
    case 6
    with IH unlock_loop_cross [OF 6 assms(2) v] show ?thesis by simp
  qed
qed

subsection \<open>Conflicts\<close>

text \<open>Another owner holds an offset of the request, and one of the two modes is write.\<close>

definition blocked :: "dlm_plock_info \<Rightarrow> cell set \<Rightarrow> bool" where
  "blocked i c = (\<exists>n w x e. (n, w, x, e) \<in> c \<and> (n, w) \<noteq> (in_nodeid i, in_owner i) \<and>
     x \<in> {in_start i..in_end i} \<and> (in_ex i \<noteq> 0 \<or> e \<noteq> 0))"

text \<open>No offset is write-locked by one owner and locked by another.\<close>

definition exclusive :: "cell set \<Rightarrow> bool" where
  "exclusive c = (\<forall>n w x e n' w' e'. (n, w, x, e) \<in> c \<longrightarrow> (n', w', x, e') \<in> c \<longrightarrow>
     (n, w) \<noteq> (n', w') \<longrightarrow> e = 0 \<and> e' = 0)"

definition po_blocks :: "dlm_plock_info \<Rightarrow> posix_lock \<Rightarrow> bool" where
  "po_blocks i po = (\<not> (po_nodeid po = in_nodeid i \<and> po_owner po = in_owner i) \<and>
     ranges_overlap (po_start po) (po_end po) (in_start i) (in_end i) \<and>
     (in_ex i \<noteq> 0 \<or> po_ex po \<noteq> 0))"

lemma is_conflict_loop_find:
  "is_conflict_loop pos i get = (case find (po_blocks i) pos of
     None \<Rightarrow> (False, i)
   | Some po \<Rightarrow> (True, if get then i\<lparr>in_ex := po_ex po, in_pid := po_pid po,
       in_start := po_start po, in_end := po_end po\<rparr> else i))"
  by (induction pos) (auto simp: po_blocks_def)

lemma po_blocks_cover:
  assumes "po_valid po" "info_wf i"
  shows "po_blocks i po \<longleftrightarrow> blocked i (po_cover po)"
proof -
  have "ranges_overlap (po_start po) (po_end po) (in_start i) (in_end i) \<longleftrightarrow>
      {po_start po..po_end po} \<inter> {in_start i..in_end i} \<noteq> {}"
    using assms by (intro ranges_overlap_iff) (auto simp: po_valid_def info_wf_def)
  then show ?thesis
    unfolding po_blocks_def blocked_def po_cover_def cells_def by blast
qed

lemma blocked_cover: "blocked i (cover pos) \<longleftrightarrow> (\<exists>po\<in>set pos. blocked i (po_cover po))"
  unfolding blocked_def cover_def by blast

lemma is_conflict_blocked:
  assumes "locks_wf (r_locks r)" "info_wf i"
  shows "fst (is_conflict r i get) \<longleftrightarrow> blocked i (cover (r_locks r))"
  using assms po_blocks_cover
  by (auto simp: is_conflict_def is_conflict_loop_find blocked_cover locks_wf_def find_None_iff
      find_Some_iff split: option.splits)

lemma is_conflict_no_get: "snd (is_conflict r i False) = i"
  by (auto simp: is_conflict_def is_conflict_loop_find split: option.splits)

lemma cells_subset_in: "cells (in_nodeid i) (in_owner i) {in_start i..in_end i} e \<subseteq> in_cells i"
  by (auto simp: cells_def in_cells_def)

lemma spec_unlock_lock [simp]: "spec_unlock i (spec_lock i c) = spec_unlock i c"
  using cells_subset_in by (fastforce simp: spec_lock_def spec_unlock_def)

lemma spec_lock_lock [simp]: "spec_lock i (spec_lock i c) = spec_lock i c"
  using cells_subset_in by (fastforce simp: spec_lock_def)

lemma spec_lock_iff:
  "(n, w, x, e) \<in> spec_lock i c \<longleftrightarrow>
   (if n = in_nodeid i \<and> w = in_owner i \<and> x \<in> {in_start i..in_end i} then e = in_ex i
    else (n, w, x, e) \<in> c)"
  by (auto simp: spec_lock_def cells_def in_cells_def)

lemma spec_unlock_iff:
  "(n, w, x, e) \<in> spec_unlock i c \<longleftrightarrow>
   (n, w, x, e) \<in> c \<and> \<not> (n = in_nodeid i \<and> w = in_owner i \<and> x \<in> {in_start i..in_end i})"
  by (auto simp: spec_unlock_def in_cells_def)

lemma exclusive_spec_lock: "exclusive c \<Longrightarrow> \<not> blocked i c \<Longrightarrow> exclusive (spec_lock i c)"
  unfolding exclusive_def blocked_def spec_lock_def by (fastforce simp: cells_def in_cells_def)

subsection \<open>The interface of a table of byte-range locks\<close>

locale lock_table =
  fixes inv :: "'t \<Rightarrow> bool"
    and view :: "'t \<Rightarrow> cell set"
    and conflict :: "'t \<Rightarrow> dlm_plock_info \<Rightarrow> bool"
    and lock :: "mem \<Rightarrow> 't \<Rightarrow> dlm_plock_info \<Rightarrow> mem \<times> 't \<times> int"
    and unlock :: "mem \<Rightarrow> 't \<Rightarrow> dlm_plock_info \<Rightarrow> mem \<times> 't \<times> int"
  assumes conflict_view: "inv t \<Longrightarrow> info_wf i \<Longrightarrow> conflict t i \<longleftrightarrow> blocked i (view t)"
    and lock_inv: "inv t \<Longrightarrow> info_wf i \<Longrightarrow> lock m t i = (m', t', 0) \<Longrightarrow> inv t'"
    and lock_view: "inv t \<Longrightarrow> info_wf i \<Longrightarrow> lock m t i = (m', t', 0) \<Longrightarrow> view t' = spec_lock i (view t)"
    and unlock_inv: "inv t \<Longrightarrow> info_wf i \<Longrightarrow> unlock m t i = (m', t', 0) \<Longrightarrow> inv t'"
    and unlock_view: "inv t \<Longrightarrow> info_wf i \<Longrightarrow> unlock m t i = (m', t', 0) \<Longrightarrow>
      view t' = spec_unlock i (view t)"
    and lock_total: "inv t \<Longrightarrow> info_wf i \<Longrightarrow> mem_ok m \<Longrightarrow>
      \<exists>m' t'. lock m t i = (m', t', 0) \<and> mem_ok m'"
    and unlock_total: "inv t \<Longrightarrow> info_wf i \<Longrightarrow> mem_ok m \<Longrightarrow>
      \<exists>m' t'. unlock m t i = (m', t', 0) \<and> mem_ok m'"
begin

text \<open>Granting an unblocked request keeps different owners apart.\<close>

lemma lock_keeps_exclusive:
  assumes "inv t" "info_wf i" "exclusive (view t)" "\<not> conflict t i" "lock m t i = (m', t', 0)"
  shows "inv t'" "exclusive (view t')"
proof -
  show "inv t'" by (rule lock_inv [OF assms(1,2,5)])
  have "\<not> blocked i (view t)" using assms(1,2,4) by (simp add: conflict_view)
  then show "exclusive (view t')"
    unfolding lock_view [OF assms(1,2,5)] by (rule exclusive_spec_lock [OF assms(3)])
qed

lemma unlock_keeps_exclusive:
  assumes "inv t" "info_wf i" "exclusive (view t)" "unlock m t i = (m', t', 0)"
  shows "inv t'" "exclusive (view t')"
  using assms(3) unlock_inv [OF assms(1,2,4)] unlock_view [OF assms(1,2,4)]
  by (auto simp: exclusive_def spec_unlock_def)

text \<open>Releasing a range undoes a grant of it, and a second grant of a range adds nothing.\<close>

lemma unlock_after_lock:
  assumes "inv t" "info_wf i" "lock m t i = (m1, t1, 0)" "unlock m1 t1 i = (m2, t2, 0)"
  shows "view t2 = spec_unlock i (view t)"
  using lock_view [OF assms(1,2,3)] unlock_view [OF lock_inv [OF assms(1,2,3)] assms(2,4)] by simp

lemma lock_twice:
  assumes "inv t" "info_wf i" "lock m t i = (m1, t1, 0)" "lock m1 t1 i = (m2, t2, 0)"
  shows "view t2 = view t1"
  using lock_view [OF assms(1,2,3)] lock_view [OF lock_inv [OF assms(1,2,3)] assms(2,4)] by simp

text \<open>Right after a grant every offset of the range is held in the requested mode by the requester.\<close>

lemma lock_holds:
  assumes "inv t" "info_wf i" "lock m t i = (m', t', 0)" "x \<in> {in_start i..in_end i}"
  shows "(in_nodeid i, in_owner i, x, e) \<in> view t' \<longleftrightarrow> e = in_ex i"
  using assms(4) unfolding lock_view [OF assms(1,2,3)] spec_lock_iff by auto

text \<open>A grant or release does not disturb other owners or other offsets.\<close>

lemma lock_frame:
  assumes "inv t" "info_wf i" "lock m t i = (m', t', 0)"
    and "(n, w) \<noteq> (in_nodeid i, in_owner i) \<or> x \<notin> {in_start i..in_end i}"
  shows "(n, w, x, e) \<in> view t' \<longleftrightarrow> (n, w, x, e) \<in> view t"
  using assms(4) unfolding lock_view [OF assms(1,2,3)] spec_lock_iff by auto

end

lemma lock_internal_split:
  "lock_internal m r i = (m', r', rv) \<longleftrightarrow>
   lock_internal_loop m i [] (r_locks r) = (m', r_locks r', rv) \<and> r' = r\<lparr>r_locks := r_locks r'\<rparr>"
  by (auto simp: lock_internal_def split: prod.splits)

lemma unlock_internal_split:
  "unlock_internal m r i = (m', r', rv) \<longleftrightarrow>
   unlock_internal_loop m i 0 [] (r_locks r) = (m', r_locks r', rv) \<and> r' = r\<lparr>r_locks := r_locks r'\<rparr>"
  by (auto simp: unlock_internal_def split: prod.splits)

interpretation plock: lock_table
  "\<lambda>r. locks_wf (r_locks r)" "\<lambda>r. cover (r_locks r)" "\<lambda>r i. fst (is_conflict r i False)"
  lock_internal unlock_internal
proof unfold_locales
  fix r r' :: resource and i m m'
  assume wf: "locks_wf (r_locks r)" "info_wf i"
  show "fst (is_conflict r i False) = blocked i (cover (r_locks r))"
    by (rule is_conflict_blocked [OF wf])
  show "locks_wf (r_locks r')" "cover (r_locks r') = spec_lock i (cover (r_locks r))"
    if "lock_internal m r i = (m', r', 0)"
    using that wf lock_internal_loop_ok [of "[]" "r_locks r" i m m' "r_locks r'"]
    by (auto simp: lock_internal_split)
  show "locks_wf (r_locks r')" "cover (r_locks r') = spec_unlock i (cover (r_locks r))"
    if "unlock_internal m r i = (m', r', 0)"
    using that wf unlock_internal_loop_ok [of "[]" "r_locks r" i m 0 m' "r_locks r'"]
    by (auto simp: unlock_internal_split)
  assume m: "mem_ok m"
  have "\<forall>po\<in>set (r_locks r). po_valid po" using wf by (simp add: locks_wf_def)
  then show "\<exists>m' t'. lock_internal m r i = (m', t', 0) \<and> mem_ok m'"
    "\<exists>m' t'. unlock_internal m r i = (m', t', 0) \<and> mem_ok m'"
    using lock_internal_loop_total [OF m wf(2), of "r_locks r" "[]"]
      unlock_internal_loop_total [OF m wf(2), of "r_locks r" 0 "[]"]
    by (auto simp: lock_internal_def unlock_internal_def)
qed

subsection \<open>Properties\<close>

text \<open>
  C13.  Granting: on a well-formed resource and with memory available, \<^verbatim>\<open>lock_internal\<close> returns 0 and,
  whatever the overlap with the requester's existing ranges (equal, inside, covering, crossing,
  several of them), the locks afterwards cover exactly what they covered before, except that the
  requester holds the whole requested range in the requested mode.  The list stays well-formed and the
  queues of the resource are untouched.
\<close>

theorem lock_internal_assigns_range:
  assumes "locks_wf (r_locks r)" "info_wf i" "mem_ok m"
  shows "\<exists>m' r'. lock_internal m r i = (m', r', 0) \<and> locks_wf (r_locks r') \<and>
           cover (r_locks r') = spec_lock i (cover (r_locks r)) \<and>
           r' = r\<lparr>r_locks := r_locks r'\<rparr>"
proof -
  obtain m' r' where run: "lock_internal m r i = (m', r', 0)"
    using plock.lock_total [OF assms] by blast
  then show ?thesis
    using plock.lock_inv [OF assms(1,2) run] plock.lock_view [OF assms(1,2) run]
    by (auto simp: lock_internal_split)
qed

definition ex_info :: "plock_op \<Rightarrow> nodeid \<Rightarrow> u64 \<Rightarrow> int \<Rightarrow> u64 \<Rightarrow> u64 \<Rightarrow> dlm_plock_info" where
  "ex_info op n w ex s e = info_zero\<lparr>in_optype := op, in_nodeid := n, in_owner := w, in_pid := 5,
     in_number := 11, in_ex := ex, in_start := s, in_end := e\<rparr>"

definition ex_po :: "nodeid \<Rightarrow> u64 \<Rightarrow> int \<Rightarrow> u64 \<Rightarrow> u64 \<Rightarrow> posix_lock" where
  "ex_po n w ex s e = \<lparr>po_pid = 5, po_owner = w, po_start = s, po_end = e, po_ex = ex,
     po_nodeid = n, po_flags = 0\<rparr>"

definition ex_res :: "posix_lock list \<Rightarrow> resource" where
  "ex_res pos = \<lparr>r_number = 11, r_owner = 0, r_flags = 0, r_last_access = \<lparr>tv_sec = 0, tv_usec = 0\<rparr>,
     r_locks = pos, r_waiters = [], r_pending = []\<rparr>"

lemmas ex_defs = ex_info_def ex_po_def ex_res_def info_zero_def

lemmas lock_eval = lock_internal_def lock_internal_loop.simps lock_case1_def lock_case2_def
  add_lock_def ranges_overlap_def overlap_type_def shrink_range2_def lnot_def
  unlock_internal_def unlock_internal_loop.simps is_conflict_def is_conflict_loop.simps

lemmas wf_eval = locks_wf_def info_wf_def po_valid_def po_disj_def ranges_overlap_def

theorem lock_internal_assigns_range_witness:
  "lock_internal [] (ex_res [ex_po 2 7 1 0 99]) (ex_info DLM_PLOCK_OP_LOCK 2 7 0 10 19) =
     ([], ex_res [ex_po 2 7 0 10 19, ex_po 2 7 1 0 9, ex_po 2 7 1 20 99], 0) \<and>
   cover [ex_po 2 7 0 10 19, ex_po 2 7 1 0 9, ex_po 2 7 1 20 99] =
     spec_lock (ex_info DLM_PLOCK_OP_LOCK 2 7 0 10 19) (cover [ex_po 2 7 1 0 99])"
proof -
  have h: "locks_wf (r_locks (ex_res [ex_po 2 7 1 0 99]))"
    "info_wf (ex_info DLM_PLOCK_OP_LOCK 2 7 0 10 19)" "mem_ok []"
    by (simp_all add: ex_defs wf_eval)
  have run: "lock_internal [] (ex_res [ex_po 2 7 1 0 99]) (ex_info DLM_PLOCK_OP_LOCK 2 7 0 10 19) =
     ([], ex_res [ex_po 2 7 0 10 19, ex_po 2 7 1 0 9, ex_po 2 7 1 20 99], 0)"
    by (simp add: ex_defs lock_eval)
  show ?thesis
    using lock_internal_assigns_range [OF h] by (simp add: run) (simp add: ex_res_def)
qed

text \<open>
  C14.  Releasing: on a well-formed resource and with memory available, \<^verbatim>\<open>unlock_internal\<close> returns 0
  and removes exactly the requester's cells in the range, splitting or shrinking the locks that
  reach beyond it; everything else is kept.
\<close>

theorem unlock_internal_removes_range:
  assumes "locks_wf (r_locks r)" "info_wf i" "mem_ok m"
  shows "\<exists>m' r'. unlock_internal m r i = (m', r', 0) \<and> locks_wf (r_locks r') \<and>
           cover (r_locks r') = spec_unlock i (cover (r_locks r)) \<and>
           r' = r\<lparr>r_locks := r_locks r'\<rparr>"
proof -
  obtain m' r' where run: "unlock_internal m r i = (m', r', 0)"
    using plock.unlock_total [OF assms] by blast
  then show ?thesis
    using plock.unlock_inv [OF assms(1,2) run] plock.unlock_view [OF assms(1,2) run]
    by (auto simp: unlock_internal_split)
qed

theorem unlock_internal_removes_range_witness:
  "unlock_internal [] (ex_res [ex_po 2 7 1 0 9, ex_po 3 7 0 20 29, ex_po 2 7 0 10 19])
     (ex_info DLM_PLOCK_OP_UNLOCK 2 7 0 5 12) =
     ([], ex_res [ex_po 2 7 1 0 4, ex_po 3 7 0 20 29, ex_po 2 7 0 13 19], 0) \<and>
   cover [ex_po 2 7 1 0 4, ex_po 3 7 0 20 29, ex_po 2 7 0 13 19] =
     spec_unlock (ex_info DLM_PLOCK_OP_UNLOCK 2 7 0 5 12)
       (cover [ex_po 2 7 1 0 9, ex_po 3 7 0 20 29, ex_po 2 7 0 10 19])"
proof -
  let ?r = "ex_res [ex_po 2 7 1 0 9, ex_po 3 7 0 20 29, ex_po 2 7 0 10 19]"
  let ?i = "ex_info DLM_PLOCK_OP_UNLOCK 2 7 0 5 12"
  have h: "locks_wf (r_locks ?r)" "info_wf ?i" "mem_ok []" by (simp_all add: ex_defs wf_eval)
  have run: "unlock_internal [] ?r ?i =
     ([], ex_res [ex_po 2 7 1 0 4, ex_po 3 7 0 20 29, ex_po 2 7 0 13 19], 0)"
    by (simp add: ex_defs lock_eval)
  show ?thesis
    using unlock_internal_removes_range [OF h] by (simp add: run) (simp add: ex_res_def)
qed

text \<open>
  C15.  \<^verbatim>\<open>is_conflict\<close> is exact: on a well-formed resource it reports a conflict if and only if some
  offset of the request is held by a different owner with one of the two modes being write.  For
  a \<^verbatim>\<open>GETLK\<close> it then returns mode, pid and range of such a lock; otherwise the request is unchanged.
\<close>

theorem is_conflict_exact:
  assumes "locks_wf (r_locks r)" "info_wf i"
  shows "(fst (is_conflict r i get) \<longleftrightarrow> blocked i (cover (r_locks r))) \<and>
    (get \<and> fst (is_conflict r i get) \<longrightarrow>
       (\<exists>po\<in>set (r_locks r). blocked i (po_cover po) \<and>
          snd (is_conflict r i get) = i\<lparr>in_ex := po_ex po, in_pid := po_pid po,
            in_start := po_start po, in_end := po_end po\<rparr>)) \<and>
    (\<not> get \<or> \<not> fst (is_conflict r i get) \<longrightarrow> snd (is_conflict r i get) = i)"
proof -
  have "\<exists>po\<in>set (r_locks r). blocked i (po_cover po) \<and>
      snd (is_conflict r i True) = i\<lparr>in_ex := po_ex po, in_pid := po_pid po,
        in_start := po_start po, in_end := po_end po\<rparr>" if c: "fst (is_conflict r i True)"
  proof -
    obtain po where po: "find (po_blocks i) (r_locks r) = Some po"
      using c by (auto simp: is_conflict_def is_conflict_loop_find split: option.splits)
    then have "po \<in> set (r_locks r)" "po_blocks i po" by (auto simp: find_Some_iff)
    then have "blocked i (po_cover po)"
      using assms po_blocks_cover by (simp add: locks_wf_def)
    with \<open>po \<in> set (r_locks r)\<close> po show ?thesis
      by (auto simp: is_conflict_def is_conflict_loop_find)
  qed
  moreover have "\<not> get \<or> \<not> fst (is_conflict r i get) \<longrightarrow> snd (is_conflict r i get) = i"
    by (auto simp: is_conflict_def is_conflict_loop_find split: option.splits)
  ultimately show ?thesis
    using is_conflict_blocked [OF assms] by (cases get) auto
qed

theorem is_conflict_exact_witness:
  "fst (is_conflict (ex_res [ex_po 2 7 0 0 9, ex_po 3 7 1 20 29])
          (ex_info DLM_PLOCK_OP_GET 2 8 0 5 25) True) \<and>
   blocked (ex_info DLM_PLOCK_OP_GET 2 8 0 5 25) (cover [ex_po 2 7 0 0 9, ex_po 3 7 1 20 29])"
proof -
  let ?r = "ex_res [ex_po 2 7 0 0 9, ex_po 3 7 1 20 29]"
  let ?i = "ex_info DLM_PLOCK_OP_GET 2 8 0 5 25"
  have h: "locks_wf (r_locks ?r)" "info_wf ?i" by (simp_all add: ex_defs wf_eval)
  have c: "fst (is_conflict ?r ?i True)" by (simp add: ex_defs lock_eval)
  show ?thesis using c is_conflict_exact [OF h, of True] by (simp add: ex_res_def)
qed

end
