(* ===== verification/Plock_Resource.thy ===== *)
theory Plock_Resource
  imports Dlm_State Plock_Refine
begin

text \<open>
  The resource table of a lockspace and the three operations on a resource (\<^verbatim>\<open>plock.c\<close>:
  \<^verbatim>\<open>search_resource\<close>, \<^verbatim>\<open>find_resource\<close>, \<^verbatim>\<open>put_resource\<close>, \<^verbatim>\<open>add_waiter\<close>, \<^verbatim>\<open>write_result\<close>, \<^verbatim>\<open>do_waiters\<close>,
  \<^verbatim>\<open>do_lock\<close>, \<^verbatim>\<open>do_unlock\<close>, \<^verbatim>\<open>do_get\<close>).  A \<^verbatim>\<open>struct resource *\<close> is the value of the resource; a handler
  that has changed it stores it back into the table with \<open>set_resource\<close>, which replaces the
  resource \<open>search_resource\<close> finds.
\<close>

subsection \<open>The table\<close>

definition search_resource :: "lockspace \<Rightarrow> u64 \<Rightarrow> resource option" where
  "search_resource ls number = find (\<lambda>r. r_number r = number) (ls_plock_resources ls)"

fun set_res :: "resource \<Rightarrow> resource list \<Rightarrow> resource list" where
  "set_res r [] = []"
| "set_res r (x # xs) = (if r_number x = r_number r then r # xs else x # set_res r xs)"

fun del_res :: "u64 \<Rightarrow> resource list \<Rightarrow> resource list" where
  "del_res n [] = []"
| "del_res n (x # xs) = (if r_number x = n then xs else x # del_res n xs)"

definition set_resource :: "lockspace \<Rightarrow> resource \<Rightarrow> lockspace" where
  "set_resource ls r = ls\<lparr>ls_plock_resources := set_res r (ls_plock_resources ls)\<rparr>"

definition del_resource :: "lockspace \<Rightarrow> resource \<Rightarrow> lockspace" where
  "del_resource ls r = ls\<lparr>ls_plock_resources := del_res (r_number r) (ls_plock_resources ls)\<rparr>"

definition got_unown :: "resource \<Rightarrow> bool" where
  "got_unown r = (and (r_flags r) R_GOT_UNOWN \<noteq> 0)"

definition find_resource ::
  "daemon \<Rightarrow> lockspace \<Rightarrow> u64 \<Rightarrow> bool \<Rightarrow> daemon \<times> lockspace \<times> resource option \<times> int"
where
  "find_resource d ls number create = (case search_resource ls number of
       Some r \<Rightarrow>
         (let r = r\<lparr>r_last_access := now d\<rparr> in (d, set_resource ls r, Some r, 0))
     | None \<Rightarrow>
         if \<not> create then (d, ls, None, - ENOENT)
         else (case malloc (dmem d) of
             (None, m) \<Rightarrow> (d\<lparr>dmem := m\<rparr>, ls, None, - ENOMEM)
           | (Some _, m) \<Rightarrow>
               (let r = \<lparr>r_number = number,
                         r_owner = (if cfgd_plock_ownership d then -1 else 0), r_flags = 0,
                         r_last_access = now d, r_locks = [], r_waiters = [], r_pending = []\<rparr>
                in (d\<lparr>dmem := m\<rparr>,
                    ls\<lparr>ls_plock_resources := ls_plock_resources ls @ [r]\<rparr>, Some r, 0))))"

text \<open>\<open>r\<close> is the resource as last changed by the caller, and is in the table.\<close>

definition put_resource :: "daemon \<Rightarrow> lockspace \<Rightarrow> resource \<Rightarrow> lockspace" where
  "put_resource d ls r =
     (if cfgd_plock_ownership d then ls
      else if r_locks r = [] \<and> r_waiters r = [] then del_resource ls r
      else ls)"

subsection \<open>Operations on a resource\<close>

definition add_waiter :: "mem \<Rightarrow> resource \<Rightarrow> dlm_plock_info \<Rightarrow> mem \<times> resource \<times> int" where
  "add_waiter m r i = (case malloc m of
       (None, m') \<Rightarrow> (m', r, - ENOMEM)
     | (Some g, m') \<Rightarrow>
         (m', r\<lparr>r_waiters := r_waiters r @ [\<lparr>w_flags = g, w_info = i\<rparr>]\<rparr>, 0))"

definition write_result :: "daemon \<Rightarrow> lockspace \<Rightarrow> dlm_plock_info \<Rightarrow> int \<Rightarrow> daemon" where
  "write_result d ls i rv =
     (let i = (if need_fsid_translation d then i\<lparr>in_fsid := ls_associated_mg_id ls\<rparr> else i);
          i = i\<lparr>in_rv := word_of_int rv\<rparr>
      in d\<lparr>plock_results := plock_results d @ [i]\<rparr>)"

text \<open>The walk over \<^verbatim>\<open>r->waiters\<close>; the last component is the list of waiters that stay.\<close>

fun do_waiters_loop ::
  "daemon \<Rightarrow> lockspace \<Rightarrow> resource \<Rightarrow> lock_waiter list \<Rightarrow> daemon \<times> resource \<times> lock_waiter list"
where
  "do_waiters_loop d ls r [] = (d, r, [])"
| "do_waiters_loop d ls r (w # ws) =
     (if fst (is_conflict r (w_info w) False) then
        (case do_waiters_loop d ls r ws of (d', r', kept) \<Rightarrow> (d', r', w # kept))
      else
        (case lock_internal (dmem d) r (w_info w) of (m, r1, rv) \<Rightarrow>
           let d1 = d\<lparr>dmem := m\<rparr>;
               d2 = (if in_nodeid (w_info w) = our_nodeid d1 then write_result d1 ls (w_info w) rv
                     else d1)
           in do_waiters_loop d2 ls r1 ws))"

definition do_waiters :: "daemon \<Rightarrow> lockspace \<Rightarrow> resource \<Rightarrow> daemon \<times> resource" where
  "do_waiters d ls r = (case do_waiters_loop d ls r (r_waiters r) of
     (d', r', kept) \<Rightarrow> (d', r'\<lparr>r_waiters := kept\<rparr>))"

text \<open>What \<^verbatim>\<open>do_lock\<close> and \<^verbatim>\<open>do_unlock\<close> do after the operation itself.\<close>

definition finish_op :: "daemon \<Rightarrow> lockspace \<Rightarrow> resource \<Rightarrow> daemon \<times> lockspace" where
  "finish_op d ls r = (case do_waiters d ls r of
     (d', r') \<Rightarrow> (d', put_resource d' (set_resource ls r') r'))"

text \<open>The first half of \<^verbatim>\<open>do_lock\<close>: grant, refuse or queue.\<close>

definition lock_or_queue :: "mem \<Rightarrow> resource \<Rightarrow> dlm_plock_info \<Rightarrow> mem \<times> resource \<times> int" where
  "lock_or_queue m r i =
     (if fst (is_conflict r i False) then
        (if in_wait i = 0 then (m, r, - EAGAIN)
         else (case add_waiter m r i of (m', r', rv) \<Rightarrow>
                 if rv \<noteq> 0 then (m', r', rv) else (m', r', - EINPROGRESS)))
      else lock_internal m r i)"

definition do_lock :: "daemon \<Rightarrow> lockspace \<Rightarrow> dlm_plock_info \<Rightarrow> resource \<Rightarrow> daemon \<times> lockspace" where
  "do_lock d ls i r = (case lock_or_queue (dmem d) r i of (m, r1, rv) \<Rightarrow>
     let d1 = d\<lparr>dmem := m\<rparr>;
         d2 = (if in_nodeid i = our_nodeid d1 \<and> rv \<noteq> - EINPROGRESS
               then write_result d1 ls i rv else d1)
     in finish_op d2 ls r1)"

definition do_unlock :: "daemon \<Rightarrow> lockspace \<Rightarrow> dlm_plock_info \<Rightarrow> resource \<Rightarrow> daemon \<times> lockspace" where
  "do_unlock d ls i r = (case unlock_internal (dmem d) r i of (m, r1, rv) \<Rightarrow>
     let d1 = d\<lparr>dmem := m\<rparr>;
         d2 = (if in_nodeid i = our_nodeid d1 then write_result d1 ls i rv else d1)
     in finish_op d2 ls r1)"

definition do_get :: "daemon \<Rightarrow> lockspace \<Rightarrow> dlm_plock_info \<Rightarrow> resource \<Rightarrow> daemon" where
  "do_get d ls i r = (case is_conflict r i True of (c, i') \<Rightarrow>
     write_result d ls i' (if c then 1 else 0))"

end
