(* ===== verification/Plock_Queue.thy ===== *)
theory Plock_Queue
  imports Plock_Resource
begin

text \<open>
  Correctness of the operations on one resource.  The abstract state of a resource is the set of
  cells its locks cover and the queue of blocked requests; \<open>spec_waiters\<close> is one pass over that queue.
  \<^verbatim>\<open>do_waiters\<close>, \<^verbatim>\<open>do_lock\<close> and \<^verbatim>\<open>do_unlock\<close> implement the abstract steps, keep the resource well-formed
  and different owners apart, and answer the local requests they decide.
\<close>

subsection \<open>The contract of the resource table\<close>

locale keyed_table =
  fixes look :: "'s \<Rightarrow> 'k \<Rightarrow> 'r option"
    and put :: "'s \<Rightarrow> 'r \<Rightarrow> 's"
    and del :: "'s \<Rightarrow> 'r \<Rightarrow> 's"
    and key :: "'r \<Rightarrow> 'k"
    and inv :: "'s \<Rightarrow> bool"
  assumes look_key: "look s k = Some r \<Longrightarrow> key r = k"
    and look_put: "look s (key r) \<noteq> None \<Longrightarrow> look (put s r) k = (if k = key r then Some r else look s k)"
    and look_del: "inv s \<Longrightarrow> look (del s r) k = (if k = key r then None else look s k)"
    and put_inv: "inv s \<Longrightarrow> inv (put s r)"
    and del_inv: "inv s \<Longrightarrow> inv (del s r)"
begin

definition all_rows :: "('r \<Rightarrow> bool) \<Rightarrow> 's \<Rightarrow> bool" where
  "all_rows P s = (\<forall>k r. look s k = Some r \<longrightarrow> P r)"

lemma all_rowsD: "all_rows P s \<Longrightarrow> look s k = Some r \<Longrightarrow> P r"
  by (auto simp: all_rows_def)

lemma put_all_rows: "all_rows P s \<Longrightarrow> look s (key r) \<noteq> None \<Longrightarrow> P r \<Longrightarrow> all_rows P (put s r)"
  by (auto simp: all_rows_def look_put split: if_splits)

lemma del_all_rows: "inv s \<Longrightarrow> all_rows P s \<Longrightarrow> all_rows P (del s r)"
  by (auto simp: all_rows_def look_del split: if_splits)

lemma look_put_same: "look s (key r) \<noteq> None \<Longrightarrow> look (put s r) (key r) = Some r"
  by (simp add: look_put)

lemma look_put_del:
  "inv s \<Longrightarrow> look s (key r) \<noteq> None \<Longrightarrow> look (del (put s r) r) k = (if k = key r then None else look s k)"
  by (simp add: look_del look_put put_inv)

end

lemma find_set_res:
  assumes "find (\<lambda>x. r_number x = r_number r) rs \<noteq> None"
  shows "find (\<lambda>x. r_number x = n) (set_res r rs) =
    (if n = r_number r then Some r else find (\<lambda>x. r_number x = n) rs)"
  using assms by (induction rs) (auto split: if_splits)

lemma set_res_numbers: "map r_number (set_res r rs) = map r_number rs"
  by (induction rs) auto

lemma del_res_filter:
  "distinct (map r_number rs) \<Longrightarrow> del_res n rs = filter (\<lambda>r. r_number r \<noteq> n) rs"
  by (induction rs) (auto simp: filter_id_conv image_iff intro!: filter_True [symmetric])

lemma find_filter_other:
  "find (\<lambda>r. r_number r = k) (filter (\<lambda>r. r_number r \<noteq> n) rs) =
     (if k = n then None else find (\<lambda>r. r_number r = k) rs)"
  by (induction rs) auto

definition numbers_distinct :: "lockspace \<Rightarrow> bool" where
  "numbers_distinct ls = distinct (map r_number (ls_plock_resources ls))"

interpretation restab: keyed_table search_resource set_resource del_resource r_number numbers_distinct
proof unfold_locales
  show "r_number r = k" if "search_resource s k = Some r" for s k r
    using that by (auto simp: search_resource_def find_Some_iff)
  show "search_resource (set_resource s r) k = (if k = r_number r then Some r else search_resource s k)"
    if "search_resource s (r_number r) \<noteq> None" for s r k
    using that by (simp add: search_resource_def set_resource_def find_set_res)
  show "search_resource (del_resource s r) k = (if k = r_number r then None else search_resource s k)"
    if "numbers_distinct s" for s r k
    using that by (simp add: search_resource_def del_resource_def numbers_distinct_def
        del_res_filter find_filter_other)
  show "numbers_distinct (set_resource s r)" if "numbers_distinct s" for s r
    using that by (simp add: numbers_distinct_def set_resource_def set_res_numbers)
  show "numbers_distinct (del_resource s r)" if "numbers_distinct s" for s r
    using that by (simp add: numbers_distinct_def del_resource_def del_res_filter distinct_map_filter)
qed

subsection \<open>Abstract steps\<close>

definition res_wf :: "resource \<Rightarrow> bool" where
  "res_wf r = (locks_wf (r_locks r) \<and> exclusive (cover (r_locks r)) \<and>
     (\<forall>w\<in>set (r_waiters r). info_wf (w_info w)))"

text \<open>One pass over a queue: the cells afterwards, the requests that stay and those granted.\<close>

fun spec_waiters ::
  "dlm_plock_info list \<Rightarrow> cell set \<Rightarrow> cell set \<times> dlm_plock_info list \<times> dlm_plock_info list"
where
  "spec_waiters [] c = (c, [], [])"
| "spec_waiters (i # q) c =
     (if blocked i c then (case spec_waiters q c of (c', k, g) \<Rightarrow> (c', i # k, g))
      else (case spec_waiters q (spec_lock i c) of (c', k, g) \<Rightarrow> (c', k, i # g)))"

text \<open>The answer to a request and the answers to the local ones among the granted.\<close>

definition reply :: "daemon \<Rightarrow> lockspace \<Rightarrow> int \<Rightarrow> dlm_plock_info \<Rightarrow> dlm_plock_info" where
  "reply d ls rv i = i\<lparr>in_fsid := (if need_fsid_translation d then ls_associated_mg_id ls else in_fsid i),
     in_rv := word_of_int rv\<rparr>"

definition local_replies ::
  "daemon \<Rightarrow> lockspace \<Rightarrow> int \<Rightarrow> dlm_plock_info list \<Rightarrow> dlm_plock_info list"
where
  "local_replies d ls rv g = map (reply d ls rv) (filter (\<lambda>i. in_nodeid i = our_nodeid d) g)"

lemma write_result_reply:
  "write_result d ls i rv = d\<lparr>plock_results := plock_results d @ [reply d ls rv i]\<rparr>"
  by (simp add: write_result_def reply_def Let_def)

lemma reply_env [simp]:
  "reply (d\<lparr>dmem := m\<rparr>) = reply d" "reply (d\<lparr>plock_results := x\<rparr>) = reply d"
  "local_replies (d\<lparr>dmem := m\<rparr>) = local_replies d"
  "local_replies (d\<lparr>plock_results := x\<rparr>) = local_replies d"
  by (auto simp: reply_def local_replies_def fun_eq_iff)

lemma local_replies_Nil [simp]: "local_replies d ls rv [] = []"
  by (simp add: local_replies_def)

lemma local_replies_Cons:
  "local_replies d ls rv (i # g) =
     (if in_nodeid i = our_nodeid d then [reply d ls rv i] else []) @ local_replies d ls rv g"
  by (simp add: local_replies_def)

subsection \<open>The pass over the waiters\<close>

lemma do_waiters_loop_refines:
  assumes "locks_wf (r_locks r)" "exclusive (cover (r_locks r))" "mem_ok (dmem d)"
    and "\<forall>w\<in>set ws. info_wf (w_info w)"
    and "spec_waiters (map w_info ws) (cover (r_locks r)) = (c, k, g)"
  shows "\<exists>m locks kept. do_waiters_loop d ls r ws =
      (d\<lparr>dmem := m, plock_results := plock_results d @ local_replies d ls 0 g\<rparr>,
       r\<lparr>r_locks := locks\<rparr>, kept) \<and>
    mem_ok m \<and> locks_wf locks \<and> exclusive (cover locks) \<and> cover locks = c \<and>
    map w_info kept = k \<and> set kept \<subseteq> set ws"
  using assms
proof (induction ws arbitrary: d r c k g)
  case Nil
  then show ?case
    by (intro exI [of _ "dmem d"] exI [of _ "r_locks r"] exI [of _ "[]"]) simp
next
  case (Cons w ws)
  let ?i = "w_info w"
  have wf: "info_wf ?i" "\<forall>w\<in>set ws. info_wf (w_info w)" using Cons.prems(4) by auto
  have c: "fst (is_conflict r ?i False) \<longleftrightarrow> blocked ?i (cover (r_locks r))"
    by (rule is_conflict_blocked [OF Cons.prems(1) wf(1)])
  show ?case
  proof (cases "blocked ?i (cover (r_locks r))")
    case True
    then obtain k' where "spec_waiters (map w_info ws) (cover (r_locks r)) = (c, k', g)" "k = ?i # k'"
      using Cons.prems(5) by (auto split: prod.splits)
    with Cons.IH [OF Cons.prems(1-3) wf(2)] True c show ?thesis by fastforce
  next
    case False
    then obtain g' where g': "spec_waiters (map w_info ws) (spec_lock ?i (cover (r_locks r))) = (c, k, g')"
        "g = ?i # g'"
      using Cons.prems(5) by (auto split: prod.splits)
    obtain m r' where run: "lock_internal (dmem d) r ?i = (m, r', 0)" and m: "mem_ok m"
      using plock.lock_total [OF Cons.prems(1) wf(1) Cons.prems(3)] by blast
    have r': "locks_wf (r_locks r')" "exclusive (cover (r_locks r'))"
      using plock.lock_keeps_exclusive [OF Cons.prems(1) wf(1) Cons.prems(2) _ run] False c by auto
    have v: "cover (r_locks r') = spec_lock ?i (cover (r_locks r))" "r' = r\<lparr>r_locks := r_locks r'\<rparr>"
      using plock.lock_view [OF Cons.prems(1) wf(1) run] run by (auto simp: lock_internal_split)
    define d2 where "d2 = (if in_nodeid ?i = our_nodeid d then write_result (d\<lparr>dmem := m\<rparr>) ls ?i 0
      else d\<lparr>dmem := m\<rparr>)"
    have d2: "mem_ok (dmem d2)" "d2\<lparr>dmem := x, plock_results := plock_results d2 @ local_replies d2 ls 0 g'\<rparr>
        = d\<lparr>dmem := x, plock_results := plock_results d @ local_replies d ls 0 g\<rparr>" for x
      using m g'(2) by (auto simp: d2_def write_result_reply local_replies_Cons)
    obtain m3 locks kept where "do_waiters_loop d2 ls r' ws =
        (d2\<lparr>dmem := m3, plock_results := plock_results d2 @ local_replies d2 ls 0 g'\<rparr>,
         r'\<lparr>r_locks := locks\<rparr>, kept)"
      "mem_ok m3 \<and> locks_wf locks \<and> exclusive (cover locks) \<and> cover locks = c \<and>
       map w_info kept = k \<and> set kept \<subseteq> set ws"
      using Cons.IH [OF r' d2(1) wf(2)] g'(1) v(1) by metis
    moreover have "r'\<lparr>r_locks := locks\<rparr> = r\<lparr>r_locks := locks\<rparr>" using v(2)
      by (metis resource.surjective resource.update_convs(5))
    ultimately show ?thesis
      using c False run d2 by (fastforce simp: d2_def)
  qed
qed

lemma do_waiters_refines:
  assumes "res_wf r" "mem_ok (dmem d)"
    and "spec_waiters (map w_info (r_waiters r)) (cover (r_locks r)) = (c, k, g)"
  shows "\<exists>m locks kept. do_waiters d ls r =
      (d\<lparr>dmem := m, plock_results := plock_results d @ local_replies d ls 0 g\<rparr>,
       r\<lparr>r_locks := locks, r_waiters := kept\<rparr>) \<and>
    mem_ok m \<and> res_wf (r\<lparr>r_locks := locks, r_waiters := kept\<rparr>) \<and> cover locks = c \<and> map w_info kept = k"
proof -
  obtain m locks kept where "do_waiters_loop d ls r (r_waiters r) =
      (d\<lparr>dmem := m, plock_results := plock_results d @ local_replies d ls 0 g\<rparr>,
       r\<lparr>r_locks := locks\<rparr>, kept)"
    "mem_ok m" "locks_wf locks" "exclusive (cover locks)" "cover locks = c" "map w_info kept = k"
    "set kept \<subseteq> set (r_waiters r)"
    using do_waiters_loop_refines [OF _ _ assms(2) _ assms(3), of ls] assms(1)
    unfolding res_wf_def by blast
  then show ?thesis
    using assms(1)
    by (intro exI [of _ m] exI [of _ locks] exI [of _ kept]) (auto simp: do_waiters_def res_wf_def)
qed

subsection \<open>The resource table as an abstract map\<close>

definition abs_res :: "resource option \<Rightarrow> cell set \<times> dlm_plock_info list" where
  "abs_res ro = (case ro of None \<Rightarrow> ({}, []) | Some r \<Rightarrow> (cover (r_locks r), map w_info (r_waiters r)))"

definition abs_at :: "lockspace \<Rightarrow> u64 \<Rightarrow> cell set \<times> dlm_plock_info list" where
  "abs_at ls n = abs_res (search_resource ls n)"

definition table_wf :: "lockspace \<Rightarrow> bool" where
  "table_wf ls = (numbers_distinct ls \<and> (\<forall>r\<in>set (ls_plock_resources ls). res_wf r))"

lemma search_resource_in:
  assumes "numbers_distinct ls"
  shows "search_resource ls n = Some r \<longleftrightarrow> r \<in> set (ls_plock_resources ls) \<and> r_number r = n"
proof -
  have "find (\<lambda>r. r_number r = n) rs = Some r \<longleftrightarrow> r \<in> set rs \<and> r_number r = n"
    if "distinct (map r_number rs)" for rs
    using that by (induction rs) (auto simp: image_iff)
  then show ?thesis using assms by (simp add: search_resource_def numbers_distinct_def)
qed

lemma table_wf_rows:
  "table_wf ls \<longleftrightarrow> numbers_distinct ls \<and> restab.all_rows res_wf ls"
  unfolding table_wf_def restab.all_rows_def by (auto simp: search_resource_in)

lemma table_wf_look: "table_wf ls \<Longrightarrow> search_resource ls n = Some r \<Longrightarrow> res_wf r"
  by (auto simp: table_wf_rows intro: restab.all_rowsD)

lemma table_wf_set:
  "table_wf ls \<Longrightarrow> search_resource ls (r_number r) \<noteq> None \<Longrightarrow> res_wf r \<Longrightarrow> table_wf (set_resource ls r)"
  by (simp add: table_wf_rows restab.put_all_rows restab.put_inv)

lemma table_wf_del: "table_wf ls \<Longrightarrow> table_wf (del_resource ls r)"
  by (simp add: table_wf_rows restab.del_all_rows restab.del_inv)

lemma abs_at_set:
  "search_resource ls (r_number r) \<noteq> None \<Longrightarrow>
   abs_at (set_resource ls r) n = (if n = r_number r then abs_res (Some r) else abs_at ls n)"
  by (simp add: abs_at_def restab.look_put)

lemma abs_at_put_resource:
  assumes "table_wf ls" "search_resource ls (r_number r) \<noteq> None"
  shows "abs_at (put_resource d (set_resource ls r) r) n =
      (if n = r_number r then abs_res (Some r) else abs_at ls n)"
  using assms
  by (auto simp: put_resource_def abs_at_def restab.look_put restab.look_put_del table_wf_def abs_res_def)

lemma put_resource_wf:
  "table_wf ls \<Longrightarrow> search_resource ls (r_number r) \<noteq> None \<Longrightarrow> res_wf r \<Longrightarrow>
   table_wf (put_resource d (set_resource ls r) r)"
  by (simp add: put_resource_def table_wf_set table_wf_del)

lemma put_resource_frame:
  "put_resource d (set_resource ls r) r =
     ls\<lparr>ls_plock_resources := ls_plock_resources (put_resource d (set_resource ls r) r)\<rparr>"
  by (simp add: put_resource_def set_resource_def del_resource_def)

text \<open>
  \<open>op_step\<close> is what a lock or unlock does after its own change: \<open>c\<close>, \<open>q\<close> are the abstract state the pass
  over the waiters starts from.
\<close>

definition op_step ::
  "daemon \<Rightarrow> lockspace \<Rightarrow> u64 \<Rightarrow> cell set \<Rightarrow> dlm_plock_info list \<Rightarrow> dlm_plock_info list
     \<Rightarrow> daemon \<times> lockspace \<Rightarrow> bool"
where
  "op_step d ls n c q answers res =
     (case spec_waiters q c of (c', k, g) \<Rightarrow>
      (case res of (d', ls') \<Rightarrow>
        mem_ok (dmem d') \<and>
        d' = d\<lparr>dmem := dmem d',
               plock_results := plock_results d @ answers @ local_replies d ls 0 g\<rparr> \<and>
        ls' = ls\<lparr>ls_plock_resources := ls_plock_resources ls'\<rparr> \<and> table_wf ls' \<and>
        (\<forall>n'. abs_at ls' n' = (if n' = n then (c', k) else abs_at ls n'))))"

lemma finish_op_step:
  assumes "table_wf ls" "search_resource ls (r_number r) \<noteq> None" "res_wf r" "mem_ok m"
    and "d1 = d\<lparr>dmem := m, plock_results := plock_results d @ answers\<rparr>"
  shows "op_step d ls (r_number r) (cover (r_locks r)) (map w_info (r_waiters r)) answers
           (finish_op d1 ls r)"
proof -
  obtain c k g where s: "spec_waiters (map w_info (r_waiters r)) (cover (r_locks r)) = (c, k, g)"
    by (metis prod_cases3)
  have m1: "mem_ok (dmem d1)" using assms(4,5) by simp
  obtain m2 locks kept where w: "do_waiters d1 ls r =
      (d1\<lparr>dmem := m2, plock_results := plock_results d1 @ local_replies d1 ls 0 g\<rparr>,
       r\<lparr>r_locks := locks, r_waiters := kept\<rparr>)"
    "mem_ok m2" "res_wf (r\<lparr>r_locks := locks, r_waiters := kept\<rparr>)" "cover locks = c"
    "map w_info kept = k"
    using do_waiters_refines [OF assms(3) m1 s, of ls] by blast
  let ?r = "r\<lparr>r_locks := locks, r_waiters := kept\<rparr>"
  have p: "search_resource ls (r_number ?r) \<noteq> None" using assms(2) by simp
  have "finish_op d1 ls r = (d1\<lparr>dmem := m2, plock_results := plock_results d1 @ local_replies d1 ls 0 g\<rparr>,
      put_resource (d1\<lparr>dmem := m2, plock_results := plock_results d1 @ local_replies d1 ls 0 g\<rparr>)
        (set_resource ls ?r) ?r)"
    by (simp add: finish_op_def w(1))
  then show ?thesis
    using w(2,4,5) assms(5) put_resource_wf [OF assms(1) p w(3)] abs_at_put_resource [OF assms(1) p]
      put_resource_frame [of _ ls ?r]
    by (simp add: op_step_def s abs_res_def)
qed

subsection \<open>Locking and unlocking\<close>

definition spec_do_lock ::
  "dlm_plock_info \<Rightarrow> cell set \<times> dlm_plock_info list \<Rightarrow> cell set \<times> dlm_plock_info list \<times> int"
where
  "spec_do_lock i = (\<lambda>(c, q).
     if \<not> blocked i c then (spec_lock i c, q, 0)
     else if in_wait i = 0 then (c, q, - EAGAIN)
     else (c, q @ [i], - EINPROGRESS))"

definition own_answer :: "daemon \<Rightarrow> lockspace \<Rightarrow> int \<Rightarrow> dlm_plock_info \<Rightarrow> dlm_plock_info list" where
  "own_answer d ls rv i =
     (if in_nodeid i = our_nodeid d \<and> rv \<noteq> - EINPROGRESS then [reply d ls rv i] else [])"

lemma lock_internal_wf:
  assumes "res_wf r" "info_wf i" "mem_ok m" "\<not> blocked i (cover (r_locks r))"
  obtains m' locks where "lock_internal m r i = (m', r\<lparr>r_locks := locks\<rparr>, 0)" "mem_ok m'"
    "res_wf (r\<lparr>r_locks := locks\<rparr>)" "cover locks = spec_lock i (cover (r_locks r))"
proof -
  have wf: "locks_wf (r_locks r)" "exclusive (cover (r_locks r))" using assms(1) by (auto simp: res_wf_def)
  obtain m' r' where run: "lock_internal m r i = (m', r', 0)" and m: "mem_ok m'"
    using plock.lock_total [OF wf(1) assms(2,3)] by blast
  have "\<not> fst (is_conflict r i False)" using is_conflict_blocked [OF wf(1) assms(2)] assms(4) by simp
  note k = plock.lock_keeps_exclusive [OF wf(1) assms(2) wf(2) this run]
  have v: "cover (r_locks r') = spec_lock i (cover (r_locks r))"
    by (rule plock.lock_view [OF wf(1) assms(2) run])
  obtain locks where "r' = r\<lparr>r_locks := locks\<rparr>"
    using run by (auto simp: lock_internal_def split: prod.splits)
  then show ?thesis
    using that [of m' locks] run m k v assms(1) by (auto simp: res_wf_def)
qed

lemma unlock_internal_wf:
  assumes "res_wf r" "info_wf i" "mem_ok m"
  obtains m' locks where "unlock_internal m r i = (m', r\<lparr>r_locks := locks\<rparr>, 0)" "mem_ok m'"
    "res_wf (r\<lparr>r_locks := locks\<rparr>)" "cover locks = spec_unlock i (cover (r_locks r))"
proof -
  have wf: "locks_wf (r_locks r)" "exclusive (cover (r_locks r))" using assms(1) by (auto simp: res_wf_def)
  obtain m' r' where run: "unlock_internal m r i = (m', r', 0)" and m: "mem_ok m'"
    using plock.unlock_total [OF wf(1) assms(2,3)] by blast
  note k = plock.unlock_keeps_exclusive [OF wf(1) assms(2) wf(2) run]
  have v: "cover (r_locks r') = spec_unlock i (cover (r_locks r))"
    by (rule plock.unlock_view [OF wf(1) assms(2) run])
  obtain locks where "r' = r\<lparr>r_locks := locks\<rparr>"
    using run by (auto simp: unlock_internal_def split: prod.splits)
  then show ?thesis
    using that [of m' locks] run m k v assms(1) by (auto simp: res_wf_def)
qed

lemma do_lock_step:
  assumes "table_wf ls" "search_resource ls (r_number r) \<noteq> None" "res_wf r" "info_wf i" "mem_ok (dmem d)"
    and "spec_do_lock i (cover (r_locks r), map w_info (r_waiters r)) = (c, q, rv)"
  shows "op_step d ls (r_number r) c q (own_answer d ls rv i) (do_lock d ls i r)"
proof -
  have cf: "fst (is_conflict r i False) \<longleftrightarrow> blocked i (cover (r_locks r))"
    using assms(3,4) by (simp add: is_conflict_blocked res_wf_def)
  consider (grant) "\<not> blocked i (cover (r_locks r))"
    | (refuse) "blocked i (cover (r_locks r))" "in_wait i = 0"
    | (wait) "blocked i (cover (r_locks r))" "in_wait i \<noteq> 0" by blast
  then obtain m r1 where r1: "res_wf r1" "r_number r1 = r_number r" "mem_ok m"
      "cover (r_locks r1) = c" "map w_info (r_waiters r1) = q"
      and run: "do_lock d ls i r =
        finish_op (d\<lparr>dmem := m, plock_results := plock_results d @ own_answer d ls rv i\<rparr>) ls r1"
  proof cases
    case grant
    obtain m locks where l: "lock_internal (dmem d) r i = (m, r\<lparr>r_locks := locks\<rparr>, 0)" "mem_ok m"
        "res_wf (r\<lparr>r_locks := locks\<rparr>)" "cover locks = spec_lock i (cover (r_locks r))"
      using lock_internal_wf [OF assms(3,4,5) grant] by blast
    show thesis
      using that [of "r\<lparr>r_locks := locks\<rparr>" m] l grant assms(6)
      by (auto simp: do_lock_def lock_or_queue_def cf spec_do_lock_def own_answer_def write_result_reply)
  next
    case refuse
    then show thesis
      using that [of r "dmem d"] assms(3,5,6)
      by (auto simp: do_lock_def lock_or_queue_def cf spec_do_lock_def own_answer_def write_result_reply)
  next
    case wait
    obtain g m where m: "malloc (dmem d) = (Some g, m)" "mem_ok m" using malloc_mem_ok [OF assms(5)] by blast
    show thesis
      using that [of "r\<lparr>r_waiters := r_waiters r @ [\<lparr>w_flags = g, w_info = i\<rparr>]\<rparr>" m] wait m assms(3,4,6)
      by (auto simp: do_lock_def lock_or_queue_def cf spec_do_lock_def own_answer_def add_waiter_def res_wf_def)
  qed
  have "search_resource ls (r_number r1) \<noteq> None" using assms(2) r1(2) by simp
  from finish_op_step [OF assms(1) this r1(1,3) refl, of d "own_answer d ls rv i"] show ?thesis
    using r1 run by simp
qed

lemma do_unlock_step:
  assumes "table_wf ls" "search_resource ls (r_number r) \<noteq> None" "res_wf r" "info_wf i" "mem_ok (dmem d)"
  shows "op_step d ls (r_number r) (spec_unlock i (cover (r_locks r))) (map w_info (r_waiters r))
    (own_answer d ls 0 i) (do_unlock d ls i r)"
proof -
  obtain m locks where l: "unlock_internal (dmem d) r i = (m, r\<lparr>r_locks := locks\<rparr>, 0)" "mem_ok m"
      "res_wf (r\<lparr>r_locks := locks\<rparr>)" "cover locks = spec_unlock i (cover (r_locks r))"
    using unlock_internal_wf [OF assms(3,4,5)] by blast
  have "do_unlock d ls i r =
      finish_op (d\<lparr>dmem := m, plock_results := plock_results d @ own_answer d ls 0 i\<rparr>) ls
        (r\<lparr>r_locks := locks\<rparr>)"
    by (simp add: do_unlock_def l(1) own_answer_def write_result_reply)
  with finish_op_step [OF assms(1) _ l(3) l(2) refl, of d "own_answer d ls 0 i"] show ?thesis
    using assms(2) l(4) by simp
qed

subsection \<open>When one pass is enough\<close>

text \<open>
  A queued read request must not lower a mode its owner holds, and an owner must not have both read
  and write requests queued; then granting never unblocks a request the pass has left behind.
\<close>

definition same_owner :: "dlm_plock_info \<Rightarrow> dlm_plock_info \<Rightarrow> bool" where
  "same_owner i j = (in_nodeid i = in_nodeid j \<and> in_owner i = in_owner j)"

definition holds_no_write :: "dlm_plock_info \<Rightarrow> cell set \<Rightarrow> bool" where
  "holds_no_write i c = (\<forall>x e. (in_nodeid i, in_owner i, x, e) \<in> c \<longrightarrow> x \<in> {in_start i..in_end i} \<longrightarrow> e = 0)"

definition no_downgrade :: "dlm_plock_info list \<Rightarrow> cell set \<Rightarrow> bool" where
  "no_downgrade q c =
     ((\<forall>i\<in>set q. in_ex i = 0 \<longrightarrow> holds_no_write i c) \<and>
      (\<forall>i\<in>set q. \<forall>j\<in>set q. same_owner i j \<longrightarrow> in_ex i = 0 \<longrightarrow> in_ex j = 0))"

lemma no_downgrade_Cons: "no_downgrade (i # q) c \<Longrightarrow> no_downgrade q c"
  unfolding no_downgrade_def by simp

lemma holds_no_write_lock:
  assumes "holds_no_write j c" "same_owner j i \<longrightarrow> in_ex i = 0"
  shows "holds_no_write j (spec_lock i c)"
  using assms unfolding holds_no_write_def spec_lock_iff same_owner_def by (auto split: if_splits)

lemma no_downgrade_lock:
  assumes "no_downgrade (i # q) c"
  shows "no_downgrade q (spec_lock i c)"
proof -
  have "holds_no_write j (spec_lock i c)" if "j \<in> set q" "in_ex j = 0" for j
    using assms that by (intro holds_no_write_lock) (simp_all add: no_downgrade_def)
  then show ?thesis using assms by (simp add: no_downgrade_def)
qed

lemma blocked_lock:
  assumes "blocked j c" "no_downgrade (i # q) c" "info_wf i"
  shows "blocked j (spec_lock i c)"
proof -
  obtain n w x e where b: "(n, w, x, e) \<in> c" "(n, w) \<noteq> (in_nodeid j, in_owner j)"
      "x \<in> {in_start j..in_end j}" "in_ex j \<noteq> 0 \<or> e \<noteq> 0"
    using assms(1) unfolding blocked_def by blast
  show ?thesis
  proof (cases "n = in_nodeid i \<and> w = in_owner i \<and> x \<in> {in_start i..in_end i}")
    case True
    then have "(n, w, x, in_ex i) \<in> spec_lock i c" by (simp add: spec_lock_iff)
    moreover have "e = 0" if "in_ex i = 0"
    proof -
      have "holds_no_write i c" using assms(2) that by (simp add: no_downgrade_def)
      with b(1) True show ?thesis unfolding holds_no_write_def by blast
    qed
    then have "in_ex j \<noteq> 0 \<or> in_ex i \<noteq> 0" using b(4) by blast
    ultimately show ?thesis using b(2,3) unfolding blocked_def by blast
  next
    case False
    then have "(n, w, x, e) \<in> spec_lock i c" using b(1) by (auto simp: spec_lock_iff)
    then show ?thesis using b(2-4) unfolding blocked_def by blast
  qed
qed

lemma spec_waiters_keeps_blocked:
  assumes "spec_waiters q c = (c', k, g)" "no_downgrade q c" "\<forall>i\<in>set q. info_wf i" "blocked j c"
  shows "blocked j c'"
  using assms
proof (induction q arbitrary: c k g)
  case (Cons i q)
  show ?case
  proof (cases "blocked i c")
    case True
    then show ?thesis
      using Cons no_downgrade_Cons [OF Cons.prems(2)] by (auto split: prod.splits)
  next
    case False
    then obtain g' where "spec_waiters q (spec_lock i c) = (c', k, g')"
      using Cons.prems(1) by (auto split: prod.splits)
    with Cons.IH [OF this no_downgrade_lock [OF Cons.prems(2)]] Cons.prems
    show ?thesis using blocked_lock [OF Cons.prems(4,2)] by auto
  qed
qed simp

lemma spec_waiters_left_blocked:
  assumes "spec_waiters q c = (c', k, g)" "no_downgrade q c" "\<forall>i\<in>set q. info_wf i"
  shows "\<forall>j\<in>set k. blocked j c'"
  using assms
proof (induction q arbitrary: c k g)
  case (Cons i q)
  show ?case
  proof (cases "blocked i c")
    case True
    then obtain k' where k': "spec_waiters q c = (c', k', g)" "k = i # k'"
      using Cons.prems(1) by (auto split: prod.splits)
    have "no_downgrade q c" by (rule no_downgrade_Cons [OF Cons.prems(2)])
    with Cons.IH [OF k'(1)] spec_waiters_keeps_blocked [OF k'(1)] True k'(2) Cons.prems(3)
    show ?thesis by auto
  next
    case False
    then obtain g' where "spec_waiters q (spec_lock i c) = (c', k, g')"
      using Cons.prems(1) by (auto split: prod.splits)
    with Cons.IH [OF this no_downgrade_lock [OF Cons.prems(2)]] Cons.prems(3) show ?thesis by auto
  qed
qed simp

subsection \<open>Mutual exclusion\<close>

text \<open>Mutual exclusion as the lists show it: overlapping locks of different owners are both reads.\<close>

definition po_compat :: "posix_lock \<Rightarrow> posix_lock \<Rightarrow> bool" where
  "po_compat a b = ((po_nodeid a = po_nodeid b \<and> po_owner a = po_owner b) \<or>
     \<not> ranges_overlap (po_start a) (po_end a) (po_start b) (po_end b) \<or> (po_ex a = 0 \<and> po_ex b = 0))"

lemma cover_iff:
  "(n, w, x, e) \<in> cover pos \<longleftrightarrow> (\<exists>po\<in>set pos. n = po_nodeid po \<and> w = po_owner po \<and>
     x \<in> {po_start po..po_end po} \<and> e = po_ex po)"
  unfolding cover_def po_cover_def cells_def by blast

lemma exclusive_cover_iff:
  assumes "\<forall>po\<in>set pos. po_valid po"
  shows "exclusive (cover pos) \<longleftrightarrow> (\<forall>a\<in>set pos. \<forall>b\<in>set pos. po_compat a b)"
proof -
  have ov: "ranges_overlap (po_start a) (po_end a) (po_start b) (po_end b) \<longleftrightarrow>
      (\<exists>x. x \<in> {po_start a..po_end a} \<and> x \<in> {po_start b..po_end b})"
    if "a \<in> set pos" "b \<in> set pos" for a b
  proof -
    have "po_start a \<le> po_end a" "po_start b \<le> po_end b" using assms that by (auto simp: po_valid_def)
    from ranges_overlap_iff [OF this] show ?thesis by blast
  qed
  show ?thesis
  proof
    assume ex: "exclusive (cover pos)"
    show "\<forall>a\<in>set pos. \<forall>b\<in>set pos. po_compat a b"
    proof (intro ballI)
      fix a b assume ab: "a \<in> set pos" "b \<in> set pos"
      have "po_ex a = 0 \<and> po_ex b = 0"
        if "x \<in> {po_start a..po_end a}" "x \<in> {po_start b..po_end b}"
          "\<not> (po_nodeid a = po_nodeid b \<and> po_owner a = po_owner b)" for x
      proof -
        have "(po_nodeid a, po_owner a, x, po_ex a) \<in> cover pos"
          "(po_nodeid b, po_owner b, x, po_ex b) \<in> cover pos"
          using ab that unfolding cover_iff by blast+
        with ex that(3) show ?thesis unfolding exclusive_def by blast
      qed
      with ov [OF ab] show "po_compat a b" unfolding po_compat_def by blast
    qed
  next
    assume c: "\<forall>a\<in>set pos. \<forall>b\<in>set pos. po_compat a b"
    show "exclusive (cover pos)"
      unfolding exclusive_def
    proof (intro allI impI)
      fix n w x e n' w' e'
      assume "(n, w, x, e) \<in> cover pos" "(n', w', x, e') \<in> cover pos" and ne: "(n, w) \<noteq> (n', w')"
      then obtain a b where ab: "a \<in> set pos" "b \<in> set pos" "n = po_nodeid a" "w = po_owner a"
          "e = po_ex a" "n' = po_nodeid b" "w' = po_owner b" "e' = po_ex b"
          "x \<in> {po_start a..po_end a}" "x \<in> {po_start b..po_end b}"
        unfolding cover_iff by blast
      then have "po_compat a b" using c by blast
      with ov [OF ab(1,2)] ab ne show "e = 0 \<and> e' = 0" unfolding po_compat_def by blast
    qed
  qed
qed

subsection \<open>Example states\<close>

definition ex_daemon :: "nodeid \<Rightarrow> bool \<Rightarrow> daemon" where
  "ex_daemon n own = \<lparr>our_nodeid = n, big_endian = False, now = \<lparr>tv_sec = 100, tv_usec = 0\<rparr>,
     dmem = [], mcast = [], sent = [], plock_results = [], kernel_ops = [],
     our_protocol = proto_zero, cfgd_enable_plock = True, cfgd_plock_ownership = own,
     cfgd_plock_rate_limit = 100, cfgd_drop_resources_time = 10000,
     cfgd_drop_resources_count = 10, cfgd_drop_resources_age = 10000,
     cfgd_enable_fencing = True, cfgd_enable_quorum = False,
     need_fsid_translation = False, plock_read_count = 0, plock_recv_count = 0,
     plock_rate_delays = 0, plock_read_time = \<lparr>tv_sec = 0, tv_usec = 0\<rparr>,
     plock_recv_time = \<lparr>tv_sec = 0, tv_usec = 0\<rparr>, plock_rate_last = \<lparr>tv_sec = 0, tv_usec = 0\<rparr>,
     message_flow_control_on = False, poll_ignore_plock = False, poll_fencing = False,
     poll_quorum = False, poll_fs = False, cluster_quorate = True,
     ckpt_answers = [], ckpt_ops = [], fenced_node_info = (\<lambda>_. (0, 0)), fenced_domain_info = (0, 0),
     fence_stack = 0, quorum_nodes = [], daemon_nodes = [], daemon_member = [],
     heap_info = (\<lambda>_. info_zero), stack_num = 0, cfgd_enable_deadlk = False, debugfs_locks = (\<lambda>_. None),
     dlm_opens = False, daemon_cpg_handle = 0, cluster_down = False,
     daemon_quit = False\<rparr>"

definition ex_ls :: "resource list \<Rightarrow> lockspace" where
  "ex_ls rs = ls_zero\<lparr>ls_name := ''x'', ls_global_id := 7, ls_cpg_handle := 5,
     ls_plock_resources := rs\<rparr>"

definition ex_waiter :: "dlm_plock_info \<Rightarrow> lock_waiter" where
  "ex_waiter i = \<lparr>w_flags = 0, w_info = i\<lparr>in_wait := 1\<rparr>\<rparr>"

definition ex_busy :: "posix_lock list \<Rightarrow> dlm_plock_info list \<Rightarrow> resource" where
  "ex_busy pos q = (ex_res pos)\<lparr>r_waiters := map ex_waiter q\<rparr>"

lemmas state_defs = ex_daemon_def ex_ls_def ls_zero_def ex_waiter_def ex_busy_def

lemmas table_eval = search_resource_def set_resource_def del_resource_def put_resource_def
  find_resource_def

lemmas op_eval = do_lock_def lock_or_queue_def do_unlock_def do_get_def finish_op_def do_waiters_def add_waiter_def
  write_result_def

lemma res_wf_lists:
  "res_wf r \<longleftrightarrow> locks_wf (r_locks r) \<and> (\<forall>a\<in>set (r_locks r). \<forall>b\<in>set (r_locks r). po_compat a b) \<and>
     (\<forall>w\<in>set (r_waiters r). info_wf (w_info w))"
  using exclusive_cover_iff [of "r_locks r"] by (auto simp: res_wf_def locks_wf_def)

lemmas table_wf_eval = table_wf_def numbers_distinct_def res_wf_lists po_compat_def

subsection \<open>Properties\<close>

text \<open>
  C11.  Handling a lock request: when the request meets no conflicting lock it is granted on the
  whole range; otherwise it is refused with \<^verbatim>\<open>EAGAIN\<close>, or queued behind the waiting requests when
  the caller waits; then one pass over the queue grants, in order, every request that is not blocked at
  that point.  Answers go to the plock device for local requests only, first for the request
  itself and then for the granted waiters.  No other resource changes, the table stays well-formed
  (in particular no offset is write-locked by one owner and locked by another), and nothing else of
  the daemon or the lockspace changes.
\<close>

theorem do_lock_refines:
  assumes "table_wf ls" "search_resource ls n = Some r" "info_wf i" "mem_ok (dmem d)"
  shows "case spec_do_lock i (abs_at ls n) of (c, q, rv) \<Rightarrow>
    op_step d ls n c q (own_answer d ls rv i) (do_lock d ls i r)"
proof -
  have n: "r_number r = n" using assms(2) by (rule restab.look_key)
  have "res_wf r" using assms(1,2) by (rule table_wf_look)
  then show ?thesis
    using do_lock_step [OF assms(1) _ _ assms(3,4), of r] assms(2)
    by (auto simp: n abs_at_def abs_res_def split: prod.splits)
qed

theorem do_lock_refines_witness:
  "let d = ex_daemon 3 False;
       r = ex_busy [ex_po 2 7 1 0 9] [ex_info DLM_PLOCK_OP_LOCK 3 8 0 0 4];
       ls = ex_ls [r];
       i = ex_info DLM_PLOCK_OP_LOCK 3 9 1 5 20
   in case spec_do_lock i (abs_at ls 11) of (c, q, rv) \<Rightarrow>
        op_step d ls 11 c q (own_answer d ls rv i) (do_lock d ls i r)"
  unfolding Let_def
  by (rule do_lock_refines)
    (simp_all add: state_defs ex_defs table_eval table_wf_eval wf_eval)

text \<open>
  C12.  Handling an unlock: exactly the requester's cells in the range go away, the local requester
  is answered with 0, and one pass over the queue follows as for a lock.
\<close>

theorem do_unlock_refines:
  assumes "table_wf ls" "search_resource ls n = Some r" "info_wf i" "mem_ok (dmem d)"
  shows "op_step d ls n (spec_unlock i (fst (abs_at ls n))) (snd (abs_at ls n)) (own_answer d ls 0 i)
    (do_unlock d ls i r)"
proof -
  have n: "r_number r = n" using assms(2) by (rule restab.look_key)
  have "res_wf r" using assms(1,2) by (rule table_wf_look)
  then show ?thesis
    using do_unlock_step [OF assms(1) _ _ assms(3,4), of r] assms(2)
    by (simp add: n abs_at_def abs_res_def)
qed

theorem do_unlock_refines_witness:
  "let d = ex_daemon 3 False;
       r = ex_busy [ex_po 2 7 1 0 9] [ex_info DLM_PLOCK_OP_LOCK 3 8 0 0 4];
       ls = ex_ls [r];
       i = ex_info DLM_PLOCK_OP_UNLOCK 2 7 1 0 6
   in op_step d ls 11 (spec_unlock i (fst (abs_at ls 11))) (snd (abs_at ls 11)) (own_answer d ls 0 i)
        (do_unlock d ls i r)"
  unfolding Let_def
  by (rule do_unlock_refines)
    (simp_all add: state_defs ex_defs table_eval table_wf_eval wf_eval)

text \<open>
  C16.  When no queued read request would lower a mode its owner holds (and no owner has both read
  and write requests queued), one pass of \<^verbatim>\<open>do_waiters\<close> is complete: every request it leaves in the
  queue conflicts with the locks that are held afterwards.
\<close>

theorem do_waiters_complete:
  assumes "res_wf r" "mem_ok (dmem d)"
    and "no_downgrade (map w_info (r_waiters r)) (cover (r_locks r))"
    and "do_waiters d ls r = (d', r')"
  shows "\<forall>w\<in>set (r_waiters r'). fst (is_conflict r' (w_info w) False)"
proof -
  obtain c k g where s: "spec_waiters (map w_info (r_waiters r)) (cover (r_locks r)) = (c, k, g)"
    by (metis prod_cases3)
  from do_waiters_refines [OF assms(1,2) s, of ls] assms(4)
  have r': "res_wf r'" "cover (r_locks r') = c" "map w_info (r_waiters r') = k" by auto
  have "\<forall>i\<in>set (map w_info (r_waiters r)). info_wf i" using assms(1) by (auto simp: res_wf_def)
  from spec_waiters_left_blocked [OF s assms(3) this]
  have "\<forall>w\<in>set (r_waiters r'). blocked (w_info w) (cover (r_locks r'))" using r'(2,3) by auto
  then show ?thesis using r'(1) by (auto simp: is_conflict_blocked res_wf_def)
qed

theorem do_waiters_complete_witness:
  "let d = ex_daemon 3 False;
       r = ex_busy [ex_po 2 7 0 5 9] [ex_info DLM_PLOCK_OP_LOCK 3 8 1 0 4, ex_info DLM_PLOCK_OP_LOCK 3 9 1 4 8]
   in r_waiters (snd (do_waiters d (ex_ls [r]) r)) = [ex_waiter (ex_info DLM_PLOCK_OP_LOCK 3 9 1 4 8)] \<and>
      (\<forall>w\<in>set (r_waiters (snd (do_waiters d (ex_ls [r]) r))).
         fst (is_conflict (snd (do_waiters d (ex_ls [r]) r)) (w_info w) False))"
proof -
  define d where "d = ex_daemon 3 False"
  define r where "r = ex_busy [ex_po 2 7 0 5 9]
    [ex_info DLM_PLOCK_OP_LOCK 3 8 1 0 4, ex_info DLM_PLOCK_OP_LOCK 3 9 1 4 8]"
  have h: "res_wf r" "mem_ok (dmem d)" "no_downgrade (map w_info (r_waiters r)) (cover (r_locks r))"
    by (simp_all add: d_def r_def state_defs ex_defs table_wf_eval wf_eval no_downgrade_def)
  have e: "r_waiters (snd (do_waiters d (ex_ls [r]) r)) = [ex_waiter (ex_info DLM_PLOCK_OP_LOCK 3 9 1 4 8)]"
    by (simp add: d_def r_def state_defs ex_defs op_eval lock_eval)
  show ?thesis
    using e do_waiters_complete [OF h surjective_pairing] unfolding Let_def d_def r_def by blast
qed


end
