(* ===== verification/Plock_Proto.thy ===== *)
theory Plock_Proto
  imports Plock_Queue
begin

text \<open>
  The messages of \<^verbatim>\<open>plock.c\<close>: receiving lock operations, the ownership protocol (own, sync and drop
  messages), saving messages while the plock state is being transferred, reading requests from the
  kernel, and purging the locks of a failed node.  Handlers take the daemon and the lockspace and
  return both; functions whose C name starts with underscores are spelled with a suffix
  (\<^verbatim>\<open>_receive_plock\<close> is \<open>receive_plock_now\<close>, \<^verbatim>\<open>__receive_plock\<close> is \<open>receive_plock_op\<close>).
\<close>

subsection \<open>Lock operations\<close>

definition receive_plock_op ::
  "daemon \<Rightarrow> lockspace \<Rightarrow> dlm_plock_info \<Rightarrow> nodeid \<Rightarrow> resource \<Rightarrow> daemon \<times> lockspace"
where
  "receive_plock_op d ls i from r = (case in_optype i of
       DLM_PLOCK_OP_LOCK \<Rightarrow> do_lock d (ls\<lparr>ls_last_plock_time := time_now d\<rparr>) i r
     | DLM_PLOCK_OP_UNLOCK \<Rightarrow> do_unlock d (ls\<lparr>ls_last_plock_time := time_now d\<rparr>) i r
     | DLM_PLOCK_OP_GET \<Rightarrow> (do_get d ls i r, ls)
     | Plock_op_other _ \<Rightarrow>
         (if from = our_nodeid d then write_result d ls i (- EINVAL) else d, ls))"

definition save_message ::
  "daemon \<Rightarrow> lockspace \<Rightarrow> dlm_header \<Rightarrow> body \<Rightarrow> nodeid \<Rightarrow> u16 \<Rightarrow> daemon \<times> lockspace"
where
  "save_message d ls h b from type = (case malloc (dmem d) of
       (None, m) \<Rightarrow> (d\<lparr>dmem := m\<rparr>, ls)
     | (Some _, m) \<Rightarrow>
         (d\<lparr>dmem := m\<rparr>,
          ls\<lparr>ls_saved_messages := ls_saved_messages ls @
              [\<lparr>sm_nodeid = from, sm_type = type, sm_hd = h, sm_body = b\<rparr>]\<rparr>))"

subsection \<open>Sending\<close>

definition send_struct_info ::
  "daemon \<Rightarrow> lockspace \<Rightarrow> dlm_plock_info \<Rightarrow> u16 \<Rightarrow> daemon \<times> int"
where
  "send_struct_info d ls i msg_type = (case malloc (dmem d) of
       (None, m) \<Rightarrow> (d\<lparr>dmem := m\<rparr>, - ENOMEM)
     | (Some _, m) \<Rightarrow>
         (dlm_send_message (d\<lparr>dmem := m\<rparr>) ls (hd_zero\<lparr>hd_type := msg_type\<rparr>)
            (Body_plock (info_bswap_out (big_endian d) i)), 0))"

definition send_plock :: "daemon \<Rightarrow> lockspace \<Rightarrow> dlm_plock_info \<Rightarrow> daemon" where
  "send_plock d ls i = fst (send_struct_info d ls i DLM_MSG_PLOCK)"

definition send_own :: "daemon \<Rightarrow> lockspace \<Rightarrow> resource \<Rightarrow> nodeid \<Rightarrow> daemon" where
  "send_own d ls r owner =
     (if r_pending r \<noteq> [] then d
      else fst (send_struct_info d ls (info_zero\<lparr>in_number := r_number r, in_nodeid := owner\<rparr>)
                  DLM_MSG_PLOCK_OWN))"

definition sync_info :: "resource \<Rightarrow> posix_lock \<Rightarrow> dlm_plock_info" where
  "sync_info r po = info_zero\<lparr>in_number := r_number r, in_start := po_start po, in_end := po_end po,
     in_nodeid := po_nodeid po, in_owner := po_owner po, in_pid := po_pid po, in_ex := po_ex po\<rparr>"

text \<open>The two loops of \<^verbatim>\<open>send_syncs\<close>; the flag in the result tells that the loop ran to its end.\<close>

fun send_syncs_locks ::
  "daemon \<Rightarrow> lockspace \<Rightarrow> resource \<Rightarrow> posix_lock list \<Rightarrow> daemon \<times> posix_lock list \<times> bool"
where
  "send_syncs_locks d ls r [] = (d, [], True)"
| "send_syncs_locks d ls r (po # pos) =
     (case send_struct_info d ls (sync_info r po) DLM_MSG_PLOCK_SYNC_LOCK of (d1, rv) \<Rightarrow>
        if rv \<noteq> 0 then (d1, po # pos, False)
        else (case send_syncs_locks d1 ls r pos of (d2, pos', ok) \<Rightarrow>
          (d2, po\<lparr>po_flags := or (po_flags po) P_SYNCING\<rparr> # pos', ok)))"

fun send_syncs_waiters ::
  "daemon \<Rightarrow> lockspace \<Rightarrow> lock_waiter list \<Rightarrow> daemon \<times> lock_waiter list"
where
  "send_syncs_waiters d ls [] = (d, [])"
| "send_syncs_waiters d ls (w # ws) =
     (case send_struct_info d ls (w_info w) DLM_MSG_PLOCK_SYNC_WAITER of (d1, rv) \<Rightarrow>
        if rv \<noteq> 0 then (d1, w # ws)
        else (case send_syncs_waiters d1 ls ws of (d2, ws') \<Rightarrow>
          (d2, w\<lparr>w_flags := or (w_flags w) P_SYNCING\<rparr> # ws')))"

definition send_syncs :: "daemon \<Rightarrow> lockspace \<Rightarrow> resource \<Rightarrow> daemon \<times> resource" where
  "send_syncs d ls r = (case send_syncs_locks d ls r (r_locks r) of (d1, pos, ok) \<Rightarrow>
     if \<not> ok then (d1, r\<lparr>r_locks := pos\<rparr>)
     else (case send_syncs_waiters d1 ls (r_waiters r) of (d2, ws) \<Rightarrow>
       (d2, r\<lparr>r_locks := pos, r_waiters := ws\<rparr>)))"

definition send_drop :: "daemon \<Rightarrow> lockspace \<Rightarrow> resource \<Rightarrow> daemon" where
  "send_drop d ls r =
     fst (send_struct_info d ls (info_zero\<lparr>in_number := r_number r\<rparr>) DLM_MSG_PLOCK_DROP)"

subsection \<open>Pending operations\<close>

definition save_pending_plock :: "daemon \<Rightarrow> resource \<Rightarrow> dlm_plock_info \<Rightarrow> daemon \<times> resource" where
  "save_pending_plock d r i = (case malloc (dmem d) of
       (None, m) \<Rightarrow> (d\<lparr>dmem := m\<rparr>, r)
     | (Some g, m) \<Rightarrow>
         (d\<lparr>dmem := m\<rparr>, r\<lparr>r_pending := r_pending r @ [\<lparr>w_flags = g, w_info = i\<rparr>]\<rparr>))"

text \<open>
  Each pending operation is handled on the resource as the previous ones left it.  When an operation
  has freed the resource (possible only without ownership) there is nothing left to walk.
\<close>

fun add_pending_loop ::
  "daemon \<Rightarrow> lockspace \<Rightarrow> u64 \<Rightarrow> lock_waiter list \<Rightarrow> daemon \<times> lockspace"
where
  "add_pending_loop d ls number [] = (d, ls)"
| "add_pending_loop d ls number (w # ws) = (case search_resource ls number of
       None \<Rightarrow> (d, ls)
     | Some r \<Rightarrow> (case receive_plock_op d ls (w_info w) (our_nodeid d) r of (d1, ls1) \<Rightarrow>
         (case search_resource ls1 number of
            None \<Rightarrow> (d1, ls1)
          | Some r1 \<Rightarrow>
              add_pending_loop d1 (set_resource ls1 (r1\<lparr>r_pending := tl (r_pending r1)\<rparr>)) number ws)))"

definition add_pending_plocks :: "daemon \<Rightarrow> lockspace \<Rightarrow> resource \<Rightarrow> daemon \<times> lockspace" where
  "add_pending_plocks d ls r = add_pending_loop d ls (r_number r) (r_pending r)"

fun send_pending_loop :: "daemon \<Rightarrow> lockspace \<Rightarrow> lock_waiter list \<Rightarrow> daemon" where
  "send_pending_loop d ls [] = d"
| "send_pending_loop d ls (w # ws) = send_pending_loop (send_plock d ls (w_info w)) ls ws"

definition send_pending_plocks :: "daemon \<Rightarrow> lockspace \<Rightarrow> resource \<Rightarrow> daemon \<times> resource" where
  "send_pending_plocks d ls r = (send_pending_loop d ls (r_pending r), r\<lparr>r_pending := []\<rparr>)"

subsection \<open>Receiving a lock operation\<close>

definition count_recv :: "daemon \<Rightarrow> daemon" where
  "count_recv d =
     (let d = d\<lparr>plock_recv_count := plock_recv_count d + 1\<rparr> in
      if plock_recv_count d mod 1000 = 0 then d\<lparr>plock_recv_time := now d\<rparr> else d)"

text \<open>The sender queues an operation of its own while the owner of the resource is unknown.\<close>

definition hold_own_plock ::
  "daemon \<Rightarrow> lockspace \<Rightarrow> nodeid \<Rightarrow> dlm_plock_info \<Rightarrow> resource \<Rightarrow> daemon \<times> lockspace"
where
  "hold_own_plock d ls from i r =
     (if from = our_nodeid d then
        (case save_pending_plock d r i of (d', r') \<Rightarrow> (d', set_resource ls r'))
      else (d, ls))"

text \<open>There is no resource: a race with a drop message.\<close>

definition receive_plock_missing ::
  "daemon \<Rightarrow> lockspace \<Rightarrow> nodeid \<Rightarrow> dlm_plock_info \<Rightarrow> daemon \<times> lockspace"
where
  "receive_plock_missing d ls from i =
     (if cfgd_plock_ownership d \<and> from = our_nodeid d then
        (case find_resource d ls (in_number i) True of
           (d, ls, None, rv) \<Rightarrow> (d, ls)
         | (d, ls, Some r, rv) \<Rightarrow>
             (case save_pending_plock (send_own d ls r (our_nodeid d)) r i of
                (d, r) \<Rightarrow> (d, set_resource ls r)))
      else (d, ls))"

text \<open>The operation is handled according to the owner of the resource.\<close>

definition receive_plock_owner ::
  "daemon \<Rightarrow> lockspace \<Rightarrow> nodeid \<Rightarrow> dlm_plock_info \<Rightarrow> resource \<Rightarrow> daemon \<times> lockspace"
where
  "receive_plock_owner d ls from i r =
     (if r_owner r = 0 then receive_plock_op d ls i from r
      else if r_owner r = -1 then hold_own_plock d ls from i r
      else if r_owner r \<noteq> our_nodeid d then hold_own_plock d ls from i r
      else if from = our_nodeid d then receive_plock_op d ls i from r
      else (d, ls))"

definition receive_plock_now ::
  "daemon \<Rightarrow> lockspace \<Rightarrow> dlm_header \<Rightarrow> body \<Rightarrow> daemon \<times> lockspace"
where
  "receive_plock_now d ls h b =
     (let i = info_bswap_in (big_endian d) (body_plock b);
          from = hd_nodeid h;
          d = count_recv d
      in if in_optype i = DLM_PLOCK_OP_GET \<and> from \<noteq> our_nodeid d then (d, ls)
         else if from \<noteq> in_nodeid i then (d, ls)
         else (case find_resource d ls (in_number i) (\<not> cfgd_plock_ownership d) of
             (d, ls, None, rv) \<Rightarrow> receive_plock_missing d ls from i
           | (d, ls, Some r, rv) \<Rightarrow> receive_plock_owner d ls from i r))"

definition receive_plock :: "daemon \<Rightarrow> lockspace \<Rightarrow> dlm_header \<Rightarrow> body \<Rightarrow> daemon \<times> lockspace" where
  "receive_plock d ls h b =
     (if ls_save_plocks ls then save_message d ls h b (hd_nodeid h) DLM_MSG_PLOCK
      else receive_plock_now d ls h b)"

subsection \<open>Ownership\<close>

text \<open>\<^verbatim>\<open>_receive_own\<close> for our own message and for a message of another node.\<close>

definition receive_own_ours ::
  "daemon \<Rightarrow> lockspace \<Rightarrow> nodeid \<Rightarrow> resource \<Rightarrow> daemon \<times> lockspace"
where
  "receive_own_ours d ls nodeid r =
     (if nodeid = 0 then
        (if r_owner r = our_nodeid d then (d, ls)
         else if r_owner r = 0 then
           (d, set_resource ls (r\<lparr>r_flags := or (r_flags r) R_GOT_UNOWN\<rparr>))
         else (d, ls))
      else if nodeid = our_nodeid d then
        (if r_owner r = -1 then
           (let r = r\<lparr>r_owner := our_nodeid d\<rparr> in add_pending_plocks d (set_resource ls r) r)
         else if r_owner r = our_nodeid d then (d, ls)
         else if r_owner r = 0 then
           (case send_pending_plocks d ls r of (d, r) \<Rightarrow> (d, set_resource ls r))
         else (d, ls))
      else (d, ls))"

definition receive_own_other ::
  "daemon \<Rightarrow> lockspace \<Rightarrow> nodeid \<Rightarrow> nodeid \<Rightarrow> resource \<Rightarrow> daemon \<times> lockspace"
where
  "receive_own_other d ls from nodeid r =
     (if nodeid = 0 then
        (if r_owner r = -1 \<or> r_owner r = our_nodeid d \<or> r_owner r = 0 then (d, ls)
         else
           (case send_pending_plocks d ls
                   (r\<lparr>r_owner := 0, r_flags := or (r_flags r) R_GOT_UNOWN\<rparr>) of
              (d, r) \<Rightarrow> (d, set_resource ls r)))
      else if nodeid = from then
        (if r_owner r = -1 then (d, set_resource ls (r\<lparr>r_owner := from\<rparr>))
         else if r_owner r = our_nodeid d then
           (case send_syncs d ls r of (d, r) \<Rightarrow>
              (send_own d ls r 0, set_resource ls (r\<lparr>r_owner := 0\<rparr>)))
         else (d, ls))
      else (d, ls))"

definition receive_own_now :: "daemon \<Rightarrow> lockspace \<Rightarrow> dlm_header \<Rightarrow> body \<Rightarrow> daemon \<times> lockspace" where
  "receive_own_now d ls h b =
     (let i = info_bswap_in (big_endian d) (body_plock b); from = hd_nodeid h
      in case find_resource d ls (in_number i) True of
           (d, ls, None, rv) \<Rightarrow> (d, ls)
         | (d, ls, Some r, rv) \<Rightarrow>
             if from = our_nodeid d then receive_own_ours d ls (in_nodeid i) r
             else receive_own_other d ls from (in_nodeid i) r)"

definition receive_own :: "daemon \<Rightarrow> lockspace \<Rightarrow> dlm_header \<Rightarrow> body \<Rightarrow> daemon \<times> lockspace" where
  "receive_own d ls h b =
     (if ls_save_plocks ls then save_message d ls h b (hd_nodeid h) DLM_MSG_PLOCK_OWN
      else receive_own_now d ls h b)"

subsection \<open>Synchronising and dropping\<close>

definition po_matches :: "dlm_plock_info \<Rightarrow> posix_lock \<Rightarrow> bool" where
  "po_matches i po = (and (po_flags po) P_SYNCING \<noteq> 0 \<and> in_start i = po_start po \<and>
     in_end i = po_end po \<and> in_nodeid i = po_nodeid po \<and> in_owner i = po_owner po \<and>
     in_pid i = po_pid po \<and> in_ex i = po_ex po)"

definition waiter_matches :: "dlm_plock_info \<Rightarrow> lock_waiter \<Rightarrow> bool" where
  "waiter_matches i w = (and (w_flags w) P_SYNCING \<noteq> 0 \<and> in_start i = in_start (w_info w) \<and>
     in_end i = in_end (w_info w) \<and> in_nodeid i = in_nodeid (w_info w) \<and>
     in_owner i = in_owner (w_info w) \<and> in_pid i = in_pid (w_info w) \<and> in_ex i = in_ex (w_info w))"

definition clear_syncing_flag :: "resource \<Rightarrow> dlm_plock_info \<Rightarrow> resource" where
  "clear_syncing_flag r i =
     (if \<exists>po\<in>set (r_locks r). po_matches i po then
        r\<lparr>r_locks := map_first (po_matches i)
            (\<lambda>po. po\<lparr>po_flags := and (po_flags po) (not P_SYNCING)\<rparr>) (r_locks r)\<rparr>
      else
        r\<lparr>r_waiters := map_first (waiter_matches i)
            (\<lambda>w. w\<lparr>w_flags := and (w_flags w) (not P_SYNCING)\<rparr>) (r_waiters r)\<rparr>)"

definition receive_sync_now :: "daemon \<Rightarrow> lockspace \<Rightarrow> dlm_header \<Rightarrow> body \<Rightarrow> daemon \<times> lockspace" where
  "receive_sync_now d ls h b =
     (let i = info_bswap_in (big_endian d) (body_plock b); from = hd_nodeid h
      in case find_resource d ls (in_number i) False of
           (d, ls, None, rv) \<Rightarrow> (d, ls)
         | (d, ls, Some r, rv) \<Rightarrow>
             if from = our_nodeid d then (d, set_resource ls (clear_syncing_flag r i))
             else if hd_type h = DLM_MSG_PLOCK_SYNC_LOCK then
               (case add_lock (dmem d) (r_locks r) (in_nodeid i) (in_owner i) (in_pid i) (in_ex i)
                       (in_start i) (in_end i) of
                  (m, locks, _) \<Rightarrow> (d\<lparr>dmem := m\<rparr>, set_resource ls (r\<lparr>r_locks := locks\<rparr>)))
             else if hd_type h = DLM_MSG_PLOCK_SYNC_WAITER then
               (case add_waiter (dmem d) r i of (m, r, _) \<Rightarrow> (d\<lparr>dmem := m\<rparr>, set_resource ls r))
             else (d, ls))"

definition receive_sync :: "daemon \<Rightarrow> lockspace \<Rightarrow> dlm_header \<Rightarrow> body \<Rightarrow> daemon \<times> lockspace" where
  "receive_sync d ls h b =
     (if ls_save_plocks ls then save_message d ls h b (hd_nodeid h) (hd_type h)
      else receive_sync_now d ls h b)"

definition receive_drop_now :: "daemon \<Rightarrow> lockspace \<Rightarrow> dlm_header \<Rightarrow> body \<Rightarrow> daemon \<times> lockspace" where
  "receive_drop_now d ls h b =
     (let i = info_bswap_in (big_endian d) (body_plock b)
      in case find_resource d ls (in_number i) False of
           (d, ls, None, rv) \<Rightarrow> (d, ls)
         | (d, ls, Some r, rv) \<Rightarrow>
             if r_owner r \<noteq> 0 then (d, ls)
             else if r_pending r \<noteq> [] then (d, ls)
             else if r_locks r = [] \<and> r_waiters r = [] then (d, del_resource ls r)
             else (d, ls))"

definition receive_drop :: "daemon \<Rightarrow> lockspace \<Rightarrow> dlm_header \<Rightarrow> body \<Rightarrow> daemon \<times> lockspace" where
  "receive_drop d ls h b =
     (if ls_save_plocks ls then save_message d ls h b (hd_nodeid h) DLM_MSG_PLOCK_DROP
      else receive_drop_now d ls h b)"

text \<open>The walk of \<^verbatim>\<open>drop_resources\<close>, over the resources from the last to the first.\<close>

fun drop_resources_loop ::
  "daemon \<Rightarrow> lockspace \<Rightarrow> int \<Rightarrow> resource list \<Rightarrow> daemon \<times> resource list"
where
  "drop_resources_loop d ls count [] = (d, [])"
| "drop_resources_loop d ls count (r # rs) =
     (if count \<ge> cfgd_drop_resources_count d then (d, r # rs)
      else if r_owner r \<noteq> 0 \<and> r_owner r \<noteq> our_nodeid d then
        (case drop_resources_loop d ls count rs of (d', rs') \<Rightarrow> (d', r # rs'))
      else if time_diff_ms (r_last_access r) (now d) < ucast (cfgd_drop_resources_age d) then
        (case drop_resources_loop d ls count rs of (d', rs') \<Rightarrow> (d', r # rs'))
      else if r_locks r = [] \<and> r_waiters r = [] then
        (let (d, r) =
           (if r_owner r = our_nodeid d then (send_own d ls r 0, r\<lparr>r_owner := 0\<rparr>)
            else if r_owner r = 0 \<and> got_unown r then (send_drop d ls r, r)
            else (d, r))
         in case drop_resources_loop d ls (count + 1) rs of (d', rs') \<Rightarrow> (d', r # rs'))
      else (case drop_resources_loop d ls count rs of (d', rs') \<Rightarrow> (d', r # rs')))"

definition drop_resources :: "daemon \<Rightarrow> lockspace \<Rightarrow> daemon \<times> lockspace" where
  "drop_resources d ls = (case drop_resources_loop d ls 0 (rev (ls_plock_resources ls)) of
     (d', rs) \<Rightarrow> (d', ls\<lparr>ls_plock_resources := rev rs\<rparr>))"

subsection \<open>Reading requests from the kernel\<close>

text \<open>
  \<open>flow\<close> is what \<^verbatim>\<open>cpg_flow_control_state_get\<close> answers: \<open>None\<close> for an error, otherwise whether flow
  control is enabled.
\<close>

definition update_flow_control_status :: "bool option \<Rightarrow> daemon \<Rightarrow> daemon" where
  "update_flow_control_status flow d = (case flow of
       None \<Rightarrow> d
     | Some on \<Rightarrow> d\<lparr>message_flow_control_on := on\<rparr>)"

definition limit_plocks :: "bool option \<Rightarrow> daemon \<Rightarrow> daemon \<times> int" where
  "limit_plocks flow d =
     (let d = (if message_flow_control_on d then update_flow_control_status flow d else d) in
      if message_flow_control_on d then (d, 1)
      else if cfgd_plock_rate_limit d = 0 \<or> plock_read_count d = 0 then (d, 0)
      else if plock_read_count d mod cfgd_plock_rate_limit d = 0 then
        (if time_diff_ms (plock_rate_last d) (now d) < 1000
         then (d\<lparr>plock_rate_delays := plock_rate_delays d + 1\<rparr>, 2)
         else (d\<lparr>plock_rate_last := now d, plock_read_count := plock_read_count d + 1\<rparr>, 0))
      else (d, 0))"

definition find_ls :: "string \<Rightarrow> lockspace list \<Rightarrow> lockspace option" where
  "find_ls name lss = find (\<lambda>ls. ls_name ls = name) lss"

definition find_ls_id :: "u32 \<Rightarrow> lockspace list \<Rightarrow> lockspace option" where
  "find_ls_id gid lss = find (\<lambda>ls. ls_global_id ls = gid) lss"

text \<open>\<open>mg_name\<close> is the mount group name that sysfs gives for an id (\<^verbatim>\<open>get_mountgroup_name\<close>).\<close>

definition set_associated_id :: "(u32 \<Rightarrow> string option) \<Rightarrow> u32 \<Rightarrow> lockspace list \<Rightarrow> lockspace list" where
  "set_associated_id mg_name mg_id lss = (case mg_name mg_id of
       None \<Rightarrow> lss
     | Some name \<Rightarrow>
         map_first (\<lambda>ls. ls_name ls = name) (\<lambda>ls. ls\<lparr>ls_associated_mg_id := mg_id\<rparr>) lss)"

definition mg_to_ls_id ::
  "(u32 \<Rightarrow> string option) \<Rightarrow> u32 \<Rightarrow> lockspace list \<Rightarrow> lockspace list \<times> u32"
where
  "mg_to_ls_id mg_name fsid lss = (case find (\<lambda>ls. ls_associated_mg_id ls = fsid) lss of
       Some ls \<Rightarrow> (lss, ls_global_id ls)
     | None \<Rightarrow>
         (let lss = set_associated_id mg_name fsid lss in
          case find (\<lambda>ls. ls_associated_mg_id ls = fsid) lss of
            Some ls \<Rightarrow> (lss, ls_global_id ls)
          | None \<Rightarrow> (lss, fsid)))"

definition count_read :: "daemon \<Rightarrow> daemon" where
  "count_read d =
     (let d = d\<lparr>plock_read_count := plock_read_count d + 1\<rparr> in
      if plock_read_count d mod 1000 = 0
      then d\<lparr>plock_read_time := now d, plock_rate_delays := 0\<rparr> else d)"

definition write_fail :: "daemon \<Rightarrow> dlm_plock_info \<Rightarrow> int \<Rightarrow> daemon" where
  "write_fail d i rv = d\<lparr>plock_results := plock_results d @ [i\<lparr>in_rv := word_of_int rv\<rparr>]\<rparr>"

text \<open>The part of \<^verbatim>\<open>process_plocks\<close> for a request on a known lockspace.\<close>

definition process_plock_ls :: "daemon \<Rightarrow> lockspace \<Rightarrow> dlm_plock_info \<Rightarrow> daemon \<times> lockspace" where
  "process_plock_ls d ls i = (case find_resource (count_read d) ls (in_number i) True of
       (d, ls, None, rv) \<Rightarrow> (write_fail d i rv, ls)
     | (d, ls, Some r, rv) \<Rightarrow>
         (let (d, ls) =
            (if r_owner r = 0 then (send_plock d ls i, ls)
             else if r_owner r = our_nodeid d then receive_plock_op d ls i (our_nodeid d) r
             else (case save_pending_plock (send_own d ls r (our_nodeid d)) r i of
                     (d, r) \<Rightarrow> (d, set_resource ls r)))
          in if cfgd_plock_ownership d \<and>
                time_diff_ms (ls_drop_resources_last ls) (now d) \<ge> ucast (cfgd_drop_resources_time d)
             then drop_resources d (ls\<lparr>ls_drop_resources_last := now d\<rparr>)
             else (d, ls)))"

text \<open>\<open>input\<close> is the request read from the plock device, \<open>None\<close> for a read error.\<close>

definition process_plocks ::
  "bool option \<Rightarrow> (u32 \<Rightarrow> string option) \<Rightarrow> dlm_plock_info option \<Rightarrow> daemon \<Rightarrow> lockspace list
     \<Rightarrow> daemon \<times> lockspace list"
where
  "process_plocks flow mg_name input d lss = (case limit_plocks flow d of (d, limited) \<Rightarrow>
     if limited \<noteq> 0 then (d\<lparr>poll_ignore_plock := True\<rparr>, lss)
     else (case input of
         None \<Rightarrow> (d, lss)
       | Some info \<Rightarrow>
           (let info = info\<lparr>in_nodeid := our_nodeid d\<rparr> in
            if \<not> cfgd_enable_plock d then (write_fail d info (- ENOSYS), lss)
            else
              (let (lss, fsid) = (if need_fsid_translation d then mg_to_ls_id mg_name (in_fsid info) lss
                                  else (lss, in_fsid info));
                   info = info\<lparr>in_fsid := fsid\<rparr>
               in case find_ls_id fsid lss of
                    None \<Rightarrow> (write_fail d info (- EEXIST), lss)
                  | Some ls \<Rightarrow> (case process_plock_ls d ls info of
                      (d, ls') \<Rightarrow> (d, map_first (\<lambda>l. ls_global_id l = fsid) (\<lambda>_. ls') lss))))))"

subsection \<open>Saved messages and failed nodes\<close>

definition receive_saved ::
  "daemon \<Rightarrow> lockspace \<Rightarrow> save_msg \<Rightarrow> (daemon \<times> lockspace) option"
where
  "receive_saved d ls sm =
     (if sm_type sm = DLM_MSG_PLOCK then Some (receive_plock_now d ls (sm_hd sm) (sm_body sm))
      else if sm_type sm = DLM_MSG_PLOCK_OWN then Some (receive_own_now d ls (sm_hd sm) (sm_body sm))
      else if sm_type sm = DLM_MSG_PLOCK_DROP then Some (receive_drop_now d ls (sm_hd sm) (sm_body sm))
      else if sm_type sm = DLM_MSG_PLOCK_SYNC_LOCK \<or> sm_type sm = DLM_MSG_PLOCK_SYNC_WAITER
        then Some (receive_sync_now d ls (sm_hd sm) (sm_body sm))
      else None)"

fun process_saved_loop ::
  "daemon \<Rightarrow> lockspace \<Rightarrow> save_msg list \<Rightarrow> daemon \<times> lockspace \<times> save_msg list"
where
  "process_saved_loop d ls [] = (d, ls, [])"
| "process_saved_loop d ls (sm # sms) = (case receive_saved d ls sm of
       None \<Rightarrow> (case process_saved_loop d ls sms of (d', ls', kept) \<Rightarrow> (d', ls', sm # kept))
     | Some (d1, ls1) \<Rightarrow> process_saved_loop d1 ls1 sms)"

definition process_saved_plocks :: "daemon \<Rightarrow> lockspace \<Rightarrow> daemon \<times> lockspace" where
  "process_saved_plocks d ls = (case process_saved_loop d ls (ls_saved_messages ls) of
     (d', ls', kept) \<Rightarrow> (d', ls'\<lparr>ls_saved_messages := kept\<rparr>))"

text \<open>The locks and waiters of the node, or all of them when unmounting, leave the resource.\<close>

definition purge_lists :: "nodeid \<Rightarrow> bool \<Rightarrow> resource \<Rightarrow> resource" where
  "purge_lists nodeid unmount r =
     r\<lparr>r_locks := filter (\<lambda>po. \<not> (po_nodeid po = nodeid \<or> unmount)) (r_locks r),
       r_waiters := filter (\<lambda>w. \<not> (in_nodeid (w_info w) = nodeid \<or> unmount)) (r_waiters r)\<rparr>"

text \<open>
  One resource of \<^verbatim>\<open>purge_plocks\<close>: the resource afterwards (\<open>None\<close> when it is freed) and the number of
  locks and waiters purged.
\<close>

definition purge_resource ::
  "daemon \<Rightarrow> lockspace \<Rightarrow> nodeid \<Rightarrow> bool \<Rightarrow> resource \<Rightarrow> daemon \<times> resource option \<times> nat"
where
  "purge_resource d ls nodeid unmount r =
     (let r0 = purge_lists nodeid unmount r;
          purged = (length (r_locks r) - length (r_locks r0)) +
                   (length (r_waiters r) - length (r_waiters r0));
          (d1, r1) = (if r_owner r = nodeid then send_pending_plocks d ls (r0\<lparr>r_owner := 0\<rparr>)
                      else (d, r0));
          (d2, r2) = (if r_waiters r1 \<noteq> [] then do_waiters d1 ls r1 else (d1, r1))
      in (d2,
          if \<not> cfgd_plock_ownership d2 \<and> r_locks r2 = [] \<and> r_waiters r2 = [] then None else Some r2,
          purged))"

fun purge_loop ::
  "daemon \<Rightarrow> lockspace \<Rightarrow> nodeid \<Rightarrow> bool \<Rightarrow> resource list \<Rightarrow> daemon \<times> resource list \<times> nat"
where
  "purge_loop d ls nodeid unmount [] = (d, [], 0)"
| "purge_loop d ls nodeid unmount (r # rs) = (case purge_resource d ls nodeid unmount r of
     (d1, ro, n) \<Rightarrow> (case purge_loop d1 ls nodeid unmount rs of
       (d2, rs', n') \<Rightarrow> (d2, (case ro of None \<Rightarrow> rs' | Some r' \<Rightarrow> r' # rs'), n + n')))"

definition purge_plocks :: "daemon \<Rightarrow> lockspace \<Rightarrow> nodeid \<Rightarrow> bool \<Rightarrow> daemon \<times> lockspace" where
  "purge_plocks d ls nodeid unmount =
     (if \<not> cfgd_enable_plock d then (d, ls)
      else (case purge_loop d ls nodeid unmount (ls_plock_resources ls) of (d', rs, purged) \<Rightarrow>
        (let ls = ls\<lparr>ls_plock_resources := rs\<rparr> in
         (d', if purged \<noteq> 0 then ls\<lparr>ls_last_plock_time := time_now d'\<rparr> else ls))))"

end
