(* ===== verification/Plock_Inv.thy ===== *)
theory Plock_Inv
  imports Plock_Proto
begin

text \<open>
  The invariant of the plock state of a lockspace and its preservation by every handler: each
  inode number has one resource, the ranges on it are well-formed, no offset is write-locked by one owner and
  locked by another, and every queued or pending request is well-formed.  The handlers are then the
  steps of a transition system whose reachable states all satisfy the invariant.
\<close>

subsection \<open>What an operation leaves alone\<close>

definition same_meta :: "resource \<Rightarrow> resource \<Rightarrow> bool" where
  "same_meta r r' = (r_number r' = r_number r \<and> r_owner r' = r_owner r \<and> r_flags r' = r_flags r \<and>
     r_pending r' = r_pending r)"

definition rows_meta :: "lockspace \<Rightarrow> lockspace \<Rightarrow> bool" where
  "rows_meta ls ls' = (\<forall>n r'. search_resource ls' n = Some r' \<longrightarrow>
     (\<exists>r. search_resource ls n = Some r \<and> same_meta r r'))"

definition quiet :: "daemon \<Rightarrow> daemon \<Rightarrow> bool" where
  "quiet d d' = (\<exists>m res. d' = d\<lparr>dmem := m, plock_results := res\<rparr>)"

lemma same_meta_refl [simp]: "same_meta r r"
  by (simp add: same_meta_def)

lemma same_meta_trans: "same_meta r r' \<Longrightarrow> same_meta r' r'' \<Longrightarrow> same_meta r r''"
  by (simp add: same_meta_def)

lemma same_meta_lists [simp]:
  "same_meta r (r'\<lparr>r_locks := x\<rparr>) = same_meta r r'" "same_meta r (r'\<lparr>r_waiters := y\<rparr>) = same_meta r r'"
  "same_meta r (r'\<lparr>r_last_access := t\<rparr>) = same_meta r r'"
  by (simp_all add: same_meta_def)

lemma rows_meta_refl [simp]: "rows_meta ls ls"
  by (auto simp: rows_meta_def)

lemma rows_meta_trans: "rows_meta ls ls' \<Longrightarrow> rows_meta ls' ls'' \<Longrightarrow> rows_meta ls ls''"
  unfolding rows_meta_def by (meson same_meta_trans)

lemma quiet_refl [simp]: "quiet d d"
  unfolding quiet_def by (intro exI [of _ "dmem d"] exI [of _ "plock_results d"]) simp

lemma quiet_trans: "quiet d d' \<Longrightarrow> quiet d' d'' \<Longrightarrow> quiet d d''"
  unfolding quiet_def by force

lemma quiet_dmem [simp]: "quiet d (d\<lparr>dmem := m\<rparr>)"
  unfolding quiet_def by (intro exI [of _ m] exI [of _ "plock_results d"]) simp

lemma quiet_write_result [simp]: "quiet d (write_result d ls i rv)"
  unfolding quiet_def write_result_reply
  by (intro exI [of _ "dmem d"] exI [of _ "plock_results d @ [reply d ls rv i]"]) simp

lemma quiet_write_result' [simp]: "quiet d d' \<Longrightarrow> quiet d (write_result d' ls i rv)"
  by (rule quiet_trans [OF _ quiet_write_result])

lemma lock_internal_meta: "lock_internal m r i = (m', r', rv) \<Longrightarrow> same_meta r r'"
  by (auto simp: lock_internal_def split: prod.splits)

lemma unlock_internal_meta: "unlock_internal m r i = (m', r', rv) \<Longrightarrow> same_meta r r'"
  by (auto simp: unlock_internal_def split: prod.splits)

lemma do_waiters_loop_frame:
  "do_waiters_loop d ls r ws = (d', r', kept) \<Longrightarrow> quiet d d' \<and> same_meta r r'"
proof (induction ws arbitrary: d r d' r' kept)
  case (Cons w ws)
  show ?case
  proof (cases "fst (is_conflict r (w_info w) False)")
    case True
    then show ?thesis using Cons by (auto split: prod.splits)
  next
    case False
    obtain m r1 rv where run: "lock_internal (dmem d) r (w_info w) = (m, r1, rv)" by (metis prod_cases3)
    define d2 where "d2 = (if in_nodeid (w_info w) = our_nodeid d
      then write_result (d\<lparr>dmem := m\<rparr>) ls (w_info w) rv else d\<lparr>dmem := m\<rparr>)"
    have "do_waiters_loop d2 ls r1 ws = (d', r', kept)"
      using Cons.prems False run by (simp add: d2_def Let_def split: if_splits)
    from Cons.IH [OF this] lock_internal_meta [OF run] have "quiet d2 d'" "same_meta r r'"
      by (auto intro: same_meta_trans)
    moreover have "quiet d d2" by (simp add: d2_def)
    ultimately show ?thesis using quiet_trans by blast
  qed
qed simp

lemma do_waiters_frame: "do_waiters d ls r = (d', r') \<Longrightarrow> quiet d d' \<and> same_meta r r'"
  using do_waiters_loop_frame by (fastforce simp: do_waiters_def split: prod.splits)

lemma rows_meta_set:
  "search_resource ls (r_number r) = Some r0 \<Longrightarrow> same_meta r0 r \<Longrightarrow> rows_meta ls (set_resource ls r)"
  by (auto simp: rows_meta_def restab.look_put)

lemma rows_meta_del: "numbers_distinct ls \<Longrightarrow> rows_meta ls (del_resource ls r)"
  by (auto simp: rows_meta_def restab.look_del)

lemma finish_op_frame:
  assumes "numbers_distinct ls" "search_resource ls (r_number r) = Some r0" "same_meta r0 r"
    and "finish_op d ls r = (d', ls')"
  shows "quiet d d' \<and> rows_meta ls ls' \<and> numbers_distinct ls'"
proof -
  obtain r' where w: "do_waiters d ls r = (d', r')"
      and ls': "ls' = put_resource d' (set_resource ls r') r'"
    using assms(4) by (auto simp: finish_op_def split: prod.splits)
  note f = do_waiters_frame [OF w]
  have "same_meta r0 r'" using f assms(3) by (blast intro: same_meta_trans)
  moreover have "r_number r' = r_number r" using f by (simp add: same_meta_def)
  ultimately have "rows_meta ls (set_resource ls r')" using assms(2) by (auto intro: rows_meta_set)
  moreover have "numbers_distinct (set_resource ls r')" using assms(1) by (rule restab.put_inv)
  ultimately have "rows_meta ls ls' \<and> numbers_distinct ls'"
    unfolding ls' put_resource_def by (auto intro: rows_meta_trans rows_meta_del restab.del_inv)
  with f show ?thesis by blast
qed

lemma search_last_time [simp]:
  "search_resource (ls\<lparr>ls_last_plock_time := t\<rparr>) = search_resource ls"
  "search_resource (ls\<lparr>ls_saved_messages := sms\<rparr>) = search_resource ls"
  "search_resource (ls\<lparr>ls_drop_resources_last := tv\<rparr>) = search_resource ls"
  by (simp_all add: search_resource_def fun_eq_iff)

lemma table_last_time [simp]:
  "numbers_distinct (ls\<lparr>ls_last_plock_time := t\<rparr>) = numbers_distinct ls"
  "table_wf (ls\<lparr>ls_last_plock_time := t\<rparr>) = table_wf ls"
  "abs_at (ls\<lparr>ls_last_plock_time := t\<rparr>) = abs_at ls"
  "rows_meta (ls\<lparr>ls_last_plock_time := t\<rparr>) = rows_meta ls"
  by (simp_all add: numbers_distinct_def table_wf_def abs_at_def rows_meta_def fun_eq_iff)

lemma add_waiter_meta: "add_waiter m r i = (m', r', rv) \<Longrightarrow> same_meta r r'"
  by (auto simp: add_waiter_def split: prod.splits option.splits)

lemma lock_or_queue_meta: "lock_or_queue m r i = (m', r', rv) \<Longrightarrow> same_meta r r'"
  by (cases "add_waiter m r i")
    (auto simp: lock_or_queue_def dest: lock_internal_meta add_waiter_meta split: if_splits)

lemma do_lock_frame:
  assumes "numbers_distinct ls" "search_resource ls (r_number r) = Some r" "do_lock d ls i r = (d', ls')"
  shows "quiet d d' \<and> rows_meta ls ls' \<and> numbers_distinct ls'"
proof -
  obtain m r1 rv where o: "lock_or_queue (dmem d) r i = (m, r1, rv)" by (metis prod_cases3)
  note meta = lock_or_queue_meta [OF o]
  define d2 where "d2 = (if in_nodeid i = our_nodeid d \<and> rv \<noteq> - EINPROGRESS
    then write_result (d\<lparr>dmem := m\<rparr>) ls i rv else d\<lparr>dmem := m\<rparr>)"
  have "quiet d d2" by (simp add: d2_def)
  moreover have "finish_op d2 ls r1 = (d', ls')"
    using assms(3) by (simp add: do_lock_def o d2_def Let_def split: if_splits)
  moreover have "r_number r1 = r_number r" using meta by (simp add: same_meta_def)
  ultimately show ?thesis
    using finish_op_frame [OF assms(1) _ meta] assms(2) quiet_trans by metis
qed

lemma do_unlock_frame:
  assumes "numbers_distinct ls" "search_resource ls (r_number r) = Some r" "do_unlock d ls i r = (d', ls')"
  shows "quiet d d' \<and> rows_meta ls ls' \<and> numbers_distinct ls'"
proof -
  obtain m r1 rv where o: "unlock_internal (dmem d) r i = (m, r1, rv)" by (metis prod_cases3)
  note meta = unlock_internal_meta [OF o]
  define d2 where "d2 = (if in_nodeid i = our_nodeid d
    then write_result (d\<lparr>dmem := m\<rparr>) ls i rv else d\<lparr>dmem := m\<rparr>)"
  have "quiet d d2" by (simp add: d2_def)
  moreover have "finish_op d2 ls r1 = (d', ls')"
    using assms(3) by (simp add: do_unlock_def o d2_def Let_def split: if_splits)
  moreover have "r_number r1 = r_number r" using meta by (simp add: same_meta_def)
  ultimately show ?thesis
    using finish_op_frame [OF assms(1) _ meta] assms(2) quiet_trans by metis
qed

lemma do_get_quiet: "quiet d (do_get d ls i r)"
  by (simp add: do_get_def split: prod.splits)

lemma receive_plock_op_frame:
  assumes "numbers_distinct ls" "search_resource ls (r_number r) = Some r"
    and "receive_plock_op d ls i from r = (d', ls')"
  shows "quiet d d' \<and> rows_meta ls ls' \<and> numbers_distinct ls'"
proof (cases "in_optype i")
  case DLM_PLOCK_OP_LOCK
  with assms do_lock_frame [of "ls\<lparr>ls_last_plock_time := time_now d\<rparr>" r d i d' ls'] show ?thesis
    by (simp add: receive_plock_op_def)
next
  case DLM_PLOCK_OP_UNLOCK
  with assms do_unlock_frame [of "ls\<lparr>ls_last_plock_time := time_now d\<rparr>" r d i d' ls'] show ?thesis
    by (simp add: receive_plock_op_def)
next
  case DLM_PLOCK_OP_GET
  with assms show ?thesis by (auto simp: receive_plock_op_def do_get_quiet)
next
  case Plock_op_other
  with assms show ?thesis by (auto simp: receive_plock_op_def split: if_splits)
qed

subsection \<open>The invariant\<close>

definition res_ok :: "resource \<Rightarrow> bool" where
  "res_ok r = (res_wf r \<and> (\<forall>w\<in>set (r_pending r). info_wf (w_info w)))"

definition ls_wf :: "lockspace \<Rightarrow> bool" where
  "ls_wf ls = (numbers_distinct ls \<and> (\<forall>r\<in>set (ls_plock_resources ls). res_ok r))"

lemma ls_wf_rows: "ls_wf ls \<longleftrightarrow> numbers_distinct ls \<and> restab.all_rows res_ok ls"
  unfolding ls_wf_def restab.all_rows_def by (auto simp: search_resource_in)

lemma ls_wf_table: "ls_wf ls \<Longrightarrow> table_wf ls"
  by (auto simp: ls_wf_def table_wf_def res_ok_def)

lemma ls_wf_look: "ls_wf ls \<Longrightarrow> search_resource ls n = Some r \<Longrightarrow> res_ok r"
  by (auto simp: ls_wf_rows intro: restab.all_rowsD)

lemma ls_wf_set [wf_intros]:
  "ls_wf ls \<Longrightarrow> search_resource ls (r_number r) \<noteq> None \<Longrightarrow> res_ok r \<Longrightarrow> ls_wf (set_resource ls r)"
  by (simp add: ls_wf_rows restab.put_all_rows restab.put_inv)

lemma ls_wf_del [wf_intros]: "ls_wf ls \<Longrightarrow> ls_wf (del_resource ls r)"
  by (simp add: ls_wf_rows restab.del_all_rows restab.del_inv)

lemma ls_wf_meta:
  assumes "ls_wf ls" "table_wf ls'" "rows_meta ls ls'"
  shows "ls_wf ls'"
  unfolding ls_wf_rows restab.all_rows_def
proof (intro conjI allI impI)
  show "numbers_distinct ls'" using assms(2) by (simp add: table_wf_def)
  fix n r' assume l: "search_resource ls' n = Some r'"
  with assms(3) obtain r where "search_resource ls n = Some r" "same_meta r r'"
    unfolding rows_meta_def by blast
  with ls_wf_look [OF assms(1)] table_wf_look [OF assms(2) l] show "res_ok r'"
    by (auto simp: res_ok_def same_meta_def)
qed

lemma op_step_wf: "op_step d ls n c q a (d', ls') \<Longrightarrow> table_wf ls' \<and> mem_ok (dmem d')"
  by (auto simp: op_step_def split: prod.splits)

lemma receive_plock_op_wf:
  assumes "ls_wf ls" "search_resource ls (r_number r) = Some r" "info_wf i" "mem_ok (dmem d)"
    and "receive_plock_op d ls i from r = (d', ls')"
  shows "ls_wf ls' \<and> mem_ok (dmem d')"
proof -
  have t: "table_wf (ls\<lparr>ls_last_plock_time := x\<rparr>)" for x using ls_wf_table [OF assms(1)] by simp
  have r: "res_wf r" using ls_wf_look [OF assms(1,2)] by (simp add: res_ok_def)
  have s: "search_resource (ls\<lparr>ls_last_plock_time := x\<rparr>) (r_number r) \<noteq> None" for x using assms(2) by simp
  have "table_wf ls' \<and> mem_ok (dmem d')"
  proof (cases "in_optype i")
    case DLM_PLOCK_OP_LOCK
    with assms(5) have "do_lock d (ls\<lparr>ls_last_plock_time := time_now d\<rparr>) i r = (d', ls')"
      by (simp add: receive_plock_op_def)
    then show ?thesis using do_lock_step [OF t s r assms(3,4)] op_step_wf by (metis prod_cases3)
  next
    case DLM_PLOCK_OP_UNLOCK
    with assms(5) have "do_unlock d (ls\<lparr>ls_last_plock_time := time_now d\<rparr>) i r = (d', ls')"
      by (simp add: receive_plock_op_def)
    then show ?thesis using do_unlock_step [OF t s r assms(3,4)] op_step_wf by metis
  next
    case DLM_PLOCK_OP_GET
    with assms ls_wf_table show ?thesis
      by (auto simp: receive_plock_op_def do_get_def write_result_reply split: prod.splits)
  next
    case Plock_op_other
    with assms ls_wf_table show ?thesis
      by (auto simp: receive_plock_op_def write_result_reply split: if_splits)
  qed
  moreover have "rows_meta ls ls'"
    using receive_plock_op_frame [OF _ assms(2,5)] assms(1) by (simp add: ls_wf_def)
  ultimately show ?thesis using ls_wf_meta [OF assms(1)] by blast
qed

subsection \<open>Sending and queueing keep the environment sound\<close>

lemma send_message_dmem [simp]: "dmem (fst (send_message d m)) = dmem d"
  by (simp add: send_message_def split: prod.splits)

lemma dlm_send_message_dmem [simp]: "dmem (dlm_send_message d ls h b) = dmem d"
  by (simp add: dlm_send_message_def)

lemma send_struct_info_mem [simp]: "mem_ok (dmem d) \<Longrightarrow> mem_ok (dmem (fst (send_struct_info d ls i t)))"
  using malloc_keeps_ok [of "dmem d"] by (auto simp: send_struct_info_def split: prod.splits option.splits)

lemma send_struct_info_ok: "mem_ok (dmem d) \<Longrightarrow> snd (send_struct_info d ls i t) = 0"
  using malloc_keeps_ok [of "dmem d"] by (auto simp: send_struct_info_def split: prod.splits option.splits)

lemma send_mem [simp]:
  "mem_ok (dmem d) \<Longrightarrow> mem_ok (dmem (send_plock d ls i))"
  "mem_ok (dmem d) \<Longrightarrow> mem_ok (dmem (send_own d ls r owner))"
  "mem_ok (dmem d) \<Longrightarrow> mem_ok (dmem (send_drop d ls r))"
  by (simp_all add: send_plock_def send_own_def send_drop_def)

lemma send_pending_loop_mem: "mem_ok (dmem d) \<Longrightarrow> mem_ok (dmem (send_pending_loop d ls ws))"
  by (induction ws arbitrary: d) simp_all

lemma save_pending_ok:
  assumes "save_pending_plock d r i = (d', r')" "mem_ok (dmem d)"
  shows "mem_ok (dmem d')" "res_ok r \<Longrightarrow> info_wf i \<Longrightarrow> res_ok r'" "r_number r' = r_number r"
  using assms malloc_keeps_ok [of "dmem d"]
  by (auto simp: save_pending_plock_def res_ok_def res_wf_def split: prod.splits option.splits)

lemma find_resource_wf:
  assumes "find_resource d ls n create = (d', ls', ro, rv)" "ls_wf ls" "mem_ok (dmem d)"
  shows "ls_wf ls' \<and> mem_ok (dmem d') \<and> (\<forall>r. ro = Some r \<longrightarrow> search_resource ls' n = Some r \<and> res_ok r \<and> r_number r = n)"
proof (cases "search_resource ls n")
  case None
  let ?new = "\<lparr>r_number = n, r_owner = (if cfgd_plock_ownership d then -1 else 0), r_flags = 0,
     r_last_access = now d, r_locks = [], r_waiters = [], r_pending = []\<rparr>"
  have "res_ok ?new" by (simp add: res_ok_def res_wf_def locks_wf_def exclusive_def)
  moreover have "n \<notin> r_number ` set (ls_plock_resources ls)"
    using None by (auto simp: search_resource_def find_None_iff)
  ultimately have "ls_wf (ls\<lparr>ls_plock_resources := ls_plock_resources ls @ [?new]\<rparr>)"
    using assms(2) by (auto simp: ls_wf_def numbers_distinct_def)
  moreover have "search_resource (ls\<lparr>ls_plock_resources := ls_plock_resources ls @ [?new]\<rparr>) n = Some ?new"
    using None by (simp add: search_resource_def find_append)
  ultimately show ?thesis
    using assms None \<open>res_ok ?new\<close> malloc_keeps_ok [of "dmem d"]
    by (auto simp: find_resource_def Let_def split: if_splits prod.splits option.splits)
next
  case (Some r)
  have r: "r_number r = n" "res_ok r" using restab.look_key [OF Some] ls_wf_look [OF assms(2) Some] by auto
  let ?r = "r\<lparr>r_last_access := now d\<rparr>"
  have "res_ok ?r" using r(2) by (simp add: res_ok_def res_wf_def)
  moreover have "search_resource ls (r_number ?r) \<noteq> None" using Some r by simp
  ultimately have "ls_wf (set_resource ls ?r)" "search_resource (set_resource ls ?r) n = Some ?r"
    using ls_wf_set [OF assms(2)] restab.look_put [of ls ?r] r by auto
  then show ?thesis
    using assms Some r \<open>res_ok ?r\<close> by (auto simp: find_resource_def Let_def)
qed

subsection \<open>Every handler keeps the invariant\<close>

definition msg_info :: "daemon \<Rightarrow> body \<Rightarrow> dlm_plock_info" where
  "msg_info d b = info_bswap_in (big_endian d) (body_plock b)"

lemma count_recv_frame [simp]:
  "dmem (count_recv d) = dmem d" "our_nodeid (count_recv d) = our_nodeid d"
  "cfgd_plock_ownership (count_recv d) = cfgd_plock_ownership d"
  by (simp_all add: count_recv_def Let_def)

lemma count_read_frame [simp]:
  "dmem (count_read d) = dmem d" "our_nodeid (count_read d) = our_nodeid d"
  "cfgd_plock_ownership (count_read d) = cfgd_plock_ownership d"
  by (simp_all add: count_read_def Let_def)

lemma hold_wf:
  assumes "ls_wf ls" "mem_ok (dmem d)" "search_resource ls (r_number r) \<noteq> None" "res_ok r" "info_wf i"
    and "save_pending_plock d r i = (d', r')"
  shows "ls_wf (set_resource ls r') \<and> mem_ok (dmem d')"
  using save_pending_ok [OF assms(6,2)] assms by (auto intro!: ls_wf_set)

lemma hold_own_plock_wf:
  assumes "ls_wf ls" "mem_ok (dmem d)" "search_resource ls (r_number r) \<noteq> None" "res_ok r" "info_wf i"
    and "hold_own_plock d ls from i r = (d', ls')"
  shows "ls_wf ls' \<and> mem_ok (dmem d')"
  using assms(6) hold_wf [OF assms(1-5)] assms(1,2)
  by (auto simp: hold_own_plock_def split: if_splits prod.splits)

lemma receive_plock_missing_wf:
  assumes "ls_wf ls" "mem_ok (dmem d)" "info_wf i" "receive_plock_missing d ls from i = (d', ls')"
  shows "ls_wf ls' \<and> mem_ok (dmem d')"
proof -
  obtain d1 ls1 ro rv where f: "find_resource d ls (in_number i) True = (d1, ls1, ro, rv)"
    by (metis prod_cases4)
  have w: "ls_wf ls1 \<and> mem_ok (dmem d1) \<and> (\<forall>r. ro = Some r \<longrightarrow>
      search_resource ls1 (in_number i) = Some r \<and> res_ok r \<and> r_number r = in_number i)"
    using find_resource_wf [OF f assms(1,2)] by blast
  show ?thesis
  proof (cases ro)
    case None
    with assms f w show ?thesis by (auto simp: receive_plock_missing_def split: if_splits)
  next
    case (Some r)
    then have "ls_wf (set_resource ls1 r2) \<and> mem_ok (dmem d2)"
      if "save_pending_plock (send_own d1 ls1 r (our_nodeid d1)) r i = (d2, r2)" for d2 r2
      using w by (intro hold_wf [OF _ _ _ _ assms(3) that]) auto
    then show ?thesis
      using assms f Some by (auto simp: receive_plock_missing_def split: if_splits prod.splits)
  qed
qed

lemma receive_plock_owner_wf:
  assumes "ls_wf ls" "mem_ok (dmem d)" "info_wf i" "search_resource ls (r_number r) = Some r"
    and "receive_plock_owner d ls from i r = (d', ls')"
  shows "ls_wf ls' \<and> mem_ok (dmem d')"
proof -
  have r: "res_ok r" "search_resource ls (r_number r) \<noteq> None"
    using ls_wf_look [OF assms(1,4)] assms(4) by auto
  show ?thesis
    using assms(1,2,5) receive_plock_op_wf [OF assms(1,4,3,2)] hold_own_plock_wf [OF assms(1,2) r(2,1) assms(3)]
    by (auto simp: receive_plock_owner_def split: if_splits)
qed

lemma receive_plock_now_wf:
  assumes "ls_wf ls" "mem_ok (dmem d)" "info_wf (msg_info d b)" "receive_plock_now d ls h b = (d', ls')"
  shows "ls_wf ls' \<and> mem_ok (dmem d')"
proof -
  let ?i = "msg_info d b" and ?d = "count_recv d"
  obtain d1 ls1 ro rv where f: "find_resource ?d ls (in_number ?i) (\<not> cfgd_plock_ownership d) = (d1, ls1, ro, rv)"
    by (metis prod_cases4)
  have m: "mem_ok (dmem ?d)" using assms(2) by simp
  note w = find_resource_wf [OF f assms(1) m]
  consider "d' = ?d" "ls' = ls"
    | "ro = None" "receive_plock_missing d1 ls1 (hd_nodeid h) ?i = (d', ls')"
    | r where "ro = Some r" "receive_plock_owner d1 ls1 (hd_nodeid h) ?i r = (d', ls')"
    using assms(4) f unfolding receive_plock_now_def msg_info_def
    by (auto simp: Let_def split: if_splits option.splits)
  then show ?thesis
  proof cases
    case 1
    then show ?thesis using assms(1) m by simp
  next
    case 2
    then show ?thesis using w by (intro receive_plock_missing_wf [OF _ _ assms(3)]) auto
  next
    case 3
    then show ?thesis using w by (intro receive_plock_owner_wf [OF _ _ assms(3) _ 3(2)]) auto
  qed
qed

lemma receive_drop_now_wf:
  assumes "ls_wf ls" "mem_ok (dmem d)" "receive_drop_now d ls h b = (d', ls')"
  shows "ls_wf ls' \<and> mem_ok (dmem d')"
proof -
  obtain d1 ls1 ro rv where f: "find_resource d ls (in_number (msg_info d b)) False = (d1, ls1, ro, rv)"
    by (metis prod_cases4)
  from find_resource_wf [OF f assms(1,2)] assms(3) f show ?thesis
    unfolding receive_drop_now_def msg_info_def
    by (auto simp: Let_def intro: ls_wf_del split: if_splits option.splits)
qed

lemma add_pending_loop_wf:
  assumes "ls_wf ls" "mem_ok (dmem d)" "\<forall>w\<in>set ws. info_wf (w_info w)"
    and "add_pending_loop d ls n ws = (d', ls')"
  shows "ls_wf ls' \<and> mem_ok (dmem d')"
  using assms
proof (induction ws arbitrary: d ls)
  case (Cons w ws)
  show ?case
  proof (cases "search_resource ls n")
    case None
    then show ?thesis using Cons.prems by simp
  next
    case (Some r)
    have s: "search_resource ls (r_number r) = Some r" using Some restab.look_key [OF Some] by simp
    obtain d1 ls1 where o: "receive_plock_op d ls (w_info w) (our_nodeid d) r = (d1, ls1)" by force
    have w1: "ls_wf ls1 \<and> mem_ok (dmem d1)"
      using receive_plock_op_wf [OF Cons.prems(1) s _ Cons.prems(2) o] Cons.prems(3) by simp
    show ?thesis
    proof (cases "search_resource ls1 n")
      case None
      then show ?thesis using Cons.prems(4) Some o w1 by simp
    next
      case S1: (Some r1)
      have r1: "res_ok r1" "r_number r1 = n" using ls_wf_look S1 w1 restab.look_key by blast+
      then have "res_ok (r1\<lparr>r_pending := tl (r_pending r1)\<rparr>)"
        by (cases "r_pending r1") (auto simp: res_ok_def res_wf_def)
      then have "ls_wf (set_resource ls1 (r1\<lparr>r_pending := tl (r_pending r1)\<rparr>))"
        using w1 S1 r1 by (auto intro: ls_wf_set)
      then show ?thesis using Cons.IH [of _ d1] Cons.prems(3,4) Some o S1 w1 by simp
    qed
  qed
qed simp

definition po_core :: "posix_lock \<Rightarrow> posix_lock" where
  "po_core po = po\<lparr>po_flags := 0\<rparr>"

lemma po_core_flags [simp]: "po_core (po\<lparr>po_flags := f\<rparr>) = po_core po"
  by (simp add: po_core_def)

lemma cover_core: "cover (map po_core pos) = cover pos"
  by (simp add: cover_def po_cover_def po_core_def)

lemma locks_wf_core: "locks_wf (map po_core pos) = locks_wf pos"
proof -
  have "po_disj (po_core a) (po_core b) = po_disj a b" "po_valid (po_core a) = po_valid a" for a b
    by (simp_all add: po_core_def po_disj_def po_valid_def)
  then show ?thesis by (simp add: locks_wf_def sorted_wrt_map)
qed

lemma res_wf_core:
  assumes "map po_core (r_locks r') = map po_core (r_locks r)"
    and "map w_info (r_waiters r') = map w_info (r_waiters r)"
  shows "res_wf r' = res_wf r"
proof -
  have "set (map w_info (r_waiters r')) = set (map w_info (r_waiters r))" using assms(2) by simp
  then have "(\<forall>w\<in>set (r_waiters r'). info_wf (w_info w)) = (\<forall>w\<in>set (r_waiters r). info_wf (w_info w))"
    by (metis (mono_tags, lifting) imageE image_eqI list.set_map)
  then show ?thesis
    using assms(1) cover_core [of "r_locks r"] cover_core [of "r_locks r'"]
      locks_wf_core [of "r_locks r"] locks_wf_core [of "r_locks r'"]
    by (simp add: res_wf_def)
qed

lemma send_syncs_locks_core:
  "send_syncs_locks d ls r pos = (d', pos', ok) \<Longrightarrow>
   map po_core pos' = map po_core pos \<and> (mem_ok (dmem d) \<longrightarrow> mem_ok (dmem d') \<and> ok)"
proof (induction pos arbitrary: d pos' ok)
  case (Cons po pos)
  obtain d1 rv where o: "send_struct_info d ls (sync_info r po) DLM_MSG_PLOCK_SYNC_LOCK = (d1, rv)"
    by force
  have "mem_ok (dmem d) \<Longrightarrow> mem_ok (dmem d1) \<and> rv = 0"
    using send_struct_info_mem [of d ls "sync_info r po" DLM_MSG_PLOCK_SYNC_LOCK]
      send_struct_info_ok [of d ls "sync_info r po" DLM_MSG_PLOCK_SYNC_LOCK] o by simp
  then show ?case using Cons o by (auto split: if_splits prod.splits)
qed simp

lemma send_syncs_waiters_core:
  "send_syncs_waiters d ls ws = (d', ws') \<Longrightarrow>
   map w_info ws' = map w_info ws \<and> (mem_ok (dmem d) \<longrightarrow> mem_ok (dmem d'))"
proof (induction ws arbitrary: d ws')
  case (Cons w ws)
  obtain d1 rv where o: "send_struct_info d ls (w_info w) DLM_MSG_PLOCK_SYNC_WAITER = (d1, rv)" by force
  have "mem_ok (dmem d) \<Longrightarrow> mem_ok (dmem d1)"
    using send_struct_info_mem [of d ls "w_info w" DLM_MSG_PLOCK_SYNC_WAITER] o by simp
  then show ?case using Cons o by (auto split: if_splits prod.splits)
qed simp

lemma send_syncs_core:
  assumes "send_syncs d ls r = (d', r')"
  shows "map po_core (r_locks r') = map po_core (r_locks r)" "map w_info (r_waiters r') = map w_info (r_waiters r)"
    "same_meta r r'" "mem_ok (dmem d) \<longrightarrow> mem_ok (dmem d')"
proof -
  obtain d1 pos ok where l: "send_syncs_locks d ls r (r_locks r) = (d1, pos, ok)" by (metis prod_cases3)
  obtain d2 ws where w: "send_syncs_waiters d1 ls (r_waiters r) = (d2, ws)" by force
  note c = send_syncs_locks_core [OF l] send_syncs_waiters_core [OF w]
  show "map po_core (r_locks r') = map po_core (r_locks r)" "map w_info (r_waiters r') = map w_info (r_waiters r)"
    "same_meta r r'" "mem_ok (dmem d) \<longrightarrow> mem_ok (dmem d')"
    using assms l w c by (auto simp: send_syncs_def split: if_splits)
qed

lemma send_syncs_ok: "send_syncs d ls r = (d', r') \<Longrightarrow> res_ok r \<Longrightarrow> res_ok r'"
  using send_syncs_core [of d ls r d' r'] res_wf_core [of r' r]
  by (auto simp: res_ok_def same_meta_def)

lemma clear_syncing_core:
  "map po_core (r_locks (clear_syncing_flag r i)) = map po_core (r_locks r)"
  "map w_info (r_waiters (clear_syncing_flag r i)) = map w_info (r_waiters r)"
  "same_meta r (clear_syncing_flag r i)"
  by (auto simp: clear_syncing_flag_def map_first_map)

lemma clear_syncing_ok: "res_ok r \<Longrightarrow> res_ok (clear_syncing_flag r i)"
  using clear_syncing_core [of r i] res_wf_core [of "clear_syncing_flag r i" r]
  by (auto simp: res_ok_def same_meta_def)

lemma send_pending_plocks_ok:
  assumes "send_pending_plocks d ls r = (d', r')"
  shows "r' = r\<lparr>r_pending := []\<rparr>" "mem_ok (dmem d) \<Longrightarrow> mem_ok (dmem d')"
  using assms send_pending_loop_mem by (auto simp: send_pending_plocks_def)

lemma res_wf_fields [simp]:
  "res_wf (r\<lparr>r_owner := x\<rparr>) = res_wf r" "res_wf (r\<lparr>r_flags := f\<rparr>) = res_wf r"
  "res_wf (r\<lparr>r_pending := p\<rparr>) = res_wf r"
  by (simp_all add: res_wf_def)

lemma res_ok_fields [simp]:
  "res_ok (r\<lparr>r_owner := x\<rparr>) = res_ok r" "res_ok (r\<lparr>r_flags := f\<rparr>) = res_ok r"
  "res_ok r \<Longrightarrow> res_ok (r\<lparr>r_pending := []\<rparr>)"
  by (auto simp: res_ok_def res_wf_def)

lemma receive_own_ours_wf:
  assumes "ls_wf ls" "mem_ok (dmem d)" "search_resource ls (r_number r) = Some r"
    and "receive_own_ours d ls nodeid r = (d', ls')"
  shows "ls_wf ls' \<and> mem_ok (dmem d')"
proof -
  have r: "res_ok r" "search_resource ls (r_number r) \<noteq> None"
    using ls_wf_look [OF assms(1,3)] assms(3) by auto
  have set: "ls_wf (set_resource ls x)" if "res_ok x" "r_number x = r_number r" for x
    using that r assms(1) by (intro ls_wf_set) simp_all
  have pend: "ls_wf ls' \<and> mem_ok (dmem d')"
    if "add_pending_plocks d (set_resource ls (r\<lparr>r_owner := our_nodeid d\<rparr>)) (r\<lparr>r_owner := our_nodeid d\<rparr>) = (d', ls')"
    using that r(1) unfolding add_pending_plocks_def
    by (intro add_pending_loop_wf [OF set assms(2)]) (auto simp: res_ok_def)
  show ?thesis
    using assms(1,2,4) pend set r
    by (auto simp: receive_own_ours_def Let_def dest: send_pending_plocks_ok split: if_splits prod.splits)
qed

lemma receive_own_other_wf:
  assumes "ls_wf ls" "mem_ok (dmem d)" "search_resource ls (r_number r) = Some r"
    and "receive_own_other d ls from nodeid r = (d', ls')"
  shows "ls_wf ls' \<and> mem_ok (dmem d')"
proof -
  have r: "res_ok r" "search_resource ls (r_number r) \<noteq> None"
    using ls_wf_look [OF assms(1,3)] assms(3) by auto
  have set: "ls_wf (set_resource ls x)" if "res_ok x" "r_number x = r_number r" for x
    using that r assms(1) by (intro ls_wf_set) simp_all
  have sync: "ls_wf (set_resource ls (r1\<lparr>r_owner := 0\<rparr>)) \<and> mem_ok (dmem (send_own d1 ls r1 0))"
    if "send_syncs d ls r = (d1, r1)" for d1 r1
    using send_syncs_core(3,4) [OF that] send_syncs_ok [OF that r(1)] assms(2)
    by (auto intro!: set simp: same_meta_def)
  show ?thesis
    using assms(1,2,4) sync set r
    by (auto simp: receive_own_other_def dest: send_pending_plocks_ok split: if_splits prod.splits)
qed

lemma receive_own_now_wf:
  assumes "ls_wf ls" "mem_ok (dmem d)" "receive_own_now d ls h b = (d', ls')"
  shows "ls_wf ls' \<and> mem_ok (dmem d')"
proof -
  obtain d1 ls1 ro rv where f: "find_resource d ls (in_number (msg_info d b)) True = (d1, ls1, ro, rv)"
    by (metis prod_cases4)
  note w = find_resource_wf [OF f assms(1,2)]
  show ?thesis
  proof (cases ro)
    case None
    then show ?thesis using w assms(3) f by (auto simp: receive_own_now_def msg_info_def Let_def)
  next
    case (Some r)
    then have r: "ls_wf ls1" "mem_ok (dmem d1)" "search_resource ls1 (r_number r) = Some r" using w by auto
    show ?thesis
      using assms(3) f Some receive_own_ours_wf [OF r] receive_own_other_wf [OF r]
      by (auto simp: receive_own_now_def msg_info_def Let_def split: if_splits)
  qed
qed

text \<open>
  A lock that another node synchronises to us may be added when it does not overlap a lock of its
  owner and conflicts with no other lock.
\<close>

definition sync_fits :: "resource \<Rightarrow> dlm_plock_info \<Rightarrow> bool" where
  "sync_fits r i = (info_wf i \<and> (\<forall>po\<in>set (r_locks r). clear_of i po) \<and> \<not> fst (is_conflict r i False))"

lemma sync_fits_add:
  assumes "res_ok r" "sync_fits r i"
  shows "res_ok (r\<lparr>r_locks := r_locks r @ [\<lparr>po_pid = in_pid i, po_owner = in_owner i, po_start = in_start i,
     po_end = in_end i, po_ex = in_ex i, po_nodeid = in_nodeid i, po_flags = f\<rparr>]\<rparr>)"
proof -
  let ?po = "\<lparr>po_pid = in_pid i, po_owner = in_owner i, po_start = in_start i,
     po_end = in_end i, po_ex = in_ex i, po_nodeid = in_nodeid i, po_flags = f\<rparr>"
  have wf: "locks_wf (r_locks r)" "exclusive (cover (r_locks r))" "info_wf i"
    using assms by (auto simp: res_ok_def res_wf_def sync_fits_def)
  have nb: "\<not> blocked i (cover (r_locks r))"
    using assms(2) is_conflict_blocked [OF wf(1,3)] by (simp add: sync_fits_def)
  have "locks_wf (r_locks r @ [?po])"
    using assms(2) wf(1,3) by (intro locks_wf_add [of _ i]) (auto simp: sync_fits_def info_wf_def po_valid_def)
  moreover have "cover (r_locks r @ [?po]) = spec_lock i (cover (r_locks r))"
    using cover_clear [of "r_locks r" i] assms(2) wf(1,3)
    by (simp add: spec_lock_def sync_fits_def locks_wf_def po_cover_def)
  then have "exclusive (cover (r_locks r @ [?po]))" using exclusive_spec_lock [OF wf(2) nb] by simp
  ultimately show ?thesis using assms(1) by (simp add: res_ok_def res_wf_def)
qed

lemma receive_sync_now_wf:
  assumes "ls_wf ls" "mem_ok (dmem d)" "info_wf (msg_info d b)" "receive_sync_now d ls h b = (d', ls')"
    and "\<And>r. hd_nodeid h \<noteq> our_nodeid d \<Longrightarrow> hd_type h = DLM_MSG_PLOCK_SYNC_LOCK \<Longrightarrow>
      search_resource ls (in_number (msg_info d b)) = Some r \<Longrightarrow> sync_fits r (msg_info d b)"
  shows "ls_wf ls' \<and> mem_ok (dmem d')"
proof (cases "search_resource ls (in_number (msg_info d b))")
  case None
  then show ?thesis
    using assms(1,2,4) by (auto simp: receive_sync_now_def find_resource_def msg_info_def Let_def)
next
  case (Some r)
  let ?i = "msg_info d b" and ?r = "r\<lparr>r_last_access := now d\<rparr>"
  let ?ls = "set_resource ls ?r"
  have n: "r_number r = in_number ?i" using restab.look_key [OF Some] .
  have r: "res_ok ?r" using ls_wf_look [OF assms(1) Some] by (simp add: res_ok_def res_wf_def)
  have ls: "ls_wf ?ls" using ls_wf_set [OF assms(1) _ r] Some n by simp
  have "search_resource ?ls (r_number r) = Some ?r" using Some n restab.look_put [of ls ?r] by simp
  then have set: "ls_wf (set_resource ?ls x)" if "res_ok x" "r_number x = r_number r" for x
    using that by (intro ls_wf_set [OF ls]) simp_all
  obtain g m where m: "malloc (dmem d) = (Some g, m)" "mem_ok m" using malloc_mem_ok [OF assms(2)] by blast
  have run: "receive_sync_now d ls h b =
      (if hd_nodeid h = our_nodeid d then (d, set_resource ?ls (clear_syncing_flag ?r ?i))
       else if hd_type h = DLM_MSG_PLOCK_SYNC_LOCK then
         (case add_lock (dmem d) (r_locks r) (in_nodeid ?i) (in_owner ?i) (in_pid ?i) (in_ex ?i)
                 (in_start ?i) (in_end ?i) of
            (m, locks, _) \<Rightarrow> (d\<lparr>dmem := m\<rparr>, set_resource ?ls (?r\<lparr>r_locks := locks\<rparr>)))
       else if hd_type h = DLM_MSG_PLOCK_SYNC_WAITER then
         (case add_waiter (dmem d) ?r ?i of (m, r, _) \<Rightarrow> (d\<lparr>dmem := m\<rparr>, set_resource ?ls r))
       else (d, ?ls))"
    using Some by (simp add: receive_sync_now_def find_resource_def msg_info_def Let_def)
  consider (ours) "hd_nodeid h = our_nodeid d"
    | (lock) "hd_nodeid h \<noteq> our_nodeid d" "hd_type h = DLM_MSG_PLOCK_SYNC_LOCK"
    | (waiter) "hd_nodeid h \<noteq> our_nodeid d" "hd_type h = DLM_MSG_PLOCK_SYNC_WAITER"
    | (other) "hd_nodeid h \<noteq> our_nodeid d" "hd_type h \<noteq> DLM_MSG_PLOCK_SYNC_LOCK" "hd_type h \<noteq> DLM_MSG_PLOCK_SYNC_WAITER"
    by blast
  then show ?thesis
  proof cases
    case ours
    then show ?thesis
      using assms(2,4) run set [OF clear_syncing_ok [OF r, of ?i]] clear_syncing_core(3) [of ?r ?i]
      by (auto simp: same_meta_def)
  next
    case lock
    have "sync_fits ?r ?i" using assms(5) [OF lock Some] by (simp add: sync_fits_def is_conflict_def)
    from set [OF sync_fits_add [OF r this, of 0]] show ?thesis
      using assms(4) run lock m by (auto simp: add_lock_def)
  next
    case waiter
    have "res_ok (?r\<lparr>r_waiters := r_waiters r @ [\<lparr>w_flags = g, w_info = ?i\<rparr>]\<rparr>)"
      using r assms(3) by (auto simp: res_ok_def res_wf_def)
    from set [OF this] show ?thesis using assms(4) run waiter m by (auto simp: add_waiter_def)
  next
    case other
    then show ?thesis using assms(2,4) run ls by auto
  qed
qed

lemma drop_resources_loop_wf:
  assumes "drop_resources_loop d ls count rs = (d', rs')" "mem_ok (dmem d)"
  shows "mem_ok (dmem d') \<and> map r_number rs' = map r_number rs \<and>
    ((\<forall>r\<in>set rs. res_ok r) \<longrightarrow> (\<forall>r\<in>set rs'. res_ok r))"
  using assms
proof (induction rs arbitrary: d count rs')
  case (Cons r rs)
  have IH: "mem_ok (dmem d') \<and> map r_number rs2 = map r_number rs \<and>
      ((\<forall>r\<in>set rs. res_ok r) \<longrightarrow> (\<forall>r\<in>set rs2. res_ok r))"
    if "drop_resources_loop e ls c rs = (d', rs2)" "mem_ok (dmem e)" for e c rs2
    using Cons.IH that by blast
  define e where "e = (if r_owner r = our_nodeid d then send_own d ls r 0
    else if r_owner r = 0 \<and> got_unown r then send_drop d ls r else d)"
  define r1 where "r1 = (if r_owner r = our_nodeid d then r\<lparr>r_owner := 0\<rparr> else r)"
  have e: "mem_ok (dmem e)" "r_number r1 = r_number r" "res_ok r1 = res_ok r"
    using Cons.prems(2) by (auto simp: e_def r1_def)
  have "drop_resources_loop d ls count (r # rs) =
     (if count \<ge> cfgd_drop_resources_count d then (d, r # rs)
      else if (r_owner r \<noteq> 0 \<and> r_owner r \<noteq> our_nodeid d) \<or>
        time_diff_ms (r_last_access r) (now d) < ucast (cfgd_drop_resources_age d) \<or>
        \<not> (r_locks r = [] \<and> r_waiters r = [])
      then (case drop_resources_loop d ls count rs of (d', rs') \<Rightarrow> (d', r # rs'))
      else (case drop_resources_loop e ls (count + 1) rs of (d', rs') \<Rightarrow> (d', r1 # rs')))"
    by (auto simp: e_def r1_def)
  with Cons.prems IH [of d] IH [of e] e show ?case by (auto split: if_splits prod.splits)
qed simp

lemma drop_resources_wf:
  assumes "ls_wf ls" "mem_ok (dmem d)" "drop_resources d ls = (d', ls')"
  shows "ls_wf ls' \<and> mem_ok (dmem d')"
proof -
  obtain rs where l: "drop_resources_loop d ls 0 (rev (ls_plock_resources ls)) = (d', rs)"
      "ls' = ls\<lparr>ls_plock_resources := rev rs\<rparr>"
    using assms(3) by (auto simp: drop_resources_def split: prod.splits)
  from drop_resources_loop_wf [OF l(1) assms(2)] assms(1) l(2) show ?thesis
    by (auto simp: ls_wf_def numbers_distinct_def simp flip: rev_map)
qed

lemma locks_wf_filter: "locks_wf pos \<Longrightarrow> locks_wf (filter P pos)"
  by (auto simp: locks_wf_def sorted_wrt_filter)

lemma cover_filter: "cover (filter P pos) \<subseteq> cover pos"
  by (auto simp: cover_def)

lemma exclusive_mono: "exclusive c \<Longrightarrow> c' \<subseteq> c \<Longrightarrow> exclusive c'"
  unfolding exclusive_def by blast

lemma purge_lists_ok: "res_ok r \<Longrightarrow> res_ok (purge_lists nodeid unmount r)"
  by (auto simp: res_ok_def res_wf_def purge_lists_def intro: locks_wf_filter exclusive_mono [OF _ cover_filter])

lemma purge_lists_number [simp]: "r_number (purge_lists nodeid unmount r) = r_number r"
  by (simp add: purge_lists_def)

lemma purge_resource_stages:
  assumes "purge_resource d ls nodeid unmount r = (d', ro, n)"
  obtains d1 r1 d2 r2 where
    "(if r_owner r = nodeid
      then send_pending_plocks d ls ((purge_lists nodeid unmount r)\<lparr>r_owner := 0\<rparr>)
      else (d, purge_lists nodeid unmount r)) = (d1, r1)"
    "(if r_waiters r1 \<noteq> [] then do_waiters d1 ls r1 else (d1, r1)) = (d2, r2)"
    "d' = d2" "ro = (if \<not> cfgd_plock_ownership d2 \<and> r_locks r2 = [] \<and> r_waiters r2 = [] then None else Some r2)"
proof -
  obtain d1 r1 where 1: "(if r_owner r = nodeid
      then send_pending_plocks d ls ((purge_lists nodeid unmount r)\<lparr>r_owner := 0\<rparr>)
      else (d, purge_lists nodeid unmount r)) = (d1, r1)" by force
  obtain d2 r2 where 2: "(if r_waiters r1 \<noteq> [] then do_waiters d1 ls r1 else (d1, r1)) = (d2, r2)" by force
  show thesis
    using that [OF 1 2] assms by (auto simp: purge_resource_def 1 2 Let_def)
qed

lemma do_waiters_ok:
  assumes "res_ok r" "mem_ok (dmem d)" "do_waiters d ls r = (d', r')"
  shows "res_ok r' \<and> mem_ok (dmem d')"
proof -
  obtain c k g where "spec_waiters (map w_info (r_waiters r)) (cover (r_locks r)) = (c, k, g)"
    by (metis prod_cases3)
  from do_waiters_refines [OF _ assms(2) this, of ls] assms(1,3) do_waiters_frame [OF assms(3)]
  show ?thesis by (auto simp: res_ok_def same_meta_def)
qed

lemma purge_resource_ok:
  assumes "purge_resource d ls nodeid unmount r = (d', ro, n)" "res_ok r" "mem_ok (dmem d)"
  shows "mem_ok (dmem d') \<and> (\<forall>r'. ro = Some r' \<longrightarrow> res_ok r' \<and> r_number r' = r_number r)"
proof -
  obtain d1 r1 d2 r2 where st: "(if r_owner r = nodeid
      then send_pending_plocks d ls ((purge_lists nodeid unmount r)\<lparr>r_owner := 0\<rparr>)
      else (d, purge_lists nodeid unmount r)) = (d1, r1)"
    "(if r_waiters r1 \<noteq> [] then do_waiters d1 ls r1 else (d1, r1)) = (d2, r2)"
    "d' = d2" "ro = (if \<not> cfgd_plock_ownership d2 \<and> r_locks r2 = [] \<and> r_waiters r2 = [] then None else Some r2)"
    using assms(1) by (rule purge_resource_stages)
  have 1: "res_ok r1" "mem_ok (dmem d1)" "r_number r1 = r_number r"
    using st(1) assms(3) purge_lists_ok [OF assms(2), of nodeid unmount]
    by (auto split: if_splits dest: send_pending_plocks_ok)
  have "res_ok r2" "mem_ok (dmem d2)" "r_number r2 = r_number r1"
    using st(2) do_waiters_ok [OF 1(1,2)] do_waiters_frame [of d1 ls r1 d2 r2] 1
    by (auto split: if_splits simp: same_meta_def)
  with 1 st(3,4) show ?thesis by simp
qed

lemma purge_loop_wf:
  assumes "purge_loop d ls nodeid unmount rs = (d', rs', n)" "\<forall>r\<in>set rs. res_ok r" "mem_ok (dmem d)"
    and "distinct (map r_number rs)"
  shows "mem_ok (dmem d') \<and> (\<forall>r\<in>set rs'. res_ok r) \<and> distinct (map r_number rs') \<and>
    r_number ` set rs' \<subseteq> r_number ` set rs"
  using assms
proof (induction rs arbitrary: d d' rs' n)
  case (Cons r rs)
  obtain d1 ro n1 where p: "purge_resource d ls nodeid unmount r = (d1, ro, n1)" by (metis prod_cases3)
  obtain d2 rs2 n2 where l: "purge_loop d1 ls nodeid unmount rs = (d2, rs2, n2)"
    by (cases "purge_loop d1 ls nodeid unmount rs") blast
  have r: "res_ok r" using Cons.prems(2) by simp
  note o = purge_resource_ok [OF p r Cons.prems(3), THEN conjunct1]
    purge_resource_ok [OF p r Cons.prems(3), THEN conjunct2]
  have IH: "mem_ok (dmem d2) \<and> (\<forall>r\<in>set rs2. res_ok r) \<and> distinct (map r_number rs2) \<and>
      r_number ` set rs2 \<subseteq> r_number ` set rs"
    using Cons.IH [OF l] Cons.prems(2,4) o(1) by simp
  have e: "d' = d2" "rs' = (case ro of None \<Rightarrow> rs2 | Some r' \<Rightarrow> r' # rs2)"
    using Cons.prems(1) p l by simp_all
  show ?case
  proof (cases ro)
    case None
    then show ?thesis using IH e by auto
  next
    case (Some r')
    with o(2) have "res_ok r'" "r_number r' = r_number r" by blast+
    then show ?thesis using Some Cons.prems(4) IH e by auto
  qed
qed simp

lemma purge_plocks_wf:
  assumes "ls_wf ls" "mem_ok (dmem d)" "purge_plocks d ls nodeid unmount = (d', ls')"
  shows "ls_wf ls' \<and> mem_ok (dmem d')"
proof -
  obtain d1 rs n where "purge_loop d ls nodeid unmount (ls_plock_resources ls) = (d1, rs, n)"
    by (metis prod_cases3)
  from purge_loop_wf [OF this] this assms show ?thesis
    by (auto simp: purge_plocks_def ls_wf_def numbers_distinct_def Let_def split: if_splits)
qed

lemma process_plock_ls_wf:
  assumes "ls_wf ls" "mem_ok (dmem d)" "info_wf i" "process_plock_ls d ls i = (d', ls')"
  shows "ls_wf ls' \<and> mem_ok (dmem d')"
proof -
  obtain d1 ls1 ro rv where f: "find_resource (count_read d) ls (in_number i) True = (d1, ls1, ro, rv)"
    by (metis prod_cases4)
  have m: "mem_ok (dmem (count_read d))" using assms(2) by simp
  note w = find_resource_wf [OF f assms(1) m]
  show ?thesis
  proof (cases ro)
    case None
    then show ?thesis using w assms(4) f by (auto simp: process_plock_ls_def write_fail_def)
  next
    case (Some r)
    then have r: "ls_wf ls1" "mem_ok (dmem d1)" "search_resource ls1 (r_number r) = Some r" "res_ok r"
      using w by auto
    obtain d2 ls2 where s: "(if r_owner r = 0 then (send_plock d1 ls1 i, ls1)
        else if r_owner r = our_nodeid d1 then receive_plock_op d1 ls1 i (our_nodeid d1) r
        else (case save_pending_plock (send_own d1 ls1 r (our_nodeid d1)) r i of
                (d, r) \<Rightarrow> (d, set_resource ls1 r))) = (d2, ls2)" by force
    have hold: "ls_wf (set_resource ls1 x) \<and> mem_ok (dmem e)"
      if "save_pending_plock (send_own d1 ls1 r (our_nodeid d1)) r i = (e, x)" for e x
      using r by (intro hold_wf [OF _ _ _ _ assms(3) that]) auto
    have w2: "ls_wf ls2" "mem_ok (dmem d2)"
      using s r hold receive_plock_op_wf [OF r(1,3) assms(3) r(2)]
      by (auto split: if_splits prod.splits)
    then have "ls_wf (ls2\<lparr>ls_drop_resources_last := now d2\<rparr>)" by (simp add: ls_wf_def numbers_distinct_def)
    from drop_resources_wf [OF this w2(2)] w2 show ?thesis
      using assms(4) f Some s by (auto simp: process_plock_ls_def split: if_splits)
  qed
qed

end
