(* ===== verification/Dlm_Text.thy ===== *)
theory Dlm_Text
  imports Dlm_Prelude
begin

text \<open>
  Numbers as text: the conversions \<^verbatim>\<open>%llu\<close>, \<^verbatim>\<open>%u\<close>, \<^verbatim>\<open>%d\<close> and \<^verbatim>\<open>%llx\<close> of \<^verbatim>\<open>snprintf\<close> and the scanning of
  \<^verbatim>\<open>%llu\<close> and \<^verbatim>\<open>%d\<close> by \<^verbatim>\<open>sscanf\<close>, as the daemon uses them for checkpoint section ids and dumps.  The
  lemmas give the length of the printed text and that scanning reads back what was printed.
\<close>

lemma word_bound: "unat (x :: 'a::len word) < 2 ^ LENGTH('a)"
  by (rule unsigned_less)

lemma sint_bound: "- (2 ^ 31) \<le> sint (x :: s32) \<and> sint x < 2 ^ 31"
  using sint_greater_eq [of x] sint_less [of x] by simp

subsection \<open>Printing\<close>

definition digit :: "nat \<Rightarrow> char" where
  "digit n = char_of (if n < 10 then 48 + n else 87 + n)"

fun digits :: "nat \<Rightarrow> nat \<Rightarrow> string" where
  "digits base n = (if base < 2 \<or> n < base then [digit n] else digits base (n div base) @ [digit (n mod base)])"

declare digits.simps [simp del]

definition print_nat :: "nat \<Rightarrow> string" where
  "print_nat n = digits 10 n"

definition print_int :: "int \<Rightarrow> string" where
  "print_int i = (if i < 0 then CHR ''-'' # print_nat (nat (- i)) else print_nat (nat i))"

definition print_u64 :: "u64 \<Rightarrow> string" where
  "print_u64 x = print_nat (unat x)"

definition print_u32 :: "u32 \<Rightarrow> string" where
  "print_u32 x = print_nat (unat x)"

definition print_s32 :: "s32 \<Rightarrow> string" where
  "print_s32 x = print_int (sint x)"

definition print_hex :: "u64 \<Rightarrow> string" where
  "print_hex x = digits 16 (unat x)"

text \<open>Printing on integers, whose arithmetic evaluates on the binary representation.\<close>

function int_digits :: "int \<Rightarrow> string" where
  "int_digits n = (if n < 10 then [digit (nat n)] else int_digits (n div 10) @ [digit (nat (n mod 10))])"
  by pat_completeness auto
termination by (relation "measure nat") (simp_all add: nat_mono_iff)

declare int_digits.simps [simp del]

lemma int_digits_int: "int_digits (int n) = print_nat n"
  unfolding print_nat_def
proof (induction n rule: less_induct)
  case (less n)
  show ?case
  proof (cases "n < 10")
    case False
    then have "int_digits (int n div 10) = digits 10 (n div 10)"
      using less.IH [of "n div 10"] by (simp add: zdiv_int)
    moreover have "nat (int n mod 10) = n mod 10" by (simp add: nat_mod_as_int)
    ultimately show ?thesis using False by (simp add: int_digits.simps [of "int n"] digits.simps [of 10 n])
  qed (simp add: int_digits.simps [of "int n"] digits.simps [of 10 n])
qed

lemma int_digits_eq: "0 \<le> n \<Longrightarrow> int_digits n = print_nat (nat n)"
  using int_digits_int [of "nat n"] by simp

lemma print_int_code [code]: "print_int i = (if i < 0 then CHR ''-'' # int_digits (- i) else int_digits i)"
  by (simp add: print_int_def int_digits_eq)

lemma print_u32_code [code]: "print_u32 x = int_digits (uint x)"
  by (simp add: print_u32_def int_digits_eq)

lemma print_u64_code [code]: "print_u64 x = int_digits (uint x)"
  by (simp add: print_u64_def int_digits_eq)

lemma digits_not_Nil [simp]: "digits b n \<noteq> []"
  by (subst digits.simps) auto

lemma length_digits: "2 \<le> b \<Longrightarrow> n < b ^ k \<Longrightarrow> 0 < k \<Longrightarrow> length (digits b n) \<le> k"
proof (induction k arbitrary: n)
  case (Suc k)
  show ?case
  proof (cases "n < b")
    case True
    then show ?thesis by (subst digits.simps) simp
  next
    case False
    have "0 < k" using Suc.prems(2) False by (cases k) auto
    moreover have "n div b < b ^ k" using Suc.prems by (simp add: less_mult_imp_div_less mult.commute)
    ultimately have "length (digits b (n div b)) \<le> k" using Suc.IH Suc.prems(1) by blast
    then show ?thesis using False Suc.prems(1) by (subst digits.simps) simp
  qed
qed simp

lemma length_print_u64: "length (print_u64 x) \<le> 20"
proof -
  have "unat x < 2 ^ 64" using word_bound [of x] by simp
  then have "unat x < 10 ^ 20" by (simp add: order.strict_trans2)
  then show ?thesis unfolding print_u64_def print_nat_def by (intro length_digits) auto
qed

lemma length_print_u32: "length (print_u32 x) \<le> 10"
proof -
  have "unat x < 2 ^ 32" using word_bound [of x] by simp
  then have "unat x < 10 ^ 10" by (simp add: order.strict_trans2)
  then show ?thesis unfolding print_u32_def print_nat_def by (intro length_digits) auto
qed

lemma length_print_s32: "length (print_s32 x) \<le> 11"
proof -
  have "- (2 ^ 31) \<le> sint x \<and> sint x < 2 ^ 31" by (rule sint_bound)
  then have "nat (- sint x) < 10 ^ 10" "nat (sint x) < 10 ^ 10" by auto
  then have "length (print_nat (nat (- sint x))) \<le> 10" "length (print_nat (nat (sint x))) \<le> 10"
    unfolding print_nat_def by (auto intro!: length_digits)
  then show ?thesis by (simp add: print_s32_def print_int_def)
qed

lemma length_print_hex: "length (print_hex x) \<le> 16"
proof -
  have "unat x < 2 ^ 64" using word_bound [of x] by simp
  then show ?thesis unfolding print_hex_def by (intro length_digits) auto
qed

subsection \<open>Scanning\<close>

definition is_digit :: "char \<Rightarrow> bool" where
  "is_digit c = (48 \<le> (of_char c :: nat) \<and> (of_char c :: nat) \<le> 57)"

definition is_space :: "char \<Rightarrow> bool" where
  "is_space c = ((of_char c :: nat) = 32 \<or> 9 \<le> (of_char c :: nat) \<and> (of_char c :: nat) \<le> 13)"

definition digit_value :: "char \<Rightarrow> nat" where
  "digit_value c = of_char c - 48"

definition undigits :: "string \<Rightarrow> nat" where
  "undigits s = foldl (\<lambda>a c. 10 * a + digit_value c) 0 s"

fun scan_sign :: "string \<Rightarrow> bool \<times> string" where
  "scan_sign [] = (False, [])"
| "scan_sign (c # s) = (if c = CHR ''-'' then (True, s) else if c = CHR ''+'' then (False, s) else (False, c # s))"

text \<open>An integer conversion of \<^verbatim>\<open>sscanf\<close>: leading white space, an optional sign, digits.\<close>

definition scan_int :: "string \<Rightarrow> (int \<times> string) option" where
  "scan_int s = (case scan_sign (dropWhile is_space s) of (neg, t) \<Rightarrow>
     if takeWhile is_digit t = [] then None
     else Some ((if neg then - 1 else 1) * int (undigits (takeWhile is_digit t)), dropWhile is_digit t))"

definition is_xdigit :: "char \<Rightarrow> bool" where
  "is_xdigit c = (is_digit c \<or> 97 \<le> (of_char c :: nat) \<and> (of_char c :: nat) \<le> 102 \<or>
     65 \<le> (of_char c :: nat) \<and> (of_char c :: nat) \<le> 70)"

definition xdigit_value :: "char \<Rightarrow> nat" where
  "xdigit_value c = (if is_digit c then of_char c - 48
     else if 97 \<le> (of_char c :: nat) then of_char c - 87 else of_char c - 55)"

fun scan_prefix :: "string \<Rightarrow> string" where
  "scan_prefix (a # b # c # s) =
     (if a = CHR ''0'' \<and> (b = CHR ''x'' \<or> b = CHR ''X'') \<and> is_xdigit c then c # s else a # b # c # s)"
| "scan_prefix s = s"

definition scan_hex :: "string \<Rightarrow> (int \<times> string) option" where
  "scan_hex s = (case scan_sign (dropWhile is_space s) of (neg, t) \<Rightarrow>
     let t = scan_prefix t in
     if takeWhile is_xdigit t = [] then None
     else Some ((if neg then - 1 else 1) * int (foldl (\<lambda>a c. 16 * a + xdigit_value c) 0 (takeWhile is_xdigit t)),
       dropWhile is_xdigit t))"

text \<open>
  The values a format of integer conversions separated by blanks reads, hexadecimal where the list says so;
  reading stops at the first conversion that fails.
\<close>

fun scan_fields :: "bool list \<Rightarrow> string \<Rightarrow> int list" where
  "scan_fields [] s = []"
| "scan_fields (hex # fs) s = (case (if hex then scan_hex s else scan_int s) of
       None \<Rightarrow> []
     | Some (i, t) \<Rightarrow> i # scan_fields fs t)"

text \<open>What \<^verbatim>\<open>%llu\<close> and \<^verbatim>\<open>%d\<close> store (\<^verbatim>\<open>strtoull\<close> and \<^verbatim>\<open>strtol\<close> saturate; \<^verbatim>\<open>%d\<close> keeps the low 32 bits).\<close>

definition ullong_value :: "int \<Rightarrow> u64" where
  "ullong_value i = (if \<bar>i\<bar> < 2 ^ 64 then word_of_int i else - 1)"

definition int_value :: "int \<Rightarrow> s32" where
  "int_value i = word_of_int (max (- (2 ^ 63)) (min i (2 ^ 63 - 1)))"

lemma is_digit_digit: "n < 10 \<Longrightarrow> is_digit (digit n)"
  by (simp add: is_digit_def digit_def of_char_of)

lemma digit_value_digit: "n < 10 \<Longrightarrow> digit_value (digit n) = n"
  by (simp add: digit_value_def digit_def of_char_of)

lemma print_nat_digits: "c \<in> set (print_nat n) \<Longrightarrow> is_digit c"
  unfolding print_nat_def
proof (induction n rule: less_induct)
  case (less n)
  show ?case
  proof (cases "n < 10")
    case True
    then show ?thesis using less.prems by (simp add: digits.simps [of 10 n] is_digit_digit)
  next
    case False
    then have "c \<in> set (digits 10 (n div 10)) \<or> c = digit (n mod 10)"
      using less.prems by (auto simp: digits.simps [of 10 n])
    then show ?thesis using less.IH [of "n div 10"] False by (auto simp: is_digit_digit)
  qed
qed

lemma print_nat_not_Nil [simp]: "print_nat n \<noteq> []"
  by (simp add: print_nat_def)

lemma undigits_print_nat: "undigits (print_nat n) = n"
  unfolding print_nat_def
proof (induction n rule: less_induct)
  case (less n)
  then show ?case
    by (subst digits.simps) (auto simp: undigits_def digit_value_digit)
qed

lemma takeWhile_print_nat:
  assumes "s = [] \<or> \<not> is_digit (hd s)"
  shows "takeWhile is_digit (print_nat n @ s) = print_nat n" "dropWhile is_digit (print_nat n @ s) = s"
  using assms print_nat_digits [of _ n] by (cases s; auto)+

lemma is_digit_not:
  "is_digit c \<Longrightarrow> \<not> is_space c" "is_digit c \<Longrightarrow> c \<noteq> CHR ''-''" "is_digit c \<Longrightarrow> c \<noteq> CHR ''+''"
  by (auto simp: is_digit_def is_space_def)

lemma scan_int_nat:
  assumes "s = [] \<or> \<not> is_digit (hd s)"
  shows "scan_int (print_nat n @ s) = Some (int n, s)"
proof -
  obtain c t where c: "print_nat n = c # t" by (cases "print_nat n") auto
  then have "is_digit c" using print_nat_digits [of c n] by simp
  then have "dropWhile is_space (print_nat n @ s) = print_nat n @ s"
    "scan_sign (print_nat n @ s) = (False, print_nat n @ s)"
    using c is_digit_not [of c] by simp_all
  then show ?thesis
    using takeWhile_print_nat [OF assms] by (simp add: scan_int_def undigits_print_nat)
qed

lemma scan_int_print:
  assumes "s = [] \<or> \<not> is_digit (hd s)"
  shows "scan_int (print_int i @ s) = Some (i, s)"
proof (cases "i < 0")
  case True
  have "dropWhile is_space (print_int i @ s) = print_int i @ s"
    using True by (simp add: print_int_def is_space_def)
  then show ?thesis
    using True takeWhile_print_nat [OF assms] by (simp add: scan_int_def print_int_def undigits_print_nat)
qed (use scan_int_nat [OF assms] in \<open>simp add: print_int_def\<close>)

lemma ullong_value_u64 [simp]: "ullong_value (uint x) = x"
  using uint_bounded [of x] uint_nonnegative [of x] by (simp add: ullong_value_def)

lemma int_value_s32 [simp]: "int_value (sint x) = x"
proof -
  have "- (2 ^ 31) \<le> sint x \<and> sint x < 2 ^ 31" by (rule sint_bound)
  then have "max (- (2 ^ 63)) (min (sint x) (2 ^ 63 - 1)) = sint x" by auto
  then show ?thesis by (simp add: int_value_def)
qed

end
