(* ===== verification/Plock_Ckpt.thy ===== *)
theory Plock_Ckpt
  imports Plock_Inv Dlm_Text
begin

text \<open>
  Handing the plock state to a new node (\<^verbatim>\<open>plock.c\<close>): one node stores every resource as a section of an AIS
  checkpoint (\<^verbatim>\<open>store_plocks\<close>), the new node reads the sections (\<^verbatim>\<open>retrieve_plocks\<close>).  The service is the
  script of answers in the daemon state; a call that answers \<^verbatim>\<open>SA_AIS_ERR_TRY_AGAIN\<close> is repeated.  \<open>None\<close>
  means that the C code runs into undefined behaviour: it writes past \<^verbatim>\<open>section_buf\<close> or follows a null pointer
  from a failed allocation.
\<close>

subsection \<open>Calls of the checkpoint service\<close>

definition sa_ok :: sa_answer where
  "sa_ok = \<lparr>sa_err = SA_AIS_OK, sa_handle = 1, sa_id = [], sa_data = [], sa_extra = 0, sa_locks = []\<rparr>"

definition sa_end :: sa_answer where
  "sa_end = sa_ok\<lparr>sa_err := SA_AIS_ERR_NO_SECTIONS\<rparr>"

fun ckpt_retry ::
  "sa_answer \<Rightarrow> ckpt_op \<Rightarrow> sa_answer list \<Rightarrow> sa_answer \<times> sa_answer list \<times> (ckpt_op \<times> sa_error) list"
where
  "ckpt_retry dflt op [] = (dflt, [], [(op, sa_err dflt)])"
| "ckpt_retry dflt op (a # as) =
     (if sa_err a = SA_AIS_ERR_TRY_AGAIN then
        (case ckpt_retry dflt op as of (b, bs, l) \<Rightarrow> (b, bs, (op, SA_AIS_ERR_TRY_AGAIN) # l))
      else (a, as, [(op, sa_err a)]))"

definition ckpt_do :: "sa_answer \<Rightarrow> daemon \<Rightarrow> ckpt_op \<Rightarrow> sa_answer \<times> daemon" where
  "ckpt_do dflt d op = (case ckpt_retry dflt op (ckpt_answers d) of (a, as, l) \<Rightarrow>
     (a, d\<lparr>ckpt_answers := as, ckpt_ops := ckpt_ops d @ l\<rparr>))"

text \<open>A call whose answer the code ignores.\<close>

definition ckpt_once :: "daemon \<Rightarrow> ckpt_op \<Rightarrow> daemon" where
  "ckpt_once d op = (case ckpt_answers d of
       [] \<Rightarrow> d\<lparr>ckpt_ops := ckpt_ops d @ [(op, SA_AIS_OK)]\<rparr>
     | a # as \<Rightarrow> d\<lparr>ckpt_answers := as, ckpt_ops := ckpt_ops d @ [(op, sa_err a)]\<rparr>)"

definition unlink_checkpoint :: "daemon \<Rightarrow> lockspace \<Rightarrow> string \<Rightarrow> daemon \<times> lockspace \<times> int" where
  "unlink_checkpoint d ls name =
     (let h = ls_plock_ckpt_handle ls in
      case ckpt_do sa_ok d (Ckpt_unlink name) of (a, d) \<Rightarrow>
        (let (d, ret) = (if sa_err a = SA_AIS_OK then (d, 0)
                         else (snd (ckpt_do sa_ok d (Ckpt_status h)), - 1));
             d = (if h = 0 then d else snd (ckpt_do sa_ok d (Ckpt_close h)))
         in (d, ls\<lparr>ls_plock_ckpt_handle := 0\<rparr>, ret)))"

definition close_plock_checkpoint :: "daemon \<Rightarrow> lockspace \<Rightarrow> daemon \<times> lockspace" where
  "close_plock_checkpoint d ls =
     (let h = ls_plock_ckpt_handle ls in
      if h = 0 then (d, ls)
      else (snd (ckpt_do sa_ok d (Ckpt_close h)), ls\<lparr>ls_plock_ckpt_handle := 0\<rparr>))"

subsection \<open>Sections\<close>

text \<open>\<^verbatim>\<open>sizeof(struct pack_plock)\<close>, the size of \<^verbatim>\<open>section_buf\<close> and \<^verbatim>\<open>SECTION_NAME_LEN\<close>.\<close>

abbreviation (input) PACK_SIZE :: nat where "PACK_SIZE \<equiv> 40"
abbreviation (input) SECTION_BUF_SIZE :: nat where "SECTION_BUF_SIZE \<equiv> 1048576"
abbreviation (input) SECTION_NAME_LEN :: nat where "SECTION_NAME_LEN \<equiv> 34"

definition pack_lock :: "bool \<Rightarrow> posix_lock \<Rightarrow> pack_plock" where
  "pack_lock be po = \<lparr>pp_start = cpu_to_le64 be (po_start po), pp_end = cpu_to_le64 be (po_end po),
     pp_owner = cpu_to_le64 be (po_owner po), pp_pid = cpu_to_le32 be (po_pid po),
     pp_nodeid = cpu_to_le32 be (po_nodeid po), pp_ex = word_of_int (po_ex po), pp_waiter = 0\<rparr>"

definition pack_waiter :: "bool \<Rightarrow> lock_waiter \<Rightarrow> pack_plock" where
  "pack_waiter be w = \<lparr>pp_start = cpu_to_le64 be (in_start (w_info w)), pp_end = cpu_to_le64 be (in_end (w_info w)),
     pp_owner = cpu_to_le64 be (in_owner (w_info w)), pp_pid = cpu_to_le32 be (in_pid (w_info w)),
     pp_nodeid = cpu_to_le32 be (in_nodeid (w_info w)), pp_ex = word_of_int (in_ex (w_info w)), pp_waiter = 1\<rparr>"

definition pack_section_buf :: "daemon \<Rightarrow> resource \<Rightarrow> pack_plock list option" where
  "pack_section_buf d r =
     (if r_owner r = our_nodeid d then Some []
      else let pps = map (pack_lock (big_endian d)) (filter (\<lambda>po. and (po_flags po) P_SYNCING = 0) (r_locks r)) @
             map (pack_waiter (big_endian d)) (filter (\<lambda>w. and (w_flags w) P_SYNCING = 0) (r_waiters r))
           in if PACK_SIZE * length pps \<le> SECTION_BUF_SIZE then Some pps else None)"

definition section_id :: "u64 \<Rightarrow> nodeid \<Rightarrow> string" where
  "section_id number owner =
     take (SECTION_NAME_LEN - 1) (CHR ''r'' # print_u64 number @ CHR ''.'' # print_s32 owner)"

text \<open>\<^verbatim>\<open>sscanf(numbuf, "r%llu.%d", &num, &owner)\<close>, given the values of the two variables before.\<close>

definition scan_section :: "string \<Rightarrow> u64 \<Rightarrow> nodeid \<Rightarrow> u64 \<times> nodeid" where
  "scan_section s num owner = (case s of
       [] \<Rightarrow> (num, owner)
     | c # s \<Rightarrow>
         if c \<noteq> CHR ''r'' then (num, owner)
         else (case scan_int s of
             None \<Rightarrow> (num, owner)
           | Some (i, s) \<Rightarrow> (case s of
               [] \<Rightarrow> (ullong_value i, owner)
             | c # s \<Rightarrow>
                 if c \<noteq> CHR ''.'' then (ullong_value i, owner)
                 else (case scan_int s of
                     None \<Rightarrow> (ullong_value i, owner)
                   | Some (j, _) \<Rightarrow> (ullong_value i, int_value j)))))"

definition unpack_lock :: "bool \<Rightarrow> u32 \<Rightarrow> pack_plock \<Rightarrow> posix_lock" where
  "unpack_lock be g pp = \<lparr>po_pid = le32_to_cpu be (pp_pid pp), po_owner = le64_to_cpu be (pp_owner pp),
     po_start = le64_to_cpu be (pp_start pp), po_end = le64_to_cpu be (pp_end pp),
     po_ex = uint (pp_ex pp), po_nodeid = le32_to_cpu be (pp_nodeid pp), po_flags = g\<rparr>"

definition unpack_waiter :: "bool \<Rightarrow> dlm_plock_info \<Rightarrow> u32 \<Rightarrow> pack_plock \<Rightarrow> lock_waiter" where
  "unpack_waiter be junk g pp = \<lparr>w_flags = g,
     w_info = junk\<lparr>in_start := le64_to_cpu be (pp_start pp), in_end := le64_to_cpu be (pp_end pp),
       in_owner := le64_to_cpu be (pp_owner pp), in_pid := le32_to_cpu be (pp_pid pp),
       in_nodeid := le32_to_cpu be (pp_nodeid pp), in_ex := uint (pp_ex pp)\<rparr>\<rparr>"

fun unpack_entries :: "daemon \<Rightarrow> resource \<Rightarrow> pack_plock list \<Rightarrow> (daemon \<times> resource) option" where
  "unpack_entries d r [] = Some (d, r)"
| "unpack_entries d r (pp # pps) = (case malloc (dmem d) of
       (None, m) \<Rightarrow> None
     | (Some g, m) \<Rightarrow>
         unpack_entries (d\<lparr>dmem := m\<rparr>)
           (if pp_waiter pp = 0 then r\<lparr>r_locks := r_locks r @ [unpack_lock (big_endian d) g pp]\<rparr>
            else r\<lparr>r_waiters := r_waiters r @ [unpack_waiter (big_endian d) (heap_info d g) g pp]\<rparr>) pps)"

definition unpack_section_buf ::
  "daemon \<Rightarrow> lockspace \<Rightarrow> string \<Rightarrow> pack_plock list \<Rightarrow> (daemon \<times> lockspace \<times> int) option"
where
  "unpack_section_buf d ls numbuf pps = (case malloc (dmem d) of
       (None, m) \<Rightarrow> Some (d\<lparr>dmem := m\<rparr>, ls, - ENOMEM)
     | (Some _, m) \<Rightarrow>
         (let (num, owner) = scan_section numbuf (stack_num d) 0;
              r = \<lparr>r_number = num, r_owner = owner, r_flags = 0, r_last_access = now d,
                   r_locks = [], r_waiters = [], r_pending = []\<rparr>
          in case unpack_entries (d\<lparr>dmem := m\<rparr>) r pps of
               None \<Rightarrow> None
             | Some (d, r) \<Rightarrow> Some (d, ls\<lparr>ls_plock_resources := ls_plock_resources ls @ [r]\<rparr>, 0)))"

subsection \<open>Storing\<close>

definition ckpt_name :: "lockspace \<Rightarrow> string" where
  "ckpt_name ls = ''dlmplock.'' @ ls_name ls"

text \<open>The number of sections, their total size and the size of the largest.\<close>

fun store_sizes :: "resource list \<Rightarrow> nat \<times> nat \<times> nat \<Rightarrow> nat \<times> nat \<times> nat" where
  "store_sizes [] sizes = sizes"
| "store_sizes (r # rs) (r_count, total_size, max_section_size) =
     (if r_owner r = -1 then store_sizes rs (r_count, total_size, max_section_size)
      else let section_size = PACK_SIZE * length (r_locks r) + PACK_SIZE * length (r_waiters r)
           in store_sizes rs (r_count + 1, total_size + section_size,
                if section_size > max_section_size then section_size else max_section_size))"

definition section_owner :: "daemon \<Rightarrow> resource \<Rightarrow> nodeid" where
  "section_owner d r =
     (if r_owner r = our_nodeid d then our_nodeid d
      else if r_owner r \<noteq> 0 then r_owner r
      else if \<not> got_unown r then our_nodeid d
      else 0)"

text \<open>
  The loop over the resources.  The flag tells that the service answered \<^verbatim>\<open>SA_AIS_ERR_EXIST\<close>, whereupon the
  checkpoint is created anew; any other error ends the loop.
\<close>

fun store_sections :: "daemon \<Rightarrow> u64 \<Rightarrow> resource list \<Rightarrow> (daemon \<times> bool) option" where
  "store_sections d h [] = Some (d, False)"
| "store_sections d h (r # rs) =
     (if r_owner r = -1 then store_sections d h rs
      else (case pack_section_buf d r of
          None \<Rightarrow> None
        | Some pps \<Rightarrow>
            (case ckpt_do sa_ok d (Ckpt_section h (section_id (r_number r) (section_owner d r)) pps) of (a, d) \<Rightarrow>
               if sa_err a = SA_AIS_ERR_EXIST then Some (d, True)
               else if sa_err a \<noteq> SA_AIS_OK then Some (d, False)
               else store_sections d h rs)))"

lemma ckpt_retry_shrinks:
  "ckpt_retry dflt op as = (a, bs, l) \<Longrightarrow> length bs \<le> length as \<and> (sa_err a \<noteq> sa_err dflt \<longrightarrow> length bs < length as)"
  by (induction as arbitrary: a bs l) (auto split: if_splits prod.splits simp: less_Suc_eq_le)

lemma ckpt_do_shrinks:
  "ckpt_do dflt d op = (a, d') \<Longrightarrow> length (ckpt_answers d') \<le> length (ckpt_answers d) \<and>
     (sa_err a \<noteq> sa_err dflt \<longrightarrow> length (ckpt_answers d') < length (ckpt_answers d))"
  using ckpt_retry_shrinks by (fastforce simp: ckpt_do_def split: prod.splits)

lemma ckpt_do_le [simp]: "length (ckpt_answers (snd (ckpt_do dflt d op))) \<le> length (ckpt_answers d)"
  using ckpt_do_shrinks [of dflt d op] by (cases "ckpt_do dflt d op") simp

lemma ckpt_once_le [simp]: "length (ckpt_answers (ckpt_once d op)) \<le> length (ckpt_answers d)"
  by (auto simp: ckpt_once_def split: list.splits)

lemma unlink_checkpoint_le:
  assumes u: "unlink_checkpoint d ls name = (d', ls', ret)"
  shows "length (ckpt_answers d') \<le> length (ckpt_answers d)"
proof -
  obtain a d1 where o: "ckpt_do sa_ok d (Ckpt_unlink name) = (a, d1)" by force
  have l: "length (ckpt_answers d1) \<le> length (ckpt_answers d)" using ckpt_do_le [of sa_ok d "Ckpt_unlink name"] o by simp
  have m: "length (ckpt_answers (snd (ckpt_do sa_ok e op))) \<le> length (ckpt_answers d)"
    if "length (ckpt_answers e) \<le> length (ckpt_answers d)" for e op
    using that ckpt_do_le [of sa_ok e op] by linarith
  show ?thesis using u o l m by (auto simp: unlink_checkpoint_def Let_def split: if_splits)
qed

lemma store_sections_shrinks:
  "store_sections d h rs = Some (d', ex) \<Longrightarrow> length (ckpt_answers d') \<le> length (ckpt_answers d) \<and>
     (ex \<longrightarrow> length (ckpt_answers d') < length (ckpt_answers d))"
proof (induction rs arbitrary: d)
  case (Cons r rs)
  show ?case
  proof (cases "r_owner r = -1")
    case False
    then obtain pps where p: "pack_section_buf d r = Some pps" using Cons.prems by (auto split: option.splits)
    obtain a d1 where o:
      "ckpt_do sa_ok d (Ckpt_section h (section_id (r_number r) (section_owner d r)) pps) = (a, d1)" by force
    note s = ckpt_do_shrinks [OF o]
    show ?thesis
      using Cons.prems Cons.IH [of d1] False p o s by (auto simp: sa_ok_def split: if_splits)
  qed (use Cons in simp)
qed simp

function store_open :: "daemon \<Rightarrow> lockspace \<Rightarrow> nat \<times> nat \<times> nat \<Rightarrow> (daemon \<times> lockspace) option" where
  "store_open d ls (r_count, total_size, max_section_size) =
     (case ckpt_do sa_ok d (Ckpt_create (ckpt_name ls) total_size (r_count + 1) max_section_size) of (a, d1) \<Rightarrow>
        if sa_err a \<noteq> SA_AIS_OK then Some (d1, ls)
        else (case store_sections d1 (sa_handle a) (ls_plock_resources ls) of
            None \<Rightarrow> None
          | Some (d2, ex) \<Rightarrow>
              if \<not> ex then Some (d2, ls\<lparr>ls_plock_ckpt_handle := sa_handle a\<rparr>)
              else (case unlink_checkpoint (ckpt_once d2 (Ckpt_close (sa_handle a)))
                           (ls\<lparr>ls_plock_ckpt_handle := sa_handle a\<rparr>) (ckpt_name ls) of
                      (d3, ls3, _) \<Rightarrow> store_open d3 ls3 (r_count, total_size, max_section_size))))"
  by pat_completeness auto
termination
proof (relation "measure (\<lambda>(d, ls, _). length (ckpt_answers d))")
  fix d ls r_count total_size max_section_size a d1 x d2 ex z d3 ls3 w y
  assume o: "(a, d1) = ckpt_do sa_ok d (Ckpt_create (ckpt_name ls) total_size (r_count + 1) max_section_size)"
    and s: "store_sections d1 (sa_handle a) (ls_plock_resources ls) = Some x" "(d2, ex) = x" "\<not> \<not> ex"
    and u: "(d3, z) = unlink_checkpoint (ckpt_once d2 (Ckpt_close (sa_handle a)))
      (ls\<lparr>ls_plock_ckpt_handle := sa_handle a\<rparr>) (ckpt_name ls)" "(ls3, w) = z"
  have "length (ckpt_answers d1) \<le> length (ckpt_answers d)" using ckpt_do_shrinks [OF o [symmetric]] by simp
  moreover have "length (ckpt_answers d2) < length (ckpt_answers d1)"
    using store_sections_shrinks [of d1 _ _ d2 True] s by auto
  moreover have "length (ckpt_answers d3) \<le> length (ckpt_answers d2)"
    using unlink_checkpoint_le [of _ _ _ d3 ls3 w] u ckpt_once_le [of d2 "Ckpt_close (sa_handle a)"]
    by (metis le_trans)
  ultimately show "((d3, ls3, r_count, total_size, max_section_size), d, ls, r_count, total_size, max_section_size)
      \<in> measure (\<lambda>(d, ls, _). length (ckpt_answers d))"
    by simp
qed simp

definition store_plocks :: "daemon \<Rightarrow> lockspace \<Rightarrow> (daemon \<times> lockspace) option" where
  "store_plocks d ls =
     (if \<not> cfgd_enable_plock d then Some (d, ls)
      else if ls_last_checkpoint_time ls > ls_last_plock_time ls then Some (d, ls)
      else let ls = ls\<lparr>ls_last_checkpoint_time := time_now d\<rparr>
           in case unlink_checkpoint d ls (ckpt_name ls) of (d, ls, _) \<Rightarrow>
                store_open d ls (store_sizes (ls_plock_resources ls) (0, 0, 0)))"

declare store_open.simps [simp del]

subsection \<open>Retrieving\<close>

function retrieve_loop :: "daemon \<Rightarrow> lockspace \<Rightarrow> u64 \<Rightarrow> (daemon \<times> lockspace) option" where
  "retrieve_loop d ls h =
     (case ckpt_do sa_end d Ckpt_iter_next of (a, d1) \<Rightarrow>
        if sa_err a \<noteq> SA_AIS_OK then Some (d1, ls)
        else if sa_id a = [] then retrieve_loop d1 ls h
        else (case ckpt_do sa_ok d1 (Ckpt_read h (sa_id a)) of (b, d2) \<Rightarrow>
          if sa_err b \<noteq> SA_AIS_OK then Some (d2, ls)
          else if PACK_SIZE * length (sa_data b) + sa_extra b > SECTION_BUF_SIZE then None
          else if (PACK_SIZE * length (sa_data b) + sa_extra b) mod PACK_SIZE \<noteq> 0 then retrieve_loop d2 ls h
          else (case unpack_section_buf d2 ls (sa_id a) (sa_data b) of
              None \<Rightarrow> None
            | Some (d3, ls3, _) \<Rightarrow> retrieve_loop d3 ls3 h)))"
  by pat_completeness auto

lemma unpack_entries_answers: "unpack_entries d r pps = Some (d', r') \<Longrightarrow> ckpt_answers d' = ckpt_answers d"
  by (induction d r pps rule: unpack_entries.induct) (auto split: prod.splits option.splits)

lemma unpack_section_answers:
  "unpack_section_buf d ls s pps = Some (d', ls', rv) \<Longrightarrow> ckpt_answers d' = ckpt_answers d"
  by (fastforce simp: unpack_section_buf_def split: prod.splits option.splits dest: unpack_entries_answers)

termination retrieve_loop
proof (relation "measure (\<lambda>(d, ls, h). length (ckpt_answers d))")
  fix d ls h a d1
  assume "(a, d1) = ckpt_do sa_end d Ckpt_iter_next" "\<not> sa_err a \<noteq> SA_AIS_OK"
  then have "length (ckpt_answers d1) < length (ckpt_answers d)"
    using ckpt_do_shrinks [of sa_end d Ckpt_iter_next a d1] by (simp add: sa_end_def)
  then show "((d1, ls, h), d, ls, h) \<in> measure (\<lambda>(d, ls, h). length (ckpt_answers d))" by simp
next
  fix d ls h a d1 b d2
  assume "(a, d1) = ckpt_do sa_end d Ckpt_iter_next" "\<not> sa_err a \<noteq> SA_AIS_OK"
    "(b, d2) = ckpt_do sa_ok d1 (Ckpt_read h (sa_id a))"
  then have "length (ckpt_answers d1) < length (ckpt_answers d)" "length (ckpt_answers d2) \<le> length (ckpt_answers d1)"
    using ckpt_do_shrinks [of sa_end d Ckpt_iter_next a d1] ckpt_do_shrinks [of sa_ok d1 _ b d2] by (simp_all add: sa_end_def)
  then show "((d2, ls, h), d, ls, h) \<in> measure (\<lambda>(d, ls, h). length (ckpt_answers d))" by simp
next
  fix d ls h a d1 b d2 x d3 y ls3 rv
  assume "(a, d1) = ckpt_do sa_end d Ckpt_iter_next" "\<not> sa_err a \<noteq> SA_AIS_OK"
    "(b, d2) = ckpt_do sa_ok d1 (Ckpt_read h (sa_id a))"
    "unpack_section_buf d2 ls (sa_id a) (sa_data b) = Some x" "(d3, y) = x" "(ls3, rv) = y"
  then have "length (ckpt_answers d1) < length (ckpt_answers d)" "length (ckpt_answers d2) \<le> length (ckpt_answers d1)"
    "ckpt_answers d3 = ckpt_answers d2"
    using ckpt_do_shrinks [of sa_end d Ckpt_iter_next a d1] ckpt_do_shrinks [of sa_ok d1 _ b d2]
      unpack_section_answers [of d2 ls _ _ d3 ls3 rv] by (simp_all add: sa_end_def)
  then show "((d3, ls3, h), d, ls, h) \<in> measure (\<lambda>(d, ls, h). length (ckpt_answers d))" by simp
qed simp

declare retrieve_loop.simps [simp del]

definition retrieve_plocks :: "daemon \<Rightarrow> lockspace \<Rightarrow> (daemon \<times> lockspace) option" where
  "retrieve_plocks d ls =
     (if \<not> cfgd_enable_plock d then Some (d, ls)
      else (case ckpt_do sa_ok d (Ckpt_open (ckpt_name ls)) of (a, d) \<Rightarrow>
        if sa_err a \<noteq> SA_AIS_OK then Some (d, ls)
        else let h = sa_handle a in
          case ckpt_do sa_ok d (Ckpt_iter_init h) of (b, d) \<Rightarrow>
            if sa_err b \<noteq> SA_AIS_OK then Some (ckpt_once d (Ckpt_close h), ls)
            else (case retrieve_loop d ls h of
                None \<Rightarrow> None
              | Some (d, ls) \<Rightarrow> Some (ckpt_once (ckpt_once d Ckpt_iter_fini) (Ckpt_close h), ls))))"

end
