(* ===== verification/Plock_System.thy ===== *)
theory Plock_System
  imports Plock_Inv
begin

text \<open>
  The plock code of one node as a transition system.  A step is the delivery of a plock message, the
  handling of one saved message, a request read from the kernel, the purge of a node, a change of
  the clock or of the flag that makes messages be saved.  Requests are well-formed, as the kernel
  builds them; a lock that another node synchronises fits the locks already present.
\<close>

definition sync_guard :: "daemon \<Rightarrow> lockspace \<Rightarrow> dlm_header \<Rightarrow> body \<Rightarrow> bool" where
  "sync_guard d ls h b =
     (hd_nodeid h \<noteq> our_nodeid d \<longrightarrow> hd_type h = DLM_MSG_PLOCK_SYNC_LOCK \<longrightarrow>
      (case search_resource ls (in_number (msg_info d b)) of
         None \<Rightarrow> True
       | Some r \<Rightarrow> sync_fits r (msg_info d b)))"

inductive plock_step :: "daemon \<times> lockspace \<Rightarrow> daemon \<times> lockspace \<Rightarrow> bool" where
  recv_plock: "info_wf (msg_info d b) \<Longrightarrow> plock_step (d, ls) (receive_plock d ls h b)"
| recv_own: "plock_step (d, ls) (receive_own d ls h b)"
| recv_sync: "info_wf (msg_info d b) \<Longrightarrow> sync_guard d ls h b \<Longrightarrow>
    plock_step (d, ls) (receive_sync d ls h b)"
| recv_drop: "plock_step (d, ls) (receive_drop d ls h b)"
| replay: "info_wf (msg_info d (sm_body sm)) \<Longrightarrow> sync_guard d ls (sm_hd sm) (sm_body sm) \<Longrightarrow>
    receive_saved d ls sm = Some s \<Longrightarrow> plock_step (d, ls) s"
| read_plock: "info_wf i \<Longrightarrow> plock_step (d, ls) (process_plock_ls d ls i)"
| purge: "plock_step (d, ls) (purge_plocks d ls nodeid unmount)"
| tick: "plock_step (d, ls) (d\<lparr>now := t\<rparr>, ls)"
| set_save: "plock_step (d, ls) (d, ls\<lparr>ls_save_plocks := f\<rparr>)"

inductive_cases plock_stepE: "plock_step s s'"

definition plock_init :: "daemon \<times> lockspace \<Rightarrow> bool" where
  "plock_init s = (mem_ok (dmem (fst s)) \<and> ls_plock_resources (snd s) = [])"

definition plock_inv :: "daemon \<times> lockspace \<Rightarrow> bool" where
  "plock_inv s = (mem_ok (dmem (fst s)) \<and> ls_wf (snd s))"

lemma save_message_inv:
  "plock_inv (d, ls) \<Longrightarrow> plock_inv (save_message d ls h b from type)"
  using malloc_keeps_ok [of "dmem d"]
  by (auto simp: plock_inv_def save_message_def ls_wf_def numbers_distinct_def
      split: prod.splits option.splits)

lemma handler_inv:
  assumes "plock_inv (d, ls)"
  shows "info_wf (msg_info d b) \<Longrightarrow> plock_inv (receive_plock_now d ls h b)"
    and "plock_inv (receive_own_now d ls h b)"
    and "info_wf (msg_info d b) \<Longrightarrow> sync_guard d ls h b \<Longrightarrow> plock_inv (receive_sync_now d ls h b)"
    and "plock_inv (receive_drop_now d ls h b)"
proof -
  have i: "ls_wf ls" "mem_ok (dmem d)" using assms by (auto simp: plock_inv_def)
  show "info_wf (msg_info d b) \<Longrightarrow> plock_inv (receive_plock_now d ls h b)"
    using receive_plock_now_wf [OF i] by (cases "receive_plock_now d ls h b") (auto simp: plock_inv_def)
  show "plock_inv (receive_own_now d ls h b)"
    using receive_own_now_wf [OF i] by (cases "receive_own_now d ls h b") (auto simp: plock_inv_def)
  show "info_wf (msg_info d b) \<Longrightarrow> sync_guard d ls h b \<Longrightarrow> plock_inv (receive_sync_now d ls h b)"
    using receive_sync_now_wf [OF i] 
    by (cases "receive_sync_now d ls h b") (fastforce simp: plock_inv_def sync_guard_def)
  show "plock_inv (receive_drop_now d ls h b)"
    using receive_drop_now_wf [OF i] by (cases "receive_drop_now d ls h b") (auto simp: plock_inv_def)
qed

lemma receive_saved_inv:
  assumes "plock_inv (d, ls)" "info_wf (msg_info d (sm_body sm))"
    and "sync_guard d ls (sm_hd sm) (sm_body sm)" "receive_saved d ls sm = Some s"
  shows "plock_inv s"
  using assms(4) handler_inv [OF assms(1)] assms(2,3)
  by (auto simp: receive_saved_def split: if_splits)

interpretation plock_sys: invariant_system plock_init plock_step plock_inv
proof unfold_locales
  show "plock_inv s" if "plock_init s" for s
    using that by (auto simp: plock_init_def plock_inv_def ls_wf_def numbers_distinct_def)
  fix s s' assume inv: "plock_inv s" and st: "plock_step s s'"
  show "plock_inv s'"
    using st
  proof cases
    case (recv_plock d b ls h)
    then show ?thesis using inv handler_inv(1) save_message_inv by (simp add: receive_plock_def)
  next
    case (recv_own d ls h b)
    then show ?thesis using inv handler_inv(2) save_message_inv by (simp add: receive_own_def)
  next
    case (recv_sync d b ls h)
    then show ?thesis using inv handler_inv(3) save_message_inv by (simp add: receive_sync_def)
  next
    case (recv_drop d ls h b)
    then show ?thesis using inv handler_inv(4) save_message_inv by (simp add: receive_drop_def)
  next
    case (replay d sm ls)
    then show ?thesis using inv receive_saved_inv by simp
  next
    case (read_plock i d ls)
    then show ?thesis using inv process_plock_ls_wf [of ls d i]
      by (cases "process_plock_ls d ls i") (auto simp: plock_inv_def)
  next
    case (purge d ls nodeid unmount)
    then show ?thesis using inv purge_plocks_wf [of ls d nodeid unmount]
      by (cases "purge_plocks d ls nodeid unmount") (auto simp: plock_inv_def)
  next
    case (tick d ls t)
    then show ?thesis using inv by (simp add: plock_inv_def)
  next
    case (set_save d ls f)
    then show ?thesis using inv by (simp add: plock_inv_def ls_wf_def numbers_distinct_def)
  qed
qed


definition ex_hd :: "u16 \<Rightarrow> nodeid \<Rightarrow> dlm_header" where
  "ex_hd type n = hd_zero\<lparr>hd_type := type, hd_nodeid := n\<rparr>"

lemmas msg_eval = msg_info_def info_bswap_in_def info_bswap_out_def le32_to_cpu_def le64_to_cpu_def
  cpu_to_le32_def cpu_to_le64_def le16_to_cpu_def cpu_to_le16_def ex_hd_def hd_zero_def

lemmas recv_eval = receive_plock_def receive_plock_now_def receive_plock_owner_def receive_plock_op_def
  receive_plock_missing_def count_recv_def hold_own_plock_def save_pending_plock_def


end
