(* ===== verification/Plock_Replica.thy ===== *)
theory Plock_Replica
  imports Plock_System
begin

text \<open>
  Agreement of the replicas.  Without resource ownership every node handles every lock operation and
  every node failure in the same order; the locks and queues of all nodes are then the same,
  although the nodes differ in which requests are local, in their clocks, in what uninitialised
  memory contains, and in the empty resources that local reads create.
\<close>

subsection \<open>Grants do not depend on the allocator\<close>

lemma malloc_snd_ok [simp]: "mem_ok m \<Longrightarrow> mem_ok (snd (malloc m))"
  by (cases m) (auto simp: mem_ok_def)

lemma add_lock_mem:
  assumes "mem_ok m"
  shows "add_lock m locks n w p ex s e =
     (snd (malloc m), locks @ [\<lparr>po_pid = p, po_owner = w, po_start = s, po_end = e, po_ex = ex,
        po_nodeid = n, po_flags = 0\<rparr>], 0)"
  using malloc_mem_ok [OF assms] by (auto simp: add_lock_def)

lemma lock_case1_mem: "mem_ok m \<Longrightarrow> snd (lock_case1 m pre po rest i) = snd (lock_case1 [] pre po rest i)"
  by (simp add: lock_case1_def add_lock_mem split: prod.split)

lemma lock_case2_mem: "mem_ok m \<Longrightarrow> snd (lock_case2 m pre po rest i) = snd (lock_case2 [] pre po rest i)"
  by (simp add: lock_case2_def add_lock_mem)

lemma lock_internal_loop_mem:
  assumes "mem_ok m"
  shows "snd (lock_internal_loop m i pre rest) = snd (lock_internal_loop [] i pre rest)"
proof (induction rest arbitrary: pre)
  case Nil
  then show ?case using assms by (simp add: add_lock_mem)
next
  case (Cons po rest)
  then show ?case
    by (simp add: lock_internal_loop.simps(2) lock_case1_mem [OF assms] lock_case2_mem [OF assms] Let_def)
qed

lemma unlock_internal_loop_mem:
  assumes "mem_ok m"
  shows "snd (unlock_internal_loop m i rv pre rest) = snd (unlock_internal_loop [] i rv pre rest)"
proof (induction rest arbitrary: pre rv)
  case (Cons po rest)
  then show ?case
    by (simp add: unlock_internal_loop.simps(2) add_lock_mem [OF assms] add_lock_mem [OF mem_ok_Nil] Let_def
        split: prod.split)
qed simp

text \<open>Two resources show the same replicated state when their locks and queued requests agree.\<close>

definition same_rep :: "resource \<Rightarrow> resource \<Rightarrow> bool" where
  "same_rep r r' = (r_number r = r_number r' \<and> r_locks r = r_locks r' \<and>
     map w_info (r_waiters r) = map w_info (r_waiters r'))"

lemma lock_internal_rep:
  assumes "mem_ok m" "mem_ok m'" "same_rep r r'"
    and "lock_internal m r i = (m1, r1, rv)" "lock_internal m' r' i = (m1', r1', rv')"
  shows "same_rep r1 r1' \<and> rv = rv'"
  using assms lock_internal_loop_mem [of m i "[]" "r_locks r"] lock_internal_loop_mem [of m' i "[]" "r_locks r"]
  by (auto simp: lock_internal_def same_rep_def split: prod.splits)

lemma unlock_internal_rep:
  assumes "mem_ok m" "mem_ok m'" "same_rep r r'"
    and "unlock_internal m r i = (m1, r1, rv)" "unlock_internal m' r' i = (m1', r1', rv')"
  shows "same_rep r1 r1' \<and> rv = rv'"
  using assms unlock_internal_loop_mem [of m i 0 "[]" "r_locks r"]
    unlock_internal_loop_mem [of m' i 0 "[]" "r_locks r"]
  by (auto simp: unlock_internal_def same_rep_def split: prod.splits)

lemma is_conflict_rep: "r_locks r = r_locks r' \<Longrightarrow> is_conflict r i g = is_conflict r' i g"
  by (simp add: is_conflict_def)

lemma lock_internal_loop_keeps_mem: "mem_ok m \<Longrightarrow> mem_ok (fst (lock_internal_loop m i pre rest))"
  by (induction rest arbitrary: pre)
    (simp_all add: lock_internal_loop.simps(2) lock_case1_def lock_case2_def add_lock_mem Let_def split: prod.split)

lemma lock_internal_keeps_mem: "mem_ok m \<Longrightarrow> lock_internal m r i = (m', r', rv) \<Longrightarrow> mem_ok m'"
  using lock_internal_loop_keeps_mem [of m i "[]" "r_locks r"]
  by (auto simp: lock_internal_def split: prod.splits)

lemma unlock_internal_loop_keeps_mem: "mem_ok m \<Longrightarrow> mem_ok (fst (unlock_internal_loop m i rv pre rest))"
  by (induction rest arbitrary: pre rv)
    (simp_all add: unlock_internal_loop.simps(2) add_lock_mem Let_def split: prod.split)

lemma unlock_internal_keeps_mem: "mem_ok m \<Longrightarrow> unlock_internal m r i = (m', r', rv) \<Longrightarrow> mem_ok m'"
  using unlock_internal_loop_keeps_mem [of m i 0 "[]" "r_locks r"]
  by (auto simp: unlock_internal_def split: prod.splits)

subsection \<open>Two runs of an operation\<close>

lemma do_waiters_loop_rep:
  assumes "mem_ok (dmem d)" "mem_ok (dmem d')" "r_locks r = r_locks r'" "map w_info ws = map w_info ws'"
    and "do_waiters_loop d ls r ws = (e, x, k)" "do_waiters_loop d' ls' r' ws' = (e', x', k')"
  shows "r_locks x = r_locks x' \<and> map w_info k = map w_info k' \<and> mem_ok (dmem e) \<and> mem_ok (dmem e')"
  using assms
proof (induction ws arbitrary: d r ws' d' r' e x k e' x' k')
  case (Cons w ws)
  then obtain w' ws2 where ws': "ws' = w' # ws2" "w_info w' = w_info w" "map w_info ws2 = map w_info ws"
    by (metis map_eq_Cons_D map_eq_Cons_conv)
  let ?i = "w_info w"
  have c: "is_conflict r' ?i False = is_conflict r ?i False"
    using Cons.prems(3) by (simp add: is_conflict_def)
  show ?case
  proof (cases "fst (is_conflict r ?i False)")
    case True
    obtain k1 where k1: "do_waiters_loop d ls r ws = (e, x, k1)" "k = w # k1"
      using Cons.prems(5) True by (auto split: prod.splits)
    obtain k2 where k2: "do_waiters_loop d' ls' r' ws2 = (e', x', k2)" "k' = w' # k2"
      using Cons.prems(6) True c ws' by (auto split: prod.splits)
    show ?thesis
      using Cons.IH [OF Cons.prems(1-3) ws'(3) [symmetric] k1(1) k2(1)] k1(2) k2(2) ws'(2) by simp
  next
    case False
    obtain m r1 rv where l: "lock_internal (dmem d) r ?i = (m, r1, rv)" by (metis prod_cases3)
    obtain m' r1' rv' where l': "lock_internal (dmem d') r' ?i = (m', r1', rv')" by (metis prod_cases3)
    have s: "r_locks r1 = r_locks r1'"
      using Cons.prems(1-3) l l' lock_internal_loop_mem [of "dmem d" ?i "[]" "r_locks r"]
        lock_internal_loop_mem [of "dmem d'" ?i "[]" "r_locks r"]
      by (auto simp: lock_internal_def split: prod.splits)
    define d2 where "d2 = (if in_nodeid ?i = our_nodeid d then write_result (d\<lparr>dmem := m\<rparr>) ls ?i rv
      else d\<lparr>dmem := m\<rparr>)"
    define d2' where "d2' = (if in_nodeid ?i = our_nodeid d' then write_result (d'\<lparr>dmem := m'\<rparr>) ls' ?i rv'
      else d'\<lparr>dmem := m'\<rparr>)"
    have m: "mem_ok (dmem d2)" "mem_ok (dmem d2')"
      using lock_internal_keeps_mem [OF Cons.prems(1) l] lock_internal_keeps_mem [OF Cons.prems(2) l']
      by (auto simp: d2_def d2'_def write_result_reply)
    have "do_waiters_loop d2 ls r1 ws = (e, x, k)" "do_waiters_loop d2' ls' r1' ws2 = (e', x', k')"
      using Cons.prems(5,6) False c ws' l l' by (simp_all add: d2_def d2'_def Let_def split: if_splits)
    from Cons.IH [OF m s ws'(3) [symmetric] this] show ?thesis .
  qed
qed simp

lemma do_waiters_rep:
  assumes "mem_ok (dmem d)" "mem_ok (dmem d')" "same_rep r r'"
    and "do_waiters d ls r = (e, x)" "do_waiters d' ls' r' = (e', x')"
  shows "same_rep x x'" "mem_ok (dmem e)" "mem_ok (dmem e')"
proof -
  obtain y k where 1: "do_waiters_loop d ls r (r_waiters r) = (e, y, k)" "x = y\<lparr>r_waiters := k\<rparr>"
    using assms(4) by (auto simp: do_waiters_def split: prod.splits)
  obtain y' k' where 2: "do_waiters_loop d' ls' r' (r_waiters r') = (e', y', k')" "x' = y'\<lparr>r_waiters := k'\<rparr>"
    using assms(5) by (auto simp: do_waiters_def split: prod.splits)
  have n: "r_number y = r_number r" "r_number y' = r_number r'"
    using do_waiters_loop_frame [OF 1(1)] do_waiters_loop_frame [OF 2(1)] by (auto simp: same_meta_def)
  have "r_locks r = r_locks r'" "map w_info (r_waiters r) = map w_info (r_waiters r')"
    using assms(3) by (auto simp: same_rep_def)
  from do_waiters_loop_rep [OF assms(1,2) this 1(1) 2(1)] show "same_rep x x'" "mem_ok (dmem e)" "mem_ok (dmem e')"
    using assms(3) 1(2) 2(2) n by (auto simp: same_rep_def)
qed

subsection \<open>The replicated state of a lockspace\<close>

definition rep_res :: "resource option \<Rightarrow> posix_lock list \<times> dlm_plock_info list" where
  "rep_res ro = (case ro of None \<Rightarrow> ([], []) | Some r \<Rightarrow> (r_locks r, map w_info (r_waiters r)))"

definition rep :: "lockspace \<Rightarrow> u64 \<Rightarrow> posix_lock list \<times> dlm_plock_info list" where
  "rep ls n = rep_res (search_resource ls n)"

lemma rep_set:
  "search_resource ls (r_number r) \<noteq> None \<Longrightarrow>
   rep (set_resource ls r) = (rep ls)(r_number r := rep_res (Some r))"
  by (auto simp: rep_def restab.look_put)

lemma rep_put:
  assumes "numbers_distinct ls" "search_resource ls (r_number r) \<noteq> None"
  shows "rep (put_resource d (set_resource ls r) r) = (rep ls)(r_number r := rep_res (Some r))"
  using assms by (auto simp: put_resource_def rep_set rep_def restab.look_put_del rep_res_def)

lemma rep_last_time [simp]: "rep (ls\<lparr>ls_last_plock_time := t\<rparr>) = rep ls"
  by (simp add: rep_def fun_eq_iff)

lemma rep_res_same: "same_rep r r' \<Longrightarrow> rep_res (Some r) = rep_res (Some r')"
  by (simp add: rep_res_def same_rep_def)

lemma finish_op_rep:
  assumes "mem_ok (dmem d)" "mem_ok (dmem d')" "same_rep r r'" "rep ls = rep ls'"
    and "numbers_distinct ls" "numbers_distinct ls'"
    and "search_resource ls (r_number r) \<noteq> None" "search_resource ls' (r_number r') \<noteq> None"
    and "finish_op d ls r = (e, l)" "finish_op d' ls' r' = (e', l')"
  shows "rep l = rep l' \<and> mem_ok (dmem e) \<and> mem_ok (dmem e')"
proof -
  obtain x where 1: "do_waiters d ls r = (e, x)" "l = put_resource e (set_resource ls x) x"
    using assms(9) by (auto simp: finish_op_def split: prod.splits)
  obtain x' where 2: "do_waiters d' ls' r' = (e', x')" "l' = put_resource e' (set_resource ls' x') x'"
    using assms(10) by (auto simp: finish_op_def split: prod.splits)
  note w = do_waiters_rep [OF assms(1-3) 1(1) 2(1)]
  have n: "r_number x = r_number r" "r_number x' = r_number r'"
    using do_waiters_frame [OF 1(1)] do_waiters_frame [OF 2(1)] by (auto simp: same_meta_def)
  have "rep l = (rep ls)(r_number x := rep_res (Some x))" "rep l' = (rep ls')(r_number x' := rep_res (Some x'))"
    unfolding 1(2) 2(2) using assms(5-8) n by (simp_all add: rep_put)
  then show ?thesis using w assms(3,4) n rep_res_same [OF w(1)] by (simp add: same_rep_def)
qed

lemma lock_or_queue_rep:
  assumes "mem_ok m" "mem_ok m'" "same_rep r r'"
    and "lock_or_queue m r i = (m1, r1, rv)" "lock_or_queue m' r' i = (m1', r1', rv')"
  shows "same_rep r1 r1' \<and> rv = rv' \<and> mem_ok m1 \<and> mem_ok m1'"
proof (cases "fst (is_conflict r i False)")
  case False
  then have "\<not> fst (is_conflict r' i False)" using assms(3) by (simp add: is_conflict_def same_rep_def)
  with False assms(4,5) have "lock_internal m r i = (m1, r1, rv)" "lock_internal m' r' i = (m1', r1', rv')"
    by (simp_all add: lock_or_queue_def)
  then show ?thesis
    using lock_internal_rep [OF assms(1-3)] lock_internal_keeps_mem assms(1,2) by blast
next
  case True
  then have "fst (is_conflict r' i False)" using assms(3) by (simp add: is_conflict_def same_rep_def)
  with True assms show ?thesis
    using malloc_mem_ok [OF assms(1)] malloc_mem_ok [OF assms(2)]
    by (auto simp: lock_or_queue_def add_waiter_def same_rep_def split: if_splits)
qed

text \<open>The two state changes before \<open>finish_op\<close>: an answer may be written on one of the nodes only.\<close>

lemma do_lock_rep:
  assumes "mem_ok (dmem d)" "mem_ok (dmem d')" "same_rep r r'" "rep ls = rep ls'"
    and "numbers_distinct ls" "numbers_distinct ls'"
    and "search_resource ls (r_number r) = Some r" "search_resource ls' (r_number r') = Some r'"
    and "do_lock d ls i r = (e, l)" "do_lock d' ls' i r' = (e', l')"
  shows "rep l = rep l' \<and> mem_ok (dmem e) \<and> mem_ok (dmem e')"
proof -
  obtain m r1 rv where q: "lock_or_queue (dmem d) r i = (m, r1, rv)" by (metis prod_cases3)
  obtain m' r1' rv' where q': "lock_or_queue (dmem d') r' i = (m', r1', rv')" by (metis prod_cases3)
  note s = lock_or_queue_rep [OF assms(1-3) q q']
  define d2 where "d2 = (if in_nodeid i = our_nodeid d \<and> rv \<noteq> - EINPROGRESS
    then write_result (d\<lparr>dmem := m\<rparr>) ls i rv else d\<lparr>dmem := m\<rparr>)"
  define d2' where "d2' = (if in_nodeid i = our_nodeid d' \<and> rv' \<noteq> - EINPROGRESS
    then write_result (d'\<lparr>dmem := m'\<rparr>) ls' i rv' else d'\<lparr>dmem := m'\<rparr>)"
  have mm: "mem_ok (dmem d2)" "mem_ok (dmem d2')" using s by (auto simp: d2_def d2'_def write_result_reply)
  have n: "r_number r1 = r_number r" "r_number r1' = r_number r'"
    using lock_or_queue_meta [OF q] lock_or_queue_meta [OF q'] by (auto simp: same_meta_def)
  have "finish_op d2 ls r1 = (e, l)" "finish_op d2' ls' r1' = (e', l')"
    using assms(9,10) q q' by (simp_all add: do_lock_def d2_def d2'_def Let_def split: if_splits)
  from finish_op_rep [OF mm _ assms(4-6) _ _ this] show ?thesis using s assms(7,8) n by simp
qed

lemma do_unlock_rep:
  assumes "mem_ok (dmem d)" "mem_ok (dmem d')" "same_rep r r'" "rep ls = rep ls'"
    and "numbers_distinct ls" "numbers_distinct ls'"
    and "search_resource ls (r_number r) = Some r" "search_resource ls' (r_number r') = Some r'"
    and "do_unlock d ls i r = (e, l)" "do_unlock d' ls' i r' = (e', l')"
  shows "rep l = rep l' \<and> mem_ok (dmem e) \<and> mem_ok (dmem e')"
proof -
  obtain m r1 rv where q: "unlock_internal (dmem d) r i = (m, r1, rv)" by (metis prod_cases3)
  obtain m' r1' rv' where q': "unlock_internal (dmem d') r' i = (m', r1', rv')" by (metis prod_cases3)
  note s = unlock_internal_rep [OF assms(1-3) q q']
  define d2 where "d2 = (if in_nodeid i = our_nodeid d
    then write_result (d\<lparr>dmem := m\<rparr>) ls i rv else d\<lparr>dmem := m\<rparr>)"
  define d2' where "d2' = (if in_nodeid i = our_nodeid d'
    then write_result (d'\<lparr>dmem := m'\<rparr>) ls' i rv' else d'\<lparr>dmem := m'\<rparr>)"
  have mm: "mem_ok (dmem d2)" "mem_ok (dmem d2')"
    using unlock_internal_keeps_mem [OF assms(1) q] unlock_internal_keeps_mem [OF assms(2) q']
    by (auto simp: d2_def d2'_def write_result_reply)
  have n: "r_number r1 = r_number r" "r_number r1' = r_number r'"
    using unlock_internal_meta [OF q] unlock_internal_meta [OF q'] by (auto simp: same_meta_def)
  have "finish_op d2 ls r1 = (e, l)" "finish_op d2' ls' r1' = (e', l')"
    using assms(9,10) q q' by (simp_all add: do_unlock_def d2_def d2'_def Let_def split: if_splits)
  from finish_op_rep [OF mm _ assms(4-6) _ _ this] show ?thesis using s assms(7,8) n by simp
qed

lemma receive_plock_op_rep:
  assumes "mem_ok (dmem d)" "mem_ok (dmem d')" "same_rep r r'" "rep ls = rep ls'"
    and "numbers_distinct ls" "numbers_distinct ls'"
    and "search_resource ls (r_number r) = Some r" "search_resource ls' (r_number r') = Some r'"
    and "receive_plock_op d ls i from r = (e, l)" "receive_plock_op d' ls' i from r' = (e', l')"
  shows "rep l = rep l' \<and> mem_ok (dmem e) \<and> mem_ok (dmem e')"
proof (cases "in_optype i")
  case DLM_PLOCK_OP_LOCK
  with assms(9,10) have "do_lock d (ls\<lparr>ls_last_plock_time := time_now d\<rparr>) i r = (e, l)"
    "do_lock d' (ls'\<lparr>ls_last_plock_time := time_now d'\<rparr>) i r' = (e', l')"
    by (simp_all add: receive_plock_op_def)
  from do_lock_rep [OF assms(1-3) _ _ _ _ _ this] assms(4-8) show ?thesis by simp
next
  case DLM_PLOCK_OP_UNLOCK
  with assms(9,10) have "do_unlock d (ls\<lparr>ls_last_plock_time := time_now d\<rparr>) i r = (e, l)"
    "do_unlock d' (ls'\<lparr>ls_last_plock_time := time_now d'\<rparr>) i r' = (e', l')"
    by (simp_all add: receive_plock_op_def)
  from do_unlock_rep [OF assms(1-3) _ _ _ _ _ this] assms(4-8) show ?thesis by simp
next
  case DLM_PLOCK_OP_GET
  with assms show ?thesis
    by (auto simp: receive_plock_op_def do_get_def write_result_reply split: prod.splits)
next
  case (Plock_op_other x)
  with assms show ?thesis by (auto simp: receive_plock_op_def write_result_reply split: if_splits)
qed

subsection \<open>Nodes without resource ownership\<close>

definition same_cfg :: "daemon \<Rightarrow> daemon \<Rightarrow> bool" where
  "same_cfg d d' = (cfgd_plock_ownership d' = cfgd_plock_ownership d \<and>
     cfgd_enable_plock d' = cfgd_enable_plock d \<and> big_endian d' = big_endian d)"

definition unowned :: "daemon \<times> lockspace \<Rightarrow> bool" where
  "unowned s = (case s of (d, ls) \<Rightarrow>
     \<not> cfgd_plock_ownership d \<and> cfgd_enable_plock d \<and> mem_ok (dmem d) \<and> numbers_distinct ls \<and>
     \<not> ls_save_plocks ls \<and> (\<forall>n r. search_resource ls n = Some r \<longrightarrow> r_owner r = 0))"

lemma same_cfg_simps [simp]:
  "same_cfg d d" "same_cfg d (d'\<lparr>dmem := m\<rparr>) = same_cfg d d'" "same_cfg d (d'\<lparr>plock_results := x\<rparr>) = same_cfg d d'"
  "same_cfg d (d'\<lparr>now := t\<rparr>) = same_cfg d d'" "same_cfg d (d'\<lparr>mcast := c, sent := q\<rparr>) = same_cfg d d'"
  by (simp_all add: same_cfg_def)

lemma same_cfg_trans: "same_cfg d d' \<Longrightarrow> same_cfg d' d'' \<Longrightarrow> same_cfg d d''"
  by (simp add: same_cfg_def)

lemma quiet_cfg: "quiet d d' \<Longrightarrow> same_cfg d d'"
  by (auto simp: quiet_def same_cfg_def)

lemma count_cfg [simp]: "same_cfg d (count_recv d)" "same_cfg d (count_read d)"
  by (simp_all add: same_cfg_def count_recv_def count_read_def Let_def)

lemma send_cfg [simp]: "same_cfg d (fst (send_struct_info d ls i t))"
  by (auto simp: send_struct_info_def dlm_send_message_def send_message_def same_cfg_def
      split: prod.splits option.splits)

lemma send_plock_cfg [simp]: "same_cfg d (send_plock d ls i)"
  by (simp add: send_plock_def)

lemma unowned_rows:
  assumes "unowned (d, ls)" "same_cfg d d'" "mem_ok (dmem d')" "rows_meta ls ls'" "numbers_distinct ls'"
    and "ls_save_plocks ls' = ls_save_plocks ls"
  shows "unowned (d', ls')"
  using assms unfolding unowned_def same_cfg_def rows_meta_def by (fastforce simp: same_meta_def)

lemma set_resource_save [simp]: "ls_save_plocks (set_resource ls r) = ls_save_plocks ls"
  by (simp add: set_resource_def)

lemma find_resource_unowned:
  assumes "unowned (d, ls)" "find_resource d ls n True = (d', ls', ro, rv)"
  shows "\<exists>r. ro = Some r \<and> search_resource ls' n = Some r \<and> r_number r = n \<and> r_owner r = 0 \<and>
    rep ls' = rep ls \<and> rep_res (Some r) = rep ls n \<and> unowned (d', ls') \<and> same_cfg d d' \<and>
    our_nodeid d' = our_nodeid d"
proof (cases "search_resource ls n")
  case None
  have "mem_ok (dmem d)" using assms(1) by (simp add: unowned_def)
  then obtain g m where m: "malloc (dmem d) = (Some g, m)" "mem_ok m" using malloc_mem_ok by blast
  let ?new = "\<lparr>r_number = n, r_owner = 0, r_flags = 0, r_last_access = now d, r_locks = [], r_waiters = [],
     r_pending = []\<rparr>"
  let ?ls = "ls\<lparr>ls_plock_resources := ls_plock_resources ls @ [?new]\<rparr>"
  have o: "ro = Some ?new" "ls' = ?ls" "d' = d\<lparr>dmem := m\<rparr>"
    using assms None m by (auto simp: find_resource_def unowned_def Let_def)
  have look: "search_resource ?ls k = (if k = n then Some ?new else search_resource ls k)" for k
    using None by (auto simp: search_resource_def find_append split: option.splits)
  have "numbers_distinct ?ls"
    using assms(1) None by (auto simp: unowned_def numbers_distinct_def search_resource_def find_None_iff)
  then have "unowned (d', ls')" using assms(1) m look by (simp add: unowned_def o)
  moreover have "rep ls' = rep ls" using None look by (auto simp: rep_def o rep_res_def)
  ultimately show ?thesis using o look None by (simp add: rep_def rep_res_def)
next
  case (Some r)
  have r: "r_number r = n" "r_owner r = 0"
    using restab.look_key [OF Some] assms(1) Some by (auto simp: unowned_def)
  let ?r = "r\<lparr>r_last_access := now d\<rparr>"
  have o: "ro = Some ?r" "ls' = set_resource ls ?r" "d' = d"
    using assms(2) Some by (auto simp: find_resource_def Let_def)
  have s: "search_resource ls (r_number ?r) = Some r" using Some r by simp
  have "rows_meta ls ls'" unfolding o by (rule rows_meta_set [OF s]) (simp add: same_meta_def)
  moreover have "numbers_distinct ls'" using assms(1) by (simp add: o unowned_def restab.put_inv)
  moreover have "same_cfg d d'" "mem_ok (dmem d')" "ls_save_plocks ls' = ls_save_plocks ls"
    using assms(1) by (simp_all add: o unowned_def)
  ultimately have "unowned (d', ls')" using unowned_rows [OF assms(1)] by blast
  moreover have "rep ls' = rep ls" using s r Some by (auto simp: o rep_set rep_def rep_res_def)
  moreover have "search_resource ls' n = Some ?r" using s r by (simp add: o restab.look_put)
  ultimately show ?thesis using o r Some by (simp add: rep_def rep_res_def)
qed

lemma put_resource_save [simp]: "ls_save_plocks (put_resource d ls r) = ls_save_plocks ls"
  by (simp add: put_resource_def del_resource_def)

lemma finish_op_save: "finish_op d ls r = (d', ls') \<Longrightarrow> ls_save_plocks ls' = ls_save_plocks ls"
  by (auto simp: finish_op_def split: prod.splits)

lemma receive_plock_op_save:
  "receive_plock_op d ls i from r = (d', ls') \<Longrightarrow> ls_save_plocks ls' = ls_save_plocks ls"
  by (auto simp: receive_plock_op_def do_lock_def do_unlock_def Let_def dest!: finish_op_save
      split: plock_op.splits prod.splits)

text \<open>What a node without ownership does with a lock operation it receives.\<close>

lemma receive_plock_unowned:
  assumes "unowned (d, ls)"
  obtains (ignore) "receive_plock d ls h b = (count_recv d, ls)"
      "(in_optype (msg_info d b) = DLM_PLOCK_OP_GET \<and> hd_nodeid h \<noteq> our_nodeid d) \<or>
       hd_nodeid h \<noteq> in_nodeid (msg_info d b)"
  | (handle) d1 ls1 r where "receive_plock d ls h b = receive_plock_op d1 ls1 (msg_info d b) (hd_nodeid h) r"
      "search_resource ls1 (in_number (msg_info d b)) = Some r" "r_number r = in_number (msg_info d b)"
      "rep ls1 = rep ls" "rep_res (Some r) = rep ls (in_number (msg_info d b))"
      "unowned (d1, ls1)" "same_cfg d d1" "our_nodeid d1 = our_nodeid d"
      "hd_nodeid h = in_nodeid (msg_info d b)"
proof -
  let ?i = "msg_info d b" and ?d = "count_recv d"
  have u: "unowned (?d, ls)" using assms by (simp add: unowned_def count_recv_def Let_def)
  obtain d1 ls1 ro rv where f: "find_resource ?d ls (in_number ?i) True = (d1, ls1, ro, rv)"
    by (metis prod_cases4)
  obtain r where r: "ro = Some r" "search_resource ls1 (in_number ?i) = Some r" "r_number r = in_number ?i"
      "r_owner r = 0" "rep ls1 = rep ls" "rep_res (Some r) = rep ls (in_number ?i)" "unowned (d1, ls1)"
      "same_cfg ?d d1" "our_nodeid d1 = our_nodeid d"
    using find_resource_unowned [OF u f] by auto
  have no: "\<not> cfgd_plock_ownership d" "\<not> ls_save_plocks ls" using assms by (auto simp: unowned_def)
  show thesis
  proof (cases "(in_optype ?i = DLM_PLOCK_OP_GET \<and> hd_nodeid h \<noteq> our_nodeid d) \<or> hd_nodeid h \<noteq> in_nodeid ?i")
    case True
    then show thesis
      using no by (intro ignore) (auto simp: receive_plock_def receive_plock_now_def msg_info_def Let_def)
  next
    case False
    have "receive_plock d ls h b = receive_plock_op d1 ls1 ?i (hd_nodeid h) r"
      using False no f r(1,4)
      by (auto simp: receive_plock_def receive_plock_now_def receive_plock_owner_def msg_info_def Let_def)
    then show thesis
      using handle [of d1 ls1 r] r False same_cfg_trans [OF count_cfg(1) r(8)] by blast
  qed
qed

lemma receive_plock_op_unowned:
  assumes "unowned (d, ls)" "search_resource ls (r_number r) = Some r"
    and "receive_plock_op d ls i from r = (d', ls')" "mem_ok (dmem d')"
  shows "unowned (d', ls') \<and> same_cfg d d'"
proof -
  have "numbers_distinct ls" using assms(1) by (simp add: unowned_def)
  from receive_plock_op_frame [OF this assms(2,3)] show ?thesis
    using assms receive_plock_op_save [OF assms(3)] by (blast intro: unowned_rows quiet_cfg)
qed

lemma receive_plock_op_get_rep:
  "in_optype i = DLM_PLOCK_OP_GET \<Longrightarrow> snd (receive_plock_op d ls i from r) = ls"
  by (simp add: receive_plock_op_def)

definition agree :: "daemon \<times> lockspace \<Rightarrow> daemon \<times> lockspace \<Rightarrow> bool" where
  "agree s s' = (unowned s \<and> unowned s' \<and> rep (snd s) = rep (snd s') \<and>
     big_endian (fst s) = big_endian (fst s'))"

lemma receive_plock_op_agree:
  assumes "agree (d, ls) (d', ls')" "same_rep r r'"
    and "search_resource ls (r_number r) = Some r" "search_resource ls' (r_number r') = Some r'"
  shows "agree (receive_plock_op d ls i from r) (receive_plock_op d' ls' i from r')"
proof -
  obtain e l where o: "receive_plock_op d ls i from r = (e, l)" by force
  obtain e' l' where o': "receive_plock_op d' ls' i from r' = (e', l')" by force
  have u: "unowned (d, ls)" "unowned (d', ls')" and rp: "rep ls = rep ls'" and be: "big_endian d = big_endian d'"
    using assms(1) by (auto simp: agree_def)
  have m: "mem_ok (dmem d)" "mem_ok (dmem d')" "numbers_distinct ls" "numbers_distinct ls'"
    using u by (auto simp: unowned_def)
  have e: "rep l = rep l' \<and> mem_ok (dmem e) \<and> mem_ok (dmem e')"
    using receive_plock_op_rep [OF m(1,2) assms(2) rp m(3,4) assms(3,4) o o'] .
  then have "unowned (e, l)" "same_cfg d e" "unowned (e', l')" "same_cfg d' e'"
    using receive_plock_op_unowned [OF u(1) assms(3) o] receive_plock_op_unowned [OF u(2) assms(4) o'] by auto
  then show ?thesis using e o o' be by (simp add: agree_def same_cfg_def)
qed

lemma count_recv_unowned: "unowned (d, ls) \<Longrightarrow> unowned (count_recv d, ls)"
  by (simp add: unowned_def count_recv_def Let_def)

lemma receive_plock_agree:
  assumes "agree (d, ls) (d', ls')"
  shows "agree (receive_plock d ls h b) (receive_plock d' ls' h b)"
proof -
  have u: "unowned (d, ls)" "unowned (d', ls')" and rp: "rep ls = rep ls'" and be: "big_endian d = big_endian d'"
    using assms by (auto simp: agree_def)
  have i: "msg_info d' b = msg_info d b" using be by (simp add: msg_info_def)
  let ?i = "msg_info d b"
  have get: "unowned (receive_plock_op d1 ls1 ?i f r) \<and> snd (receive_plock_op d1 ls1 ?i f r) = ls1 \<and>
      same_cfg d1 (fst (receive_plock_op d1 ls1 ?i f r))"
    if "in_optype ?i = DLM_PLOCK_OP_GET" "unowned (d1, ls1)" for d1 ls1 f r
    using that by (auto simp: receive_plock_op_def do_get_def write_result_reply unowned_def same_cfg_def
        split: prod.splits)
  show ?thesis
  proof (rule receive_plock_unowned [OF u(1), of h b]; rule receive_plock_unowned [OF u(2), of h b])
    assume "receive_plock d ls h b = (count_recv d, ls)" "receive_plock d' ls' h b = (count_recv d', ls')"
    then show ?thesis
      using u rp be count_cfg(1) [of d] count_cfg(1) [of d']
      by (simp add: agree_def count_recv_unowned same_cfg_def)
  next
    fix d1 ls1 r
    assume 1: "receive_plock d ls h b = (count_recv d, ls)"
      "(in_optype ?i = DLM_PLOCK_OP_GET \<and> hd_nodeid h \<noteq> our_nodeid d) \<or> hd_nodeid h \<noteq> in_nodeid ?i"
      and 2: "receive_plock d' ls' h b = receive_plock_op d1 ls1 (msg_info d' b) (hd_nodeid h) r"
      "rep ls1 = rep ls'" "unowned (d1, ls1)" "same_cfg d' d1" "hd_nodeid h = in_nodeid (msg_info d' b)"
    then have "in_optype ?i = DLM_PLOCK_OP_GET" by (simp add: i)
    from get [OF this 2(3)] show ?thesis
      using 1 2 u rp be count_cfg(1) [of d] unfolding i
      by (simp add: agree_def count_recv_unowned same_cfg_def)
  next
    fix d1 ls1 r
    assume 1: "receive_plock d ls h b = receive_plock_op d1 ls1 ?i (hd_nodeid h) r"
      "rep ls1 = rep ls" "unowned (d1, ls1)" "same_cfg d d1" "hd_nodeid h = in_nodeid ?i"
      and 2: "receive_plock d' ls' h b = (count_recv d', ls')"
      "(in_optype (msg_info d' b) = DLM_PLOCK_OP_GET \<and> hd_nodeid h \<noteq> our_nodeid d') \<or>
       hd_nodeid h \<noteq> in_nodeid (msg_info d' b)"
    then have "in_optype ?i = DLM_PLOCK_OP_GET" by (simp add: i)
    from get [OF this 1(3)] show ?thesis
      using 1 2 u rp be count_cfg(1) [of d'] by (simp add: agree_def count_recv_unowned same_cfg_def)
  next
    fix d1 ls1 r d2 ls2 r'
    assume 1: "receive_plock d ls h b = receive_plock_op d1 ls1 ?i (hd_nodeid h) r"
      "search_resource ls1 (in_number ?i) = Some r" "r_number r = in_number ?i" "rep ls1 = rep ls"
      "rep_res (Some r) = rep ls (in_number ?i)" "unowned (d1, ls1)" "same_cfg d d1"
      and 2: "receive_plock d' ls' h b = receive_plock_op d2 ls2 (msg_info d' b) (hd_nodeid h) r'"
      "search_resource ls2 (in_number (msg_info d' b)) = Some r'" "r_number r' = in_number (msg_info d' b)"
      "rep ls2 = rep ls'" "rep_res (Some r') = rep ls' (in_number (msg_info d' b))" "unowned (d2, ls2)" "same_cfg d' d2"
    have "rep_res (Some r) = rep_res (Some r')" using 1(5) 2(5) rp i by simp
    then have same: "same_rep r r'" using 1(3) 2(3) i by (simp add: rep_res_def same_rep_def)
    have "agree (d1, ls1) (d2, ls2)" using 1 2 rp be by (simp add: agree_def same_cfg_def)
    from receive_plock_op_agree [OF this same] show ?thesis using 1 2 i by simp
  qed
qed

subsection \<open>Node failures\<close>

lemma send_pending_loop_cfg: "same_cfg d (send_pending_loop d ls ws)"
proof (induction ws arbitrary: d)
  case (Cons w ws)
  show ?case using same_cfg_trans [OF send_plock_cfg Cons.IH] by simp
qed simp

lemma same_rep_refl [simp]: "same_rep r r"
  by (simp add: same_rep_def)

lemma purge_stage1:
  assumes "(if r_owner r = nodeid
      then send_pending_plocks d ls ((purge_lists nodeid unmount r)\<lparr>r_owner := 0\<rparr>)
      else (d, purge_lists nodeid unmount r)) = (d1, r1)"
  shows "same_cfg d d1" "mem_ok (dmem d) \<Longrightarrow> mem_ok (dmem d1)" "same_rep (purge_lists nodeid unmount r) r1"
    "r_owner r = 0 \<Longrightarrow> r_owner r1 = 0"
  using assms send_pending_loop_cfg [of d ls] send_pending_loop_mem [of d ls]
  by (auto simp: send_pending_plocks_def same_rep_def purge_lists_def split: if_splits)

lemma purge_stage2:
  assumes "(if r_waiters r1 \<noteq> [] then do_waiters d1 ls r1 else (d1, r1)) = (d2, r2)" "mem_ok (dmem d1)"
  shows "same_cfg d1 d2" "mem_ok (dmem d2)" "r_number r2 = r_number r1" "r_owner r2 = r_owner r1"
  using assms do_waiters_frame [of d1 ls r1 d2 r2]
    do_waiters_rep(2) [OF assms(2,2) same_rep_refl, of ls r1 d2 r2 ls d2 r2]
  by (auto simp: quiet_cfg same_meta_def split: if_splits)

lemma purge_resource_frame:
  assumes "purge_resource d ls nodeid unmount r = (d', ro, n)" "mem_ok (dmem d)"
  shows "same_cfg d d' \<and> mem_ok (dmem d') \<and>
    (\<forall>r'. ro = Some r' \<longrightarrow> r_number r' = r_number r \<and> (r_owner r = 0 \<longrightarrow> r_owner r' = 0))"
proof -
  obtain d1 r1 d2 r2 where st: "(if r_owner r = nodeid
      then send_pending_plocks d ls ((purge_lists nodeid unmount r)\<lparr>r_owner := 0\<rparr>)
      else (d, purge_lists nodeid unmount r)) = (d1, r1)"
    "(if r_waiters r1 \<noteq> [] then do_waiters d1 ls r1 else (d1, r1)) = (d2, r2)"
    "d' = d2" "ro = (if \<not> cfgd_plock_ownership d2 \<and> r_locks r2 = [] \<and> r_waiters r2 = [] then None else Some r2)"
    using assms(1) by (rule purge_resource_stages)
  note a = purge_stage1 [OF st(1)]
  note b = purge_stage2 [OF st(2) a(2) [OF assms(2)]]
  have "r_number r1 = r_number r" using a(3) by (simp add: same_rep_def)
  then show ?thesis using a(1,4) b st(3,4) same_cfg_trans by auto
qed

lemma do_waiters_empty: "r_waiters r = [] \<Longrightarrow> do_waiters d ls r = (d, r\<lparr>r_waiters := []\<rparr>)"
  by (simp add: do_waiters_def)

lemma purge_resource_rep:
  assumes "mem_ok (dmem d)" "mem_ok (dmem d')" "same_rep r r'"
    and "purge_resource d ls nodeid unmount r = (e, ro, n)" "purge_resource d' ls' nodeid unmount r' = (e', ro', n')"
  shows "rep_res ro = rep_res ro'"
proof -
  obtain d1 r1 d2 r2 where 1: "(if r_owner r = nodeid
      then send_pending_plocks d ls ((purge_lists nodeid unmount r)\<lparr>r_owner := 0\<rparr>)
      else (d, purge_lists nodeid unmount r)) = (d1, r1)"
    "(if r_waiters r1 \<noteq> [] then do_waiters d1 ls r1 else (d1, r1)) = (d2, r2)"
    "e = d2" "ro = (if \<not> cfgd_plock_ownership d2 \<and> r_locks r2 = [] \<and> r_waiters r2 = [] then None else Some r2)"
    using assms(4) by (rule purge_resource_stages)
  obtain d1' r1' d2' r2' where 2: "(if r_owner r' = nodeid
      then send_pending_plocks d' ls' ((purge_lists nodeid unmount r')\<lparr>r_owner := 0\<rparr>)
      else (d', purge_lists nodeid unmount r')) = (d1', r1')"
    "(if r_waiters r1' \<noteq> [] then do_waiters d1' ls' r1' else (d1', r1')) = (d2', r2')"
    "e' = d2'" "ro' = (if \<not> cfgd_plock_ownership d2' \<and> r_locks r2' = [] \<and> r_waiters r2' = [] then None else Some r2')"
    using assms(5) by (rule purge_resource_stages)
  note a = purge_stage1 [OF 1(1)] purge_stage1 [OF 2(1)]
  have "map w_info (r_waiters (purge_lists nodeid unmount r)) =
      filter (\<lambda>i. \<not> (in_nodeid i = nodeid \<or> unmount)) (map w_info (r_waiters r))" for r
    by (simp add: purge_lists_def filter_map comp_def)
  then have "same_rep (purge_lists nodeid unmount r) (purge_lists nodeid unmount r')"
    using assms(3) unfolding same_rep_def by (simp add: purge_lists_def)
  then have s: "same_rep r1 r1'" using a(3,7) by (simp add: same_rep_def)
  then have "r_waiters r1 = [] \<longleftrightarrow> r_waiters r1' = []" by (auto simp: same_rep_def)
  then have "same_rep r2 r2'"
    using 1(2) 2(2) s do_waiters_rep(1) [OF a(2) [OF assms(1)] a(6) [OF assms(2)] s, of ls d2 r2 ls' d2' r2']
    by (auto split: if_splits)
  then show ?thesis using 1(4) 2(4) by (auto simp: rep_res_def same_rep_def)
qed

lemma purge_empty_rep:
  assumes "rep_res (Some r) = ([], [])" "mem_ok (dmem d)" "purge_resource d ls nodeid unmount r = (e, ro, n)"
  shows "rep_res ro = ([], [])"
proof -
  obtain d1 r1 d2 r2 where st: "(if r_owner r = nodeid
      then send_pending_plocks d ls ((purge_lists nodeid unmount r)\<lparr>r_owner := 0\<rparr>)
      else (d, purge_lists nodeid unmount r)) = (d1, r1)"
    "(if r_waiters r1 \<noteq> [] then do_waiters d1 ls r1 else (d1, r1)) = (d2, r2)"
    "e = d2" "ro = (if \<not> cfgd_plock_ownership d2 \<and> r_locks r2 = [] \<and> r_waiters r2 = [] then None else Some r2)"
    using assms(3) by (rule purge_resource_stages)
  have "same_rep (purge_lists nodeid unmount r) r1" by (rule purge_stage1(3) [OF st(1)])
  then have "r_locks r1 = []" "r_waiters r1 = []"
    using assms(1) by (auto simp: same_rep_def rep_res_def purge_lists_def)
  then show ?thesis using st(2,4) by (auto simp: rep_res_def)
qed

text \<open>What becomes of one row of the table: the daemon state at that point of the walk is existential.\<close>

definition purged_row :: "lockspace \<Rightarrow> nodeid \<Rightarrow> bool \<Rightarrow> resource option \<Rightarrow> resource option \<Rightarrow> bool" where
  "purged_row ls nodeid unmount x y = (case x of
       None \<Rightarrow> y = None
     | Some r \<Rightarrow> \<exists>e e' k. mem_ok (dmem e) \<and> purge_resource e ls nodeid unmount r = (e', y, k))"

lemma purged_row_simps [simp]:
  "purged_row ls nodeid unmount None y = (y = None)"
  "purged_row ls nodeid unmount (Some r) y =
     (\<exists>e e' k. mem_ok (dmem e) \<and> purge_resource e ls nodeid unmount r = (e', y, k))"
  by (simp_all add: purged_row_def)

lemma purge_loop_look:
  assumes "purge_loop d ls nodeid unmount rs = (d', rs', k)" "distinct (map r_number rs)" "mem_ok (dmem d)"
  shows "same_cfg d d' \<and> mem_ok (dmem d') \<and> distinct (map r_number rs') \<and>
    r_number ` set rs' \<subseteq> r_number ` set rs \<and>
    (\<forall>n. purged_row ls nodeid unmount (find (\<lambda>r. r_number r = n) rs) (find (\<lambda>r. r_number r = n) rs'))"
  using assms
proof (induction rs arbitrary: d d' rs' k)
  case (Cons r rs)
  obtain d1 ro n1 where p: "purge_resource d ls nodeid unmount r = (d1, ro, n1)" by (metis prod_cases3)
  obtain d2 rs2 n2 where l: "purge_loop d1 ls nodeid unmount rs = (d2, rs2, n2)"
    by (cases "purge_loop d1 ls nodeid unmount rs") blast
  have e: "d' = d2" "rs' = (case ro of None \<Rightarrow> rs2 | Some r' \<Rightarrow> r' # rs2)"
    using Cons.prems(1) p l by simp_all
  note f = purge_resource_frame [OF p Cons.prems(3)]
  have dist: "distinct (map r_number rs)" "r_number r \<notin> r_number ` set rs" using Cons.prems(2) by auto
  note IH = Cons.IH [OF l dist(1) f [THEN conjunct2, THEN conjunct1]]
  have cfg: "same_cfg d d2" using f IH same_cfg_trans by blast
  have abs: "find (\<lambda>x. r_number x = r_number r) rs = None"
    using dist(2) by (metis (mono_tags, lifting) find_None_iff image_eqI)
  have rs2: "purged_row ls nodeid unmount (find (\<lambda>r. r_number r = n) rs) (find (\<lambda>r. r_number r = n) rs2)" for n
    using IH by blast
  have abs2: "find (\<lambda>x. r_number x = r_number r) rs2 = None" using rs2 [of "r_number r"] abs by simp
  have num: "r_number ` set rs2 \<subseteq> r_number ` set rs" "distinct (map r_number rs2)" "mem_ok (dmem d2)"
    using IH by blast+
  have new: "ro = Some r' \<Longrightarrow> r_number r' = r_number r" for r' using f by blast
  have look: "find (\<lambda>x. r_number x = n) rs' = (if n = r_number r then ro else find (\<lambda>x. r_number x = n) rs2)" for n
    using e(2) new abs2 by (cases ro) auto
  have "purged_row ls nodeid unmount (find (\<lambda>r. r_number r = n) (r # rs)) (find (\<lambda>r. r_number r = n) rs')" for n
    using rs2 [of n] look [of n] p Cons.prems(3)
    by (cases "n = r_number r") auto
  moreover have "distinct (map r_number rs') \<and> r_number ` set rs' \<subseteq> r_number ` set (r # rs)"
  proof (cases ro)
    case (Some r')
    show ?thesis using e(2) num dist(2) new [OF Some] Some by auto
  qed (use e(2) num in auto)
  ultimately show ?case using cfg num(3) e(1) by blast
qed simp

lemma purge_plocks_look:
  assumes "purge_plocks d ls nodeid unmount = (d', ls')" "numbers_distinct ls" "mem_ok (dmem d)" "cfgd_enable_plock d"
  shows "same_cfg d d' \<and> mem_ok (dmem d') \<and> numbers_distinct ls' \<and> ls_save_plocks ls' = ls_save_plocks ls \<and>
    (\<forall>n. purged_row ls nodeid unmount (search_resource ls n) (search_resource ls' n))"
proof -
  obtain d1 rs k where l: "purge_loop d ls nodeid unmount (ls_plock_resources ls) = (d1, rs, k)"
    by (cases "purge_loop d ls nodeid unmount (ls_plock_resources ls)") blast
  have "d' = d1" "ls_plock_resources ls' = rs" "ls_save_plocks ls' = ls_save_plocks ls"
    using assms(1,4) l by (auto simp: purge_plocks_def Let_def split: if_splits)
  then show ?thesis
    using purge_loop_look [OF l _ assms(3)] assms(2) by (simp add: numbers_distinct_def search_resource_def)
qed

lemma purge_unowned:
  assumes "unowned (d, ls)" "purge_plocks d ls nodeid unmount = (d', ls')"
  shows "unowned (d', ls') \<and> same_cfg d d'"
proof -
  have u: "numbers_distinct ls" "mem_ok (dmem d)" "cfgd_enable_plock d" using assms(1) by (auto simp: unowned_def)
  note l = purge_plocks_look [OF assms(2) u]
  have row: "purged_row ls nodeid unmount (search_resource ls n) (search_resource ls' n)" for n using l by blast
  have "r_owner r' = 0" if r': "search_resource ls' n = Some r'" for n r'
  proof (cases "search_resource ls n")
    case None
    then show ?thesis using row [of n] r' by simp
  next
    case (Some r)
    then obtain e e' k where "mem_ok (dmem e)" "purge_resource e ls nodeid unmount r = (e', Some r', k)"
      using row [of n] r' by auto
    moreover have "r_owner r = 0" using assms(1) Some by (auto simp: unowned_def)
    ultimately show ?thesis using purge_resource_frame by blast
  qed
  with l assms(1) show ?thesis by (auto simp: unowned_def same_cfg_def)
qed

lemma purge_agree:
  assumes "agree (d, ls) (d', ls')"
  shows "agree (purge_plocks d ls nodeid unmount) (purge_plocks d' ls' nodeid unmount)"
proof -
  obtain e l where o: "purge_plocks d ls nodeid unmount = (e, l)" by force
  obtain e' l' where o': "purge_plocks d' ls' nodeid unmount = (e', l')" by force
  have u: "unowned (d, ls)" "unowned (d', ls')" and rp: "rep ls = rep ls'" and be: "big_endian d = big_endian d'"
    using assms(1) by (auto simp: agree_def)
  have w: "numbers_distinct ls" "mem_ok (dmem d)" "cfgd_enable_plock d"
    "numbers_distinct ls'" "mem_ok (dmem d')" "cfgd_enable_plock d'" using u by (auto simp: unowned_def)
  have p: "purged_row ls nodeid unmount (search_resource ls n) (search_resource l n)"
    and p': "purged_row ls' nodeid unmount (search_resource ls' n) (search_resource l' n)" for n
    using purge_plocks_look [OF o w(1-3)] purge_plocks_look [OF o' w(4-6)] by blast+
  have "rep l n = rep l' n" for n
  proof (cases "search_resource ls n"; cases "search_resource ls' n")
    assume "search_resource ls n = None" "search_resource ls' n = None"
    then show ?thesis using p [of n] p' [of n] by (simp add: rep_def)
  next
    fix r assume a: "search_resource ls n = None" "search_resource ls' n = Some r"
    then have "rep_res (Some r) = ([], [])" using fun_cong [OF rp, of n] by (simp add: rep_def rep_res_def)
    then show ?thesis using a p [of n] p' [of n] purge_empty_rep by (auto simp: rep_def rep_res_def)
  next
    fix r assume a: "search_resource ls n = Some r" "search_resource ls' n = None"
    then have "rep_res (Some r) = ([], [])" using fun_cong [OF rp, of n] by (simp add: rep_def rep_res_def)
    then show ?thesis using a p [of n] p' [of n] purge_empty_rep by (auto simp: rep_def rep_res_def)
  next
    fix r r' assume a: "search_resource ls n = Some r" "search_resource ls' n = Some r'"
    then have "same_rep r r'"
      using fun_cong [OF rp, of n] restab.look_key by (auto simp: rep_def rep_res_def same_rep_def)
    then show ?thesis using a p [of n] p' [of n] purge_resource_rep by (auto simp: rep_def)
  qed
  then show ?thesis
    using purge_unowned [OF u(1) o] purge_unowned [OF u(2) o'] o o' be by (auto simp: agree_def same_cfg_def)
qed

subsection \<open>Local events and whole histories\<close>

datatype replica_event =
    Deliver dlm_header body
  | Node_fail nodeid
  | Local_read dlm_plock_info
  | Clock timeval

fun apply_event :: "replica_event \<Rightarrow> daemon \<times> lockspace \<Rightarrow> daemon \<times> lockspace" where
  "apply_event (Deliver h b) (d, ls) = receive_plock d ls h b"
| "apply_event (Node_fail nodeid) (d, ls) = purge_plocks d ls nodeid False"
| "apply_event (Local_read i) (d, ls) = process_plock_ls d ls i"
| "apply_event (Clock t) (d, ls) = (d\<lparr>now := t\<rparr>, ls)"

fun is_global :: "replica_event \<Rightarrow> bool" where
  "is_global (Deliver h b) = True"
| "is_global (Node_fail nodeid) = True"
| "is_global (Local_read i) = False"
| "is_global (Clock t) = False"

definition run_events :: "replica_event list \<Rightarrow> daemon \<times> lockspace \<Rightarrow> daemon \<times> lockspace" where
  "run_events evs s = fold apply_event evs s"

lemma process_plock_unowned:
  assumes "unowned (d, ls)"
  shows "unowned (process_plock_ls d ls i) \<and> rep (snd (process_plock_ls d ls i)) = rep ls \<and>
    same_cfg d (fst (process_plock_ls d ls i))"
proof -
  have u: "unowned (count_read d, ls)" using assms by (simp add: unowned_def count_read_def Let_def)
  obtain d1 ls1 ro rv where f: "find_resource (count_read d) ls (in_number i) True = (d1, ls1, ro, rv)"
    by (metis prod_cases4)
  from find_resource_unowned [OF u f] obtain r where r: "ro = Some r" "r_owner r = 0" "rep ls1 = rep ls"
      "unowned (d1, ls1)" "same_cfg (count_read d) d1" by blast
  have c: "same_cfg d d1" using same_cfg_trans [OF count_cfg(2) r(5)] .
  have "\<not> cfgd_plock_ownership (send_plock d1 ls1 i)"
    using r(4) send_plock_cfg [of d1 ls1 i] by (simp add: unowned_def same_cfg_def)
  then have "process_plock_ls d ls i = (send_plock d1 ls1 i, ls1)"
    using f r(1,2) by (simp add: process_plock_ls_def)
  moreover have "unowned (send_plock d1 ls1 i, ls1)"
    using r(4) send_plock_cfg [of d1 ls1 i] by (auto simp: unowned_def same_cfg_def)
  ultimately show ?thesis using r(3) same_cfg_trans [OF c send_plock_cfg] by simp
qed

lemma apply_event_agree:
  assumes "agree s s'"
  shows "is_global ev \<Longrightarrow> agree (apply_event ev s) (apply_event ev s')"
    and "\<not> is_global ev \<Longrightarrow> agree (apply_event ev s) s'"
proof -
  obtain d ls d' ls' where s: "s = (d, ls)" "s' = (d', ls')" by (cases s; cases s') blast
  show "agree (apply_event ev s) (apply_event ev s')" if "is_global ev"
    using that assms receive_plock_agree purge_agree unfolding s by (cases ev) auto
  show "agree (apply_event ev s) s'" if "\<not> is_global ev"
    using that assms process_plock_unowned [of d ls] unfolding s
    by (cases ev) (auto simp: agree_def same_cfg_def unowned_def)
qed

lemma run_events_agree:
  "agree s s' \<Longrightarrow> agree (run_events evs s) (run_events (filter is_global evs) s')"
proof (induction evs arbitrary: s s')
  case (Cons ev evs)
  then show ?case
    using apply_event_agree [OF Cons.prems, of ev] by (auto simp: run_events_def)
qed (simp add: run_events_def)

subsection \<open>Properties\<close>



end
