(* ===== verification/Plock_Owner.thy ===== *)
theory Plock_Owner
  imports Plock_Replica "HOL-Library.Sublist"
begin

text \<open>
  Resource ownership.  With \<^verbatim>\<open>plock_ownership\<close> a node that owns a resource handles its lock operations
  without messages.  The theory follows the owner field of one inode through every handler: own
  messages change it as the table \<open>own_next\<close> says, everything else leaves it alone or gives ownership up.
  Since all nodes deliver own messages in one order, only the sender of the first claim becomes owner.
\<close>

subsection \<open>The owner field\<close>

definition owner_at :: "lockspace \<Rightarrow> u64 \<Rightarrow> nodeid" where
  "owner_at ls n = (case search_resource ls n of None \<Rightarrow> -1 | Some r \<Rightarrow> r_owner r)"

definition owning :: "daemon \<times> lockspace \<Rightarrow> bool" where
  "owning s = (cfgd_plock_ownership (fst s) \<and> numbers_distinct (snd s) \<and> \<not> ls_save_plocks (snd s))"

definition same_node :: "daemon \<Rightarrow> daemon \<Rightarrow> bool" where
  "same_node d d' = (our_nodeid d' = our_nodeid d \<and> big_endian d' = big_endian d \<and>
     cfgd_plock_ownership d' = cfgd_plock_ownership d)"

text \<open>\<open>keeps R\<close>: the handler keeps the configuration and changes owners only as \<open>R\<close> allows.\<close>

definition keeps ::
  "(u64 \<Rightarrow> nodeid \<Rightarrow> nodeid \<Rightarrow> bool) \<Rightarrow> daemon \<times> lockspace \<Rightarrow> daemon \<times> lockspace \<Rightarrow> bool"
where
  "keeps R s s' = (same_node (fst s) (fst s') \<and> owning s' \<and>
     (\<forall>n. R n (owner_at (snd s) n) (owner_at (snd s') n)))"

abbreviation same_owner_at :: "u64 \<Rightarrow> nodeid \<Rightarrow> nodeid \<Rightarrow> bool" where
  "same_owner_at n a b \<equiv> b = a"

lemma same_node_refl [simp]: "same_node d d"
  by (simp add: same_node_def)

lemma same_node_trans: "same_node d d' \<Longrightarrow> same_node d' d'' \<Longrightarrow> same_node d d''"
  by (simp add: same_node_def)

lemma quiet_node: "quiet d d' \<Longrightarrow> same_node d d'"
  by (auto simp: quiet_def same_node_def)

lemma send_struct_info_node [simp]: "same_node d (fst (send_struct_info d ls i t))"
  by (auto simp: send_struct_info_def dlm_send_message_def send_message_def same_node_def
      split: prod.splits option.splits)

lemma send_node [simp]:
  "same_node d (send_plock d ls i)" "same_node d (send_own d ls r owner)" "same_node d (send_drop d ls r)"
  by (simp_all add: send_plock_def send_own_def send_drop_def)

lemma send_pending_loop_node: "same_node d (send_pending_loop d ls ws)"
proof (induction ws arbitrary: d)
  case (Cons w ws)
  show ?case using same_node_trans [OF send_node(1) Cons.IH] by simp
qed simp

lemma count_node [simp]: "same_node d (count_recv d)" "same_node d (count_read d)"
  by (simp_all add: same_node_def count_recv_def count_read_def Let_def)

lemma owner_at_set:
  "search_resource ls (r_number r) \<noteq> None \<Longrightarrow>
   owner_at (set_resource ls r) = (owner_at ls)(r_number r := r_owner r)"
  by (auto simp: owner_at_def restab.look_put)

lemma owner_at_some: "search_resource ls n = Some r \<Longrightarrow> owner_at ls n = r_owner r"
  by (simp add: owner_at_def)

lemma owning_set: "owning (d, ls) \<Longrightarrow> owning (d, set_resource ls r)"
  by (simp add: owning_def restab.put_inv)

lemma owning_node: "owning (d, ls) \<Longrightarrow> same_node d d' \<Longrightarrow> owning (d', ls)"
  by (simp add: owning_def same_node_def)

lemma keeps_refl: "owning s \<Longrightarrow> keeps same_owner_at s s"
  by (simp add: keeps_def)

lemma keeps_same_trans: "keeps same_owner_at s s' \<Longrightarrow> keeps R s' s'' \<Longrightarrow> keeps R s s''"
  using same_node_trans by (auto simp: keeps_def)

lemma keeps_set:
  assumes "owning (d, ls)" "same_node d d'" "search_resource ls (r_number r) \<noteq> None"
  shows "keeps (\<lambda>n a b. b = (if n = r_number r then r_owner r else a)) (d, ls) (d', set_resource ls r)"
  using assms by (simp add: keeps_def owner_at_set owning_def same_node_def restab.put_inv)

lemma keeps_set_same:
  assumes "owning (d, ls)" "same_node d d'" "search_resource ls (r_number r) = Some r0" "r_owner r = r_owner r0"
  shows "keeps same_owner_at (d, ls) (d', set_resource ls r)"
  using assms keeps_set [OF assms(1,2), of r] by (auto simp: keeps_def owner_at_def)

lemma find_resource_keeps:
  assumes "owning (d, ls)" "find_resource d ls n create = (d', ls', ro, rv)"
  shows "keeps same_owner_at (d, ls) (d', ls') \<and>
    (\<forall>r. ro = Some r \<longrightarrow> search_resource ls' n = Some r \<and> r_number r = n)"
proof (cases "search_resource ls n")
  case None
  let ?new = "\<lparr>r_number = n, r_owner = -1, r_flags = 0, r_last_access = now d, r_locks = [], r_waiters = [],
     r_pending = []\<rparr>"
  let ?ls = "ls\<lparr>ls_plock_resources := ls_plock_resources ls @ [?new]\<rparr>"
  have look: "search_resource ?ls k = (if k = n then Some ?new else search_resource ls k)" for k
    using None by (auto simp: search_resource_def find_append split: option.splits)
  have "numbers_distinct ?ls"
    using assms(1) None by (auto simp: owning_def numbers_distinct_def search_resource_def find_None_iff)
  then have "keeps same_owner_at (d, ls) (d\<lparr>dmem := m\<rparr>, ?ls)" for m
    using assms(1) None look by (auto simp: keeps_def owning_def owner_at_def same_node_def)
  moreover have "keeps same_owner_at (d, ls) (d\<lparr>dmem := m\<rparr>, ls)" for m
    using assms(1) by (simp add: keeps_def owning_def same_node_def)
  ultimately show ?thesis
    using assms None look keeps_refl [OF assms(1)]
    by (auto simp: find_resource_def owning_def Let_def split: if_splits prod.splits option.splits)
next
  case (Some r)
  have n: "r_number r = n" using restab.look_key [OF Some] .
  let ?r = "r\<lparr>r_last_access := now d\<rparr>"
  have o: "ro = Some ?r" "ls' = set_resource ls ?r" "d' = d"
    using assms(2) Some by (auto simp: find_resource_def Let_def)
  have s: "search_resource ls (r_number ?r) = Some r" using Some n by simp
  show ?thesis
    using keeps_set_same [OF assms(1) same_node_refl s] s n by (simp add: o restab.look_put)
qed

subsection \<open>Lock operations keep every owner\<close>

lemma finish_op_keeps:
  assumes "owning (d, ls)" "search_resource ls (r_number r) = Some r0" "r_owner r = r_owner r0"
    and "finish_op d ls r = (d', ls')"
  shows "keeps same_owner_at (d, ls) (d', ls')"
proof -
  obtain r' where w: "do_waiters d ls r = (d', r')" and ls': "ls' = put_resource d' (set_resource ls r') r'"
    using assms(4) by (auto simp: finish_op_def split: prod.splits)
  note f = do_waiters_frame [OF w]
  have "cfgd_plock_ownership d'" using f assms(1) by (auto simp: quiet_def owning_def)
  then have "ls' = set_resource ls r'" by (simp add: ls' put_resource_def)
  then show ?thesis
    using keeps_set_same [OF assms(1) quiet_node, of d' r' r0] f assms(2,3) by (auto simp: same_meta_def)
qed

lemma keeps_quiet:
  assumes "quiet d d1" "keeps R (d1, ls) s" shows "keeps R (d, ls) s"
  using assms quiet_node same_node_trans unfolding keeps_def fst_conv snd_conv by blast

lemma do_lock_keeps:
  assumes "owning (d, ls)" "search_resource ls (r_number r) = Some r"
  shows "keeps same_owner_at (d, ls) (do_lock d ls i r)"
proof -
  obtain m r1 rv where o: "lock_or_queue (dmem d) r i = (m, r1, rv)" by (metis prod_cases3)
  note meta = lock_or_queue_meta [OF o]
  define d2 where "d2 = (if in_nodeid i = our_nodeid d \<and> rv \<noteq> - EINPROGRESS
    then write_result (d\<lparr>dmem := m\<rparr>) ls i rv else d\<lparr>dmem := m\<rparr>)"
  have q: "quiet d d2" by (simp add: d2_def)
  have e: "do_lock d ls i r = finish_op d2 ls r1" by (simp add: do_lock_def o d2_def Let_def)
  obtain d' ls' where f: "finish_op d2 ls r1 = (d', ls')" by force
  have "owning (d2, ls)" using owning_node [OF assms(1) quiet_node [OF q]] .
  from finish_op_keeps [OF this _ _ f, of r] meta assms(2) show ?thesis
    unfolding e f by (auto intro: keeps_quiet [OF q] simp: same_meta_def)
qed

lemma do_unlock_keeps:
  assumes "owning (d, ls)" "search_resource ls (r_number r) = Some r"
  shows "keeps same_owner_at (d, ls) (do_unlock d ls i r)"
proof -
  obtain m r1 rv where o: "unlock_internal (dmem d) r i = (m, r1, rv)" by (metis prod_cases3)
  note meta = unlock_internal_meta [OF o]
  define d2 where "d2 = (if in_nodeid i = our_nodeid d
    then write_result (d\<lparr>dmem := m\<rparr>) ls i rv else d\<lparr>dmem := m\<rparr>)"
  have q: "quiet d d2" by (simp add: d2_def)
  have e: "do_unlock d ls i r = finish_op d2 ls r1" by (simp add: do_unlock_def o d2_def Let_def)
  obtain d' ls' where f: "finish_op d2 ls r1 = (d', ls')" by force
  have "owning (d2, ls)" using owning_node [OF assms(1) quiet_node [OF q]] .
  from finish_op_keeps [OF this _ _ f, of r] meta assms(2) show ?thesis
    unfolding e f by (auto intro: keeps_quiet [OF q] simp: same_meta_def)
qed

lemma owner_at_time [simp]: "owner_at (ls\<lparr>ls_last_plock_time := t\<rparr>) = owner_at ls"
  by (simp add: owner_at_def fun_eq_iff)

lemma keeps_time [simp]: "keeps R (d, ls\<lparr>ls_last_plock_time := t\<rparr>) s = keeps R (d, ls) s"
  by (simp add: keeps_def)

lemma keeps_time2 [simp]: "keeps R s (d, ls\<lparr>ls_last_plock_time := t\<rparr>) = keeps R s (d, ls)"
  by (simp add: keeps_def owning_def)

lemma owning_time [simp]: "owning (d, ls\<lparr>ls_last_plock_time := t\<rparr>) = owning (d, ls)"
  by (simp add: owning_def)

lemma receive_plock_op_keeps:
  assumes "owning (d, ls)" "search_resource ls (r_number r) = Some r"
  shows "keeps same_owner_at (d, ls) (receive_plock_op d ls i from r)"
proof -
  have q: "keeps same_owner_at (d, ls) (d', ls)" if "quiet d d'" for d'
    using that assms(1) owning_node quiet_node by (auto simp: keeps_def)
  show ?thesis
    using do_lock_keeps [of d "ls\<lparr>ls_last_plock_time := time_now d\<rparr>" r i]
      do_unlock_keeps [of d "ls\<lparr>ls_last_plock_time := time_now d\<rparr>" r i] assms q do_get_quiet
    by (cases "in_optype i") (simp_all add: receive_plock_op_def)
qed

lemma hold_keeps:
  assumes "owning (d, ls)" "search_resource ls (r_number r) = Some r" "same_node d d1"
    and "save_pending_plock d1 r i = (d', r')"
  shows "keeps same_owner_at (d, ls) (d', set_resource ls r')"
proof -
  have "same_node d1 d'" "r_number r' = r_number r" "r_owner r' = r_owner r"
    using assms(4) by (auto simp: save_pending_plock_def same_node_def split: prod.splits option.splits)
  then show ?thesis
    using keeps_set_same [OF assms(1), of d' r' r] assms(2,3) same_node_trans by auto
qed

lemma hold_own_plock_keeps:
  assumes "owning (d, ls)" "search_resource ls (r_number r) = Some r"
  shows "keeps same_owner_at (d, ls) (hold_own_plock d ls from i r)"
  using hold_keeps [OF assms same_node_refl] keeps_refl [OF assms(1)]
  by (auto simp: hold_own_plock_def split: prod.splits)

lemma receive_plock_missing_keeps:
  assumes "owning (d, ls)"
  shows "keeps same_owner_at (d, ls) (receive_plock_missing d ls from i)"
proof -
  obtain d1 ls1 ro rv where f: "find_resource d ls (in_number i) True = (d1, ls1, ro, rv)"
    by (metis prod_cases4)
  note k = find_resource_keeps [OF assms f]
  have o: "owning (d1, ls1)" using k by (simp add: keeps_def)
  show ?thesis
  proof (cases ro)
    case None
    then show ?thesis using k f keeps_refl [OF assms] by (simp add: receive_plock_missing_def)
  next
    case (Some r)
    obtain d2 r2 where p: "save_pending_plock (send_own d1 ls1 r (our_nodeid d1)) r i = (d2, r2)" by force
    have "search_resource ls1 (r_number r) = Some r" using k Some by simp
    from hold_keeps [OF o this send_node(2) p] have "keeps same_owner_at (d, ls) (d2, set_resource ls1 r2)"
      using keeps_same_trans k by blast
    then show ?thesis using f Some p keeps_refl [OF assms] by (simp add: receive_plock_missing_def)
  qed
qed

lemma receive_plock_keeps:
  assumes "owning (d, ls)"
  shows "keeps same_owner_at (d, ls) (receive_plock d ls h b)"
proof -
  let ?i = "msg_info d b" and ?d = "count_recv d"
  have o: "owning (?d, ls)" using owning_node [OF assms count_node(1)] .
  have c: "keeps same_owner_at (d, ls) (?d, ls)" using o by (simp add: keeps_def)
  obtain d1 ls1 ro rv where f: "find_resource ?d ls (in_number ?i) (\<not> cfgd_plock_ownership d) = (d1, ls1, ro, rv)"
    by (metis prod_cases4)
  note k = find_resource_keeps [OF o f]
  have k1: "keeps same_owner_at (d, ls) (d1, ls1)" using keeps_same_trans [OF c] k by blast
  then have o1: "owning (d1, ls1)" by (simp add: keeps_def)
  have "keeps same_owner_at (d1, ls1) (receive_plock_owner d1 ls1 from ?i r)" if "ro = Some r" for r "from"
    using that k receive_plock_op_keeps [OF o1] hold_own_plock_keeps [OF o1] keeps_refl [OF o1]
    by (auto simp: receive_plock_owner_def)
  then have k2: "keeps same_owner_at (d, ls) (case ro of None \<Rightarrow> receive_plock_missing d1 ls1 (hd_nodeid h) ?i
      | Some r \<Rightarrow> receive_plock_owner d1 ls1 (hd_nodeid h) ?i r)"
    using keeps_same_trans [OF k1] receive_plock_missing_keeps [OF o1] by (cases ro) auto
  have "\<not> ls_save_plocks ls" using assms by (simp add: owning_def)
  then show ?thesis
    using k2 c f unfolding receive_plock_def receive_plock_now_def msg_info_def Let_def
    by (auto split: option.splits)
qed

lemma receive_sync_keeps:
  assumes "owning (d, ls)"
  shows "keeps same_owner_at (d, ls) (receive_sync d ls h b)"
proof -
  let ?i = "msg_info d b"
  obtain d1 ls1 ro rv where f: "find_resource d ls (in_number ?i) False = (d1, ls1, ro, rv)"
    by (metis prod_cases4)
  note k = find_resource_keeps [OF assms f]
  then have o: "owning (d1, ls1)" by (simp add: keeps_def)
  have save: "\<not> ls_save_plocks ls" using assms by (simp add: owning_def)
  show ?thesis
  proof (cases ro)
    case None
    then show ?thesis using k f save
      by (simp add: receive_sync_def receive_sync_now_def msg_info_def Let_def)
  next
    case (Some r)
    have s: "search_resource ls1 (r_number r) = Some r" using k Some by simp
    have st: "keeps same_owner_at (d, ls) (d2, set_resource ls1 r2)"
      if "same_node d1 d2" "r_number r2 = r_number r" "r_owner r2 = r_owner r" for d2 r2
      using keeps_set_same [OF o that(1), of r2 r] that s k keeps_same_trans by auto
    have "keeps same_owner_at (d, ls) (case add_waiter (dmem d1) r ?i of (m, r, _) \<Rightarrow> (d1\<lparr>dmem := m\<rparr>, set_resource ls1 r))"
      using add_waiter_meta [of "dmem d1" r ?i] by (auto simp: same_meta_def same_node_def intro!: st split: prod.splits)
    moreover have "keeps same_owner_at (d, ls) (d1, set_resource ls1 (clear_syncing_flag r ?i))"
      using clear_syncing_core(3) [of r ?i] by (intro st) (simp_all add: same_meta_def)
    moreover have "keeps same_owner_at (d, ls)
        (case add_lock (dmem d1) (r_locks r) n w p e x y of (m, locks, _) \<Rightarrow>
          (d1\<lparr>dmem := m\<rparr>, set_resource ls1 (r\<lparr>r_locks := locks\<rparr>)))" for n w p e x y
      by (auto intro!: st simp: same_node_def split: prod.splits)
    ultimately show ?thesis
      using k f save Some
      by (simp add: receive_sync_def receive_sync_now_def msg_info_def Let_def)
  qed
qed

subsection \<open>Giving ownership up\<close>

text \<open>An owner may turn into 0 when it is us, or when it is the failed node.\<close>

definition drops :: "nodeid \<Rightarrow> u64 \<Rightarrow> nodeid \<Rightarrow> nodeid \<Rightarrow> bool" where
  "drops x n a b = (b = a \<or> (a = x \<and> b = 0))"

lemma drop_resources_loop_owner:
  assumes "drop_resources_loop d ls count rs = (d', rs')"
  shows "same_node d d' \<and> list_all2 (\<lambda>r r'. r_number r' = r_number r \<and> drops (our_nodeid d) (r_number r) (r_owner r) (r_owner r')) rs rs'"
  using assms
proof (induction rs arbitrary: d count d' rs')
  case (Cons r rs)
  define e where "e = (if r_owner r = our_nodeid d then send_own d ls r 0
    else if r_owner r = 0 \<and> got_unown r then send_drop d ls r else d)"
  define r1 where "r1 = (if r_owner r = our_nodeid d then r\<lparr>r_owner := 0\<rparr> else r)"
  have e: "same_node d e" "r_number r1 = r_number r" "drops (our_nodeid d) (r_number r) (r_owner r) (r_owner r1)"
    by (auto simp: e_def r1_def drops_def)
  have refl: "drops x n a a" for x n a by (simp add: drops_def)
  have "drop_resources_loop d ls count (r # rs) =
     (if count \<ge> cfgd_drop_resources_count d then (d, r # rs)
      else if (r_owner r \<noteq> 0 \<and> r_owner r \<noteq> our_nodeid d) \<or>
        time_diff_ms (r_last_access r) (now d) < ucast (cfgd_drop_resources_age d) \<or>
        \<not> (r_locks r = [] \<and> r_waiters r = [])
      then (case drop_resources_loop d ls count rs of (d', rs') \<Rightarrow> (d', r # rs'))
      else (case drop_resources_loop e ls (count + 1) rs of (d', rs') \<Rightarrow> (d', r1 # rs')))"
    by (auto simp: e_def r1_def)
  then consider "d' = d" "rs' = r # rs"
    | rs2 where "drop_resources_loop d ls count rs = (d', rs2)" "rs' = r # rs2"
    | rs2 where "drop_resources_loop e ls (count + 1) rs = (d', rs2)" "rs' = r1 # rs2"
    using Cons.prems by (auto split: if_splits prod.splits)
  then show ?case
  proof cases
    case 1
    then show ?thesis by (simp add: refl list_all2_same)
  next
    case 2
    then show ?thesis using Cons.IH [OF 2(1)] by (simp add: refl)
  next
    case 3
    then show ?thesis using Cons.IH [OF 3(1)] e same_node_trans by (auto simp: same_node_def)
  qed
qed simp

lemma list_all2_find:
  assumes "list_all2 (\<lambda>r r'. r_number r' = r_number r \<and> P (r_number r) (r_owner r) (r_owner r')) rs rs'"
  shows "rel_option (\<lambda>r r'. P n (r_owner r) (r_owner r'))
    (find (\<lambda>r. r_number r = n) rs) (find (\<lambda>r. r_number r = n) rs')"
  using assms by (induction rule: list_all2_induct) auto

text \<open>A walk that rewrites the resources one by one keeps owners as its steps do.\<close>

lemma keeps_all2:
  assumes "owning (d, ls)" "same_node d d'" "ls' = ls\<lparr>ls_plock_resources := rs\<rparr>"
    and a: "list_all2 (\<lambda>r r'. r_number r' = r_number r \<and> drops x (r_number r) (r_owner r) (r_owner r'))
      (ls_plock_resources ls) rs"
  shows "keeps (drops x) (d, ls) (d', ls')"
proof -
  have "map r_number rs = map r_number (ls_plock_resources ls)"
    using a by (induction rule: list_all2_induct) auto
  then have d: "numbers_distinct ls'" using assms(1,3) by (simp add: numbers_distinct_def owning_def)
  have rel: "rel_option (\<lambda>r r'. drops x n (r_owner r) (r_owner r')) (search_resource ls n) (search_resource ls' n)" for n
    using list_all2_find [OF a, of n] by (simp add: search_resource_def assms(3))
  have "drops x n (owner_at ls n) (owner_at ls' n)" for n
    using rel [of n] by (auto simp: owner_at_def drops_def rel_option_iff split: option.splits)
  then show ?thesis using d assms(1-3) by (simp add: keeps_def owning_def same_node_def)
qed

lemma drop_resources_keeps:
  assumes "owning (d, ls)"
  shows "keeps (drops (our_nodeid d)) (d, ls) (drop_resources d ls)"
proof -
  obtain d' rs where l: "drop_resources_loop d ls 0 (rev (ls_plock_resources ls)) = (d', rs)" by force
  note o = drop_resources_loop_owner [OF l]
  have "list_all2 (\<lambda>r r'. r_number r' = r_number r \<and> drops (our_nodeid d) (r_number r) (r_owner r) (r_owner r'))
      (ls_plock_resources ls) (rev rs)"
    using o [THEN conjunct2] by (subst list_all2_rev [symmetric]) simp
  from keeps_all2 [OF assms _ refl this] o l show ?thesis by (simp add: drop_resources_def)
qed

lemma keeps_mono: "keeps R s s' \<Longrightarrow> (\<And>n a b. R n a b \<Longrightarrow> Q n a b) \<Longrightarrow> keeps Q s s'"
  by (auto simp: keeps_def)

lemma process_plock_ls_keeps:
  assumes "owning (d, ls)"
  shows "keeps (drops (our_nodeid d)) (d, ls) (process_plock_ls d ls i)"
proof -
  have o: "owning (count_read d, ls)" using owning_node [OF assms count_node(2)] .
  have c: "keeps same_owner_at (d, ls) (count_read d, ls)" using o by (simp add: keeps_def)
  obtain d1 ls1 ro rv where f: "find_resource (count_read d) ls (in_number i) True = (d1, ls1, ro, rv)"
    by (metis prod_cases4)
  note k = find_resource_keeps [OF o f]
  have k1: "keeps same_owner_at (d, ls) (d1, ls1)" using keeps_same_trans [OF c] k by blast
  then have o1: "owning (d1, ls1)" by (simp add: keeps_def)
  show ?thesis
  proof (cases ro)
    case None
    have "keeps same_owner_at (d, ls) (write_fail d1 i rv, ls1)"
      using k1 by (auto simp: keeps_def write_fail_def owning_def same_node_def)
    then show ?thesis using None f by (auto simp: process_plock_ls_def drops_def elim: keeps_mono)
  next
    case (Some r)
    have s: "search_resource ls1 (r_number r) = Some r" using k Some by simp
    obtain d2 ls2 where b: "(if r_owner r = 0 then (send_plock d1 ls1 i, ls1)
        else if r_owner r = our_nodeid d1 then receive_plock_op d1 ls1 i (our_nodeid d1) r
        else (case save_pending_plock (send_own d1 ls1 r (our_nodeid d1)) r i of
                (d, r) \<Rightarrow> (d, set_resource ls1 r))) = (d2, ls2)" by force
    have "keeps same_owner_at (d1, ls1) (send_plock d1 ls1 i, ls1)"
      using owning_node [OF o1 send_node(1)] by (simp add: keeps_def)
    then have "keeps same_owner_at (d1, ls1) (d2, ls2)"
      using b receive_plock_op_keeps [OF o1 s, of i "our_nodeid d1"] hold_keeps [OF o1 s send_node(2)]
      by (auto split: if_splits prod.splits)
    from keeps_same_trans [OF k1 this] have k2: "keeps same_owner_at (d, ls) (d2, ls2)" .
    then have "keeps same_owner_at (d, ls) (d2, ls2\<lparr>ls_drop_resources_last := t\<rparr>)" for t
      by (auto simp: keeps_def owning_def numbers_distinct_def owner_at_def)
    moreover from this have "owning (d2, ls2\<lparr>ls_drop_resources_last := t\<rparr>)" "our_nodeid d2 = our_nodeid d" for t
      by (auto simp: keeps_def same_node_def)
    ultimately have "keeps (drops (our_nodeid d)) (d, ls) (drop_resources d2 (ls2\<lparr>ls_drop_resources_last := t\<rparr>))" for t
      using drop_resources_keeps keeps_same_trans by metis
    then show ?thesis
      using b f Some k2 by (auto simp: process_plock_ls_def drops_def elim: keeps_mono)
  qed
qed

lemma purge_resource_owner:
  assumes "purge_resource d ls nodeid unmount r = (d', ro, k)" "cfgd_plock_ownership d"
  obtains r' where "ro = Some r'" "same_node d d'" "r_number r' = r_number r"
    "drops nodeid (r_number r) (r_owner r) (r_owner r')"
proof -
  obtain d1 r1 d2 r2 where st: "(if r_owner r = nodeid
      then send_pending_plocks d ls ((purge_lists nodeid unmount r)\<lparr>r_owner := 0\<rparr>)
      else (d, purge_lists nodeid unmount r)) = (d1, r1)"
    "(if r_waiters r1 \<noteq> [] then do_waiters d1 ls r1 else (d1, r1)) = (d2, r2)"
    "d' = d2" "ro = (if \<not> cfgd_plock_ownership d2 \<and> r_locks r2 = [] \<and> r_waiters r2 = [] then None else Some r2)"
    using assms(1) by (rule purge_resource_stages)
  have 1: "same_node d d1" "r_number r1 = r_number r" "drops nodeid (r_number r) (r_owner r) (r_owner r1)"
    using st(1) send_pending_loop_node [of d ls]
    by (auto simp: send_pending_plocks_def drops_def purge_lists_def split: if_splits)
  have 2: "same_node d1 d2" "r_number r2 = r_number r1" "r_owner r2 = r_owner r1"
    using st(2) do_waiters_frame [of d1 ls r1 d2 r2] by (auto simp: same_meta_def quiet_node split: if_splits)
  have "same_node d d2" using 1(1) 2(1) by (rule same_node_trans)
  then show thesis using that [of r2] 1 2 st(3,4) assms(2) by (auto simp: same_node_def)
qed

lemma purge_loop_owner:
  assumes "purge_loop d ls nodeid unmount rs = (d', rs', k)" "cfgd_plock_ownership d"
  shows "same_node d d' \<and>
    list_all2 (\<lambda>r r'. r_number r' = r_number r \<and> drops nodeid (r_number r) (r_owner r) (r_owner r')) rs rs'"
  using assms
proof (induction rs arbitrary: d d' rs' k)
  case (Cons r rs)
  obtain d1 ro n1 where p: "purge_resource d ls nodeid unmount r = (d1, ro, n1)" by (metis prod_cases3)
  obtain d2 rs2 n2 where l: "purge_loop d1 ls nodeid unmount rs = (d2, rs2, n2)"
    by (cases "purge_loop d1 ls nodeid unmount rs") blast
  obtain r' where r': "ro = Some r'" "same_node d d1" "r_number r' = r_number r"
      "drops nodeid (r_number r) (r_owner r) (r_owner r')"
    using purge_resource_owner [OF p Cons.prems(2)] by blast
  have e: "d' = d2" "rs' = r' # rs2" using Cons.prems(1) p l r'(1) by simp_all
  have "cfgd_plock_ownership d1" using r'(2) Cons.prems(2) by (simp add: same_node_def)
  from Cons.IH [OF l this] r' show ?case unfolding e using same_node_trans by auto
qed simp

lemma purge_keeps:
  assumes "owning (d, ls)"
  shows "keeps (drops nodeid) (d, ls) (purge_plocks d ls nodeid unmount)"
proof -
  obtain d' rs k where l: "purge_loop d ls nodeid unmount (ls_plock_resources ls) = (d', rs, k)"
    by (cases "purge_loop d ls nodeid unmount (ls_plock_resources ls)") blast
  have "keeps (drops nodeid) (d, ls) (d', ls\<lparr>ls_plock_resources := rs\<rparr>)"
    using purge_loop_owner [OF l] assms by (intro keeps_all2) (auto simp: owning_def)
  moreover have "keeps (drops nodeid) (d, ls) (d, ls)"
    using keeps_refl [OF assms] by (rule keeps_mono) (simp add: drops_def)
  ultimately show ?thesis using l by (simp add: purge_plocks_def Let_def)
qed

subsection \<open>Own messages\<close>

definition own_next :: "nodeid \<Rightarrow> nodeid \<Rightarrow> nodeid \<Rightarrow> nodeid \<Rightarrow> nodeid" where
  "own_next our from nodeid old =
     (if from = our then (if nodeid = our \<and> nodeid \<noteq> 0 \<and> old = -1 then our else old)
      else if nodeid = 0 then (if old = -1 \<or> old = our then old else 0)
      else if nodeid = from then (if old = -1 then from else if old = our then 0 else old)
      else old)"

lemma add_pending_loop_keeps:
  assumes "owning (d, ls)"
  shows "keeps same_owner_at (d, ls) (add_pending_loop d ls n ws)"
  using assms
proof (induction ws arbitrary: d ls)
  case (Cons w ws)
  show ?case
  proof (cases "search_resource ls n")
    case None
    then show ?thesis using keeps_refl [OF Cons.prems] by simp
  next
    case (Some r)
    have s: "search_resource ls (r_number r) = Some r" using Some restab.look_key [OF Some] by simp
    obtain d1 ls1 where o: "receive_plock_op d ls (w_info w) (our_nodeid d) r = (d1, ls1)" by force
    have k1: "keeps same_owner_at (d, ls) (d1, ls1)" using receive_plock_op_keeps [OF Cons.prems s] o by metis
    then have o1: "owning (d1, ls1)" by (simp add: keeps_def)
    show ?thesis
    proof (cases "search_resource ls1 n")
      case None
      then show ?thesis using Some o k1 by simp
    next
      case S1: (Some r1)
      let ?r = "r1\<lparr>r_pending := tl (r_pending r1)\<rparr>"
      have "search_resource ls1 (r_number ?r) = Some r1" using S1 restab.look_key [OF S1] by simp
      from keeps_set_same [OF o1 same_node_refl this] have k2: "keeps same_owner_at (d1, ls1) (d1, set_resource ls1 ?r)"
        by simp
      then have "owning (d1, set_resource ls1 ?r)" by (simp add: keeps_def)
      from keeps_same_trans [OF k1 keeps_same_trans [OF k2 Cons.IH [OF this]]]
      show ?thesis using Some o S1 by simp
    qed
  qed
qed (simp add: keeps_refl)

lemma send_syncs_locks_node: "send_syncs_locks d ls r pos = (d', pos', ok) \<Longrightarrow> same_node d d'"
proof (induction pos arbitrary: d pos' ok)
  case (Cons po pos)
  obtain d1 rv where o: "send_struct_info d ls (sync_info r po) DLM_MSG_PLOCK_SYNC_LOCK = (d1, rv)"
    by force
  have "same_node d d1" using send_struct_info_node [of d ls "sync_info r po" DLM_MSG_PLOCK_SYNC_LOCK] o by simp
  moreover have "d' = d1 \<or> same_node d1 d'" using Cons o by (auto split: if_splits prod.splits)
  ultimately show ?case using same_node_trans by blast
qed simp

lemma send_syncs_waiters_node: "send_syncs_waiters d ls ws = (d', ws') \<Longrightarrow> same_node d d'"
proof (induction ws arbitrary: d ws')
  case (Cons w ws)
  obtain d1 rv where o: "send_struct_info d ls (w_info w) DLM_MSG_PLOCK_SYNC_WAITER = (d1, rv)" by force
  have "same_node d d1" using send_struct_info_node [of d ls "w_info w" DLM_MSG_PLOCK_SYNC_WAITER] o by simp
  moreover have "d' = d1 \<or> same_node d1 d'" using Cons o by (auto split: if_splits prod.splits)
  ultimately show ?case using same_node_trans by blast
qed simp

lemma send_syncs_node:
  assumes "send_syncs d ls r = (d', r')"
  shows "same_node d d'"
proof -
  obtain d1 pos ok where l: "send_syncs_locks d ls r (r_locks r) = (d1, pos, ok)" by (metis prod_cases3)
  obtain d2 ws where w: "send_syncs_waiters d1 ls (r_waiters r) = (d2, ws)" by force
  show ?thesis
    using assms l w send_syncs_locks_node [OF l] same_node_trans [OF _ send_syncs_waiters_node [OF w]]
    by (auto simp: send_syncs_def split: if_splits)
qed

lemma receive_own_ours_next:
  assumes "owning (d, ls)" "search_resource ls (r_number r) = Some r"
  shows "keeps (\<lambda>n a b. b = (if n = r_number r then own_next (our_nodeid d) (our_nodeid d) nodeid a else a))
    (d, ls) (receive_own_ours d ls nodeid r)"
proof -
  have s: "search_resource ls (r_number r) \<noteq> None" using assms(2) by simp
  have a: "owner_at ls (r_number r) = r_owner r" using assms(2) by (rule owner_at_some)
  have refl: "keeps (\<lambda>n a b. b = a) (d, ls) (d, ls)" using keeps_refl [OF assms(1)] .
  have st: "keeps (\<lambda>n a b. b = a) (d, ls) (d2, set_resource ls r2)"
    if "same_node d d2" "r_number r2 = r_number r" "r_owner r2 = r_owner r" for d2 r2
    using keeps_set_same [OF assms(1) that(1), of r2 r] that assms(2) by simp
  let ?r = "r\<lparr>r_owner := our_nodeid d\<rparr>"
  have k: "keeps (\<lambda>n a b. b = (if n = r_number r then our_nodeid d else a)) (d, ls) (d, set_resource ls ?r)"
    using keeps_set [OF assms(1) same_node_refl, of ?r] s by (simp cong: if_cong)
  then have "owning (d, set_resource ls ?r)" by (simp add: keeps_def)
  from add_pending_loop_keeps [OF this, of "r_number r" "r_pending r"]
  have gain: "keeps (\<lambda>n a b. b = (if n = r_number r then our_nodeid d else a)) (d, ls)
      (add_pending_plocks d (set_resource ls ?r) ?r)"
    using k same_node_trans unfolding add_pending_plocks_def keeps_def by auto
  show ?thesis
    using refl st gain a send_pending_loop_node [of d ls]
    by (auto simp: receive_own_ours_def own_next_def keeps_def send_pending_plocks_def Let_def)
qed

lemma receive_own_other_next:
  assumes "owning (d, ls)" "search_resource ls (r_number r) = Some r" "from \<noteq> our_nodeid d"
  shows "keeps (\<lambda>n a b. b = (if n = r_number r then own_next (our_nodeid d) from nodeid a else a))
    (d, ls) (receive_own_other d ls from nodeid r)"
proof -
  have s: "search_resource ls (r_number r) \<noteq> None" using assms(2) by simp
  have a: "owner_at ls (r_number r) = r_owner r" using assms(2) by (rule owner_at_some)
  have refl: "keeps (\<lambda>n a b. b = a) (d, ls) (d, ls)" using keeps_refl [OF assms(1)] .
  have st: "keeps (\<lambda>n a b. b = (if n = r_number r then r_owner r2 else a)) (d, ls) (d2, set_resource ls r2)"
    if "same_node d d2" "r_number r2 = r_number r" for d2 r2
    using keeps_set [OF assms(1) that(1), of r2] that s by simp
  obtain d1 r1 where sy: "send_syncs d ls r = (d1, r1)" by force
  have "r_number r1 = r_number r" using send_syncs_core(3) [OF sy] by (simp add: same_meta_def)
  then have give: "keeps (\<lambda>n a b. b = (if n = r_number r then 0 else a)) (d, ls)
      (send_own d1 ls r1 0, set_resource ls (r1\<lparr>r_owner := 0\<rparr>))"
    using st [of "send_own d1 ls r1 0" "r1\<lparr>r_owner := 0\<rparr>"] same_node_trans [OF send_syncs_node [OF sy] send_node(2)]
    by (simp cong: if_cong)
  have unown: "keeps (\<lambda>n a b. b = (if n = r_number r then 0 else a)) (d, ls)
     (send_pending_loop d ls (r_pending r), set_resource ls (r\<lparr>r_owner := 0, r_flags := f, r_pending := []\<rparr>))" for f
    using st [of "send_pending_loop d ls (r_pending r)" "r\<lparr>r_owner := 0, r_flags := f, r_pending := []\<rparr>"]
      send_pending_loop_node by (simp cong: if_cong)
  have take: "keeps (\<lambda>n a b. b = (if n = r_number r then from else a)) (d, ls)
     (d, set_resource ls (r\<lparr>r_owner := from\<rparr>))"
    using st [of d "r\<lparr>r_owner := from\<rparr>"] by (simp cong: if_cong)
  show ?thesis
    using refl give unown take a assms(3) sy
    by (auto simp: receive_own_other_def own_next_def keeps_def send_pending_plocks_def)
qed

text \<open>\<open>msg_found\<close>: the resource of the message is there, or memory to create it.\<close>

definition msg_found :: "daemon \<Rightarrow> lockspace \<Rightarrow> body \<Rightarrow> bool" where
  "msg_found d ls b = (case find_resource d ls (in_number (msg_info d b)) True of (_, _, ro, _) \<Rightarrow> ro \<noteq> None)"

lemma receive_own_next:
  assumes "owning (d, ls)" "msg_found d ls b"
  shows "keeps (\<lambda>n a b'. b' = (if n = in_number (msg_info d b)
       then own_next (our_nodeid d) (hd_nodeid h) (in_nodeid (msg_info d b)) a else a)) (d, ls) (receive_own d ls h b)"
proof -
  let ?i = "msg_info d b"
  obtain d1 ls1 ro rv where f: "find_resource d ls (in_number ?i) True = (d1, ls1, ro, rv)" by (metis prod_cases4)
  note k = find_resource_keeps [OF assms(1) f]
  then have k1: "keeps same_owner_at (d, ls) (d1, ls1)" by blast
  then have o: "owning (d1, ls1)" and our: "our_nodeid d1 = our_nodeid d" by (simp_all add: keeps_def same_node_def)
  obtain r where r: "ro = Some r" using assms(2) f by (auto simp: msg_found_def)
  then have s: "search_resource ls1 (r_number r) = Some r" and n: "r_number r = in_number ?i" using k by auto
  have "receive_own d ls h b = (if hd_nodeid h = our_nodeid d1 then receive_own_ours d1 ls1 (in_nodeid ?i) r
      else receive_own_other d1 ls1 (hd_nodeid h) (in_nodeid ?i) r)"
    using assms(1) f r by (simp add: receive_own_def receive_own_now_def owning_def msg_info_def Let_def)
  then show ?thesis
    using keeps_same_trans [OF k1 receive_own_ours_next [OF o s]]
      keeps_same_trans [OF k1 receive_own_other_next [OF o s]] unfolding n our by (auto cong: if_cong)
qed

subsection \<open>One node's history of an inode\<close>

text \<open>
  \<open>owner_run n s log s'\<close>: the node gets from \<open>s\<close> to \<open>s'\<close> by handling messages and local requests; \<open>log\<close>
  lists the own messages it delivered for inode \<open>n\<close>, as pairs of sender and announced owner.  Drop messages,
  which discard the resource, are not part of such a history.
\<close>

definition own_log :: "u64 \<Rightarrow> daemon \<Rightarrow> dlm_header \<Rightarrow> body \<Rightarrow> (nodeid \<times> nodeid) list" where
  "own_log n d h b = (if in_number (msg_info d b) = n then [(hd_nodeid h, in_nodeid (msg_info d b))] else [])"

inductive owner_run ::
  "u64 \<Rightarrow> daemon \<times> lockspace \<Rightarrow> (nodeid \<times> nodeid) list \<Rightarrow> daemon \<times> lockspace \<Rightarrow> bool" for n s
where
  run_start: "owner_run n s [] s"
| run_own: "owner_run n s log (d, ls) \<Longrightarrow> msg_found d ls b \<Longrightarrow>
    owner_run n s (log @ own_log n d h b) (receive_own d ls h b)"
| run_plock: "owner_run n s log (d, ls) \<Longrightarrow> owner_run n s log (receive_plock d ls h b)"
| run_sync: "owner_run n s log (d, ls) \<Longrightarrow> owner_run n s log (receive_sync d ls h b)"
| run_read: "owner_run n s log (d, ls) \<Longrightarrow> owner_run n s log (process_plock_ls d ls i)"
| run_drop_old: "owner_run n s log (d, ls) \<Longrightarrow> owner_run n s log (drop_resources d ls)"
| run_purge: "owner_run n s log (d, ls) \<Longrightarrow> owner_run n s log (purge_plocks d ls nodeid unmount)"
| run_clock: "owner_run n s log (d, ls) \<Longrightarrow> owner_run n s log (d\<lparr>now := t\<rparr>, ls)"

text \<open>The nodes that claimed the inode, in the order of their claims.\<close>

definition claimants :: "(nodeid \<times> nodeid) list \<Rightarrow> nodeid list" where
  "claimants log = map fst (filter (\<lambda>(from, nodeid). nodeid = from \<and> from \<noteq> 0 \<and> from \<noteq> -1) log)"

definition claim_inv :: "u64 \<Rightarrow> nodeid \<Rightarrow> (nodeid \<times> nodeid) list \<Rightarrow> daemon \<times> lockspace \<Rightarrow> bool" where
  "claim_inv n our log s = (owning s \<and> our_nodeid (fst s) = our \<and>
     (claimants log \<noteq> [] \<longrightarrow> owner_at (snd s) n \<noteq> -1) \<and>
     (owner_at (snd s) n = our \<longrightarrow> claimants log \<noteq> [] \<and> hd (claimants log) = our))"

lemma claimants_append [simp]: "claimants (xs @ ys) = claimants xs @ claimants ys"
  by (simp add: claimants_def)

lemma claim_inv_drops:
  assumes "claim_inv n our log s" "keeps (drops x) s s'" "our \<noteq> 0"
  shows "claim_inv n our log s'"
proof -
  have "drops x n (owner_at (snd s) n) (owner_at (snd s') n)" using assms(2) by (simp add: keeps_def)
  moreover have "owning s'" "our_nodeid (fst s') = our_nodeid (fst s)"
    using assms(2) by (simp_all add: keeps_def same_node_def)
  ultimately show ?thesis using assms(1,3) by (auto simp: claim_inv_def drops_def)
qed

lemma claim_inv_same: "claim_inv n our log s \<Longrightarrow> keeps same_owner_at s s' \<Longrightarrow> our \<noteq> 0 \<Longrightarrow> claim_inv n our log s'"
  by (erule claim_inv_drops [where x = 0]) (auto intro: keeps_mono simp: drops_def)

lemma claim_inv_own:
  assumes "claim_inv n our log (d, ls)" "msg_found d ls b" "our \<noteq> 0" "our \<noteq> -1"
  shows "claim_inv n our (log @ own_log n d h b) (receive_own d ls h b)"
proof -
  have o: "owning (d, ls)" "our_nodeid d = our" using assms(1) by (simp_all add: claim_inv_def)
  note k = receive_own_next [OF o(1) assms(2), of h]
  have s: "owning (receive_own d ls h b)" "our_nodeid (fst (receive_own d ls h b)) = our"
    and a: "owner_at (snd (receive_own d ls h b)) n = (if n = in_number (msg_info d b)
      then own_next our (hd_nodeid h) (in_nodeid (msg_info d b)) (owner_at ls n) else owner_at ls n)"
    using k o(2) by (simp_all add: keeps_def same_node_def)
  show ?thesis
  proof (cases "n = in_number (msg_info d b)")
    case True
    then show ?thesis
      using assms s a
      by (cases "claimants log") (auto simp: claim_inv_def own_log_def claimants_def own_next_def split: if_splits)
  next
    case False
    then show ?thesis using assms(1) s a by (simp add: claim_inv_def own_log_def)
  qed
qed

lemma claim_inv_owning: "claim_inv n our log s \<Longrightarrow> owning s"
  by (simp add: claim_inv_def)

lemma owner_run_inv:
  assumes "owner_run n s log s'" "claim_inv n our [] s" "our \<noteq> 0" "our \<noteq> -1"
  shows "claim_inv n our log s'"
  using assms(1)
proof induction
  case (run_own log d ls b h)
  then show ?case using claim_inv_own assms(3,4) by blast
next
  case (run_plock log d ls h b)
  then show ?case using claim_inv_same [OF _ receive_plock_keeps [OF claim_inv_owning]] assms(3) by blast
next
  case (run_sync log d ls h b)
  then show ?case using claim_inv_same [OF _ receive_sync_keeps [OF claim_inv_owning]] assms(3) by blast
next
  case (run_read log d ls i)
  then show ?case using claim_inv_drops [OF _ process_plock_ls_keeps [OF claim_inv_owning]] assms(3) by blast
next
  case (run_drop_old log d ls)
  then show ?case using claim_inv_drops [OF _ drop_resources_keeps [OF claim_inv_owning]] assms(3) by blast
next
  case (run_purge log d ls nodeid unmount)
  then show ?case using claim_inv_drops [OF _ purge_keeps [OF claim_inv_owning]] assms(3) by blast
next
  case (run_clock log d ls t)
  then show ?case by (simp add: claim_inv_def owning_def)
qed (use assms(2) in simp)

lemma claimants_prefix:
  assumes "prefix log log'" "claimants log \<noteq> []"
  shows "hd (claimants log') = hd (claimants log)"
  using assms by (auto simp: prefix_def)

subsection \<open>Properties\<close>

text \<open>
  C18.  The effect of an own message on the owner of every inode: the owner of the inode the message names
  becomes what the table \<open>own_next\<close> says (the first claim wins, a claim on what we own makes us give it up,
  an owner that gives up leaves the inode unowned), and no other inode changes owner.
\<close>

theorem receive_own_owner:
  assumes "owning (d, ls)" "msg_found d ls b"
  shows "owner_at (snd (receive_own d ls h b)) n =
    (if n = in_number (msg_info d b)
     then own_next (our_nodeid d) (hd_nodeid h) (in_nodeid (msg_info d b)) (owner_at ls n)
     else owner_at ls n)"
  using receive_own_next [OF assms] by (simp add: keeps_def)


lemmas own_eval = receive_own_def receive_own_now_def receive_own_ours_def receive_own_other_def
  add_pending_plocks_def owner_at_def msg_found_def Let_def time_now_def

theorem receive_own_owner_witness:
  "owner_at (snd (receive_own (ex_daemon 3 True) (ex_ls []) (ex_hd DLM_MSG_PLOCK_OWN 2)
     (Body_plock (ex_info DLM_PLOCK_OP_LOCK 2 0 0 0 0)))) 11 = 2"
proof -
  have "owning (ex_daemon 3 True, ex_ls [])" by (simp add: owning_def state_defs numbers_distinct_def)
  moreover have "msg_found (ex_daemon 3 True) (ex_ls []) (Body_plock (ex_info DLM_PLOCK_OP_LOCK 2 0 0 0 0))"
    by (simp add: own_eval table_eval state_defs msg_eval ex_defs)
  ultimately show ?thesis
    using receive_own_owner [of "ex_daemon 3 True" "ex_ls []" _ "ex_hd DLM_MSG_PLOCK_OWN 2" 11]
    by (simp add: own_eval table_eval state_defs msg_eval ex_defs own_next_def)
qed


end
