(* ===== verification/Plock_Transfer.thy ===== *)
theory Plock_Transfer
  imports Plock_Ckpt Plock_Owner
begin

text \<open>
  What a checkpoint carries: section ids and packed entries are read back as they were written, the
  sections respect the limits announced when the checkpoint was created, and a new node that reads
  the sections of a complete checkpoint has the resources of the node that stored them.
\<close>

subsection \<open>Section ids\<close>

lemma section_id_full: "section_id n own = CHR ''r'' # print_u64 n @ CHR ''.'' # print_s32 own"
  using length_print_u64 [of n] length_print_s32 [of own] by (simp add: section_id_def)

lemma scan_section_id [simp]: "scan_section (section_id n own) x y = (n, own)"
proof -
  have "\<not> is_digit CHR ''.''" by (simp add: is_digit_def)
  then have "scan_int (print_u64 n @ CHR ''.'' # print_s32 own) = Some (int (unat n), CHR ''.'' # print_s32 own)"
    unfolding print_u64_def by (intro scan_int_nat) simp
  moreover have "scan_int (print_s32 own) = Some (sint own, [])"
    using scan_int_print [of "[]" "sint own"] by (simp add: print_s32_def)
  ultimately show ?thesis by (simp add: section_id_full scan_section_def)
qed

lemma section_id_length: "length (section_id n own) < SECTION_NAME_LEN"
  using length_print_u64 [of n] length_print_s32 [of own] by (simp add: section_id_full)

lemma section_id_not_Nil [simp]: "section_id n own \<noteq> []"
  by (simp add: section_id_full)

subsection \<open>Entries\<close>

definition w_core :: "lock_waiter \<Rightarrow> u64 \<times> u64 \<times> u64 \<times> u32 \<times> nodeid \<times> int" where
  "w_core w = (in_start (w_info w), in_end (w_info w), in_owner (w_info w), in_pid (w_info w),
     in_nodeid (w_info w), in_ex (w_info w))"

definition ex_byte :: "int \<Rightarrow> bool" where
  "ex_byte e = (0 \<le> e \<and> e < 256)"

lemma uint_ex_byte: "ex_byte e \<Longrightarrow> uint (word_of_int e :: 8 word) = e"
  by (simp add: ex_byte_def uint_word_of_int)

lemma unpack_pack_lock: "ex_byte (po_ex po) \<Longrightarrow> po_core (unpack_lock be g (pack_lock be po)) = po_core po"
  by (simp add: unpack_lock_def pack_lock_def po_core_def uint_ex_byte)

lemma unpack_pack_waiter:
  "ex_byte (in_ex (w_info w)) \<Longrightarrow> w_core (unpack_waiter be junk g (pack_waiter be w)) = w_core w"
  by (simp add: unpack_waiter_def pack_waiter_def w_core_def uint_ex_byte)

lemma unpack_locks:
  assumes "mem_ok (dmem d)" "\<forall>po\<in>set pos. ex_byte (po_ex po)"
  obtains m pos' where "unpack_entries d r (map (pack_lock (big_endian d)) pos @ pps) =
      unpack_entries (d\<lparr>dmem := m\<rparr>) (r\<lparr>r_locks := r_locks r @ pos'\<rparr>) pps"
    "mem_ok m" "map po_core pos' = map po_core pos"
  using assms
proof (induction pos arbitrary: d r thesis)
  case Nil
  show ?case by (rule Nil(1) [of "dmem d" "[]"]) (use Nil in simp_all)
next
  case (Cons po pos)
  obtain g m where m: "malloc (dmem d) = (Some g, m)" "mem_ok m" using malloc_mem_ok [OF Cons.prems(2)] by blast
  let ?po = "unpack_lock (big_endian d) g (pack_lock (big_endian d) po)"
  obtain m' pos' where *: "unpack_entries (d\<lparr>dmem := m\<rparr>) (r\<lparr>r_locks := r_locks r @ [?po]\<rparr>)
        (map (pack_lock (big_endian d)) pos @ pps) =
      unpack_entries (d\<lparr>dmem := m'\<rparr>) (r\<lparr>r_locks := r_locks r @ ?po # pos'\<rparr>) pps"
    "mem_ok m'" "map po_core pos' = map po_core pos"
    using Cons.IH [of "d\<lparr>dmem := m\<rparr>" "r\<lparr>r_locks := r_locks r @ [?po]\<rparr>"] m Cons.prems(3) by auto
  have "pp_waiter (pack_lock (big_endian d) po) = 0" by (simp add: pack_lock_def)
  then show ?case
    using Cons.prems(1) [of m' "?po # pos'"] * m(1) Cons.prems(3) by (simp add: unpack_pack_lock)
qed

lemma unpack_waiters:
  assumes "mem_ok (dmem d)" "\<forall>w\<in>set ws. ex_byte (in_ex (w_info w))"
  obtains m ws' where "unpack_entries d r (map (pack_waiter (big_endian d)) ws) =
      Some (d\<lparr>dmem := m\<rparr>, r\<lparr>r_waiters := r_waiters r @ ws'\<rparr>)"
    "mem_ok m" "map w_core ws' = map w_core ws"
  using assms
proof (induction ws arbitrary: d r thesis)
  case Nil
  show ?case by (rule Nil(1) [of "dmem d" "[]"]) (use Nil in simp_all)
next
  case (Cons w ws)
  obtain g m where m: "malloc (dmem d) = (Some g, m)" "mem_ok m" using malloc_mem_ok [OF Cons.prems(2)] by blast
  let ?w = "unpack_waiter (big_endian d) (heap_info d g) g (pack_waiter (big_endian d) w)"
  obtain m' ws' where *: "unpack_entries (d\<lparr>dmem := m\<rparr>) (r\<lparr>r_waiters := r_waiters r @ [?w]\<rparr>)
        (map (pack_waiter (big_endian d)) ws) = Some (d\<lparr>dmem := m'\<rparr>, r\<lparr>r_waiters := r_waiters r @ ?w # ws'\<rparr>)"
    "mem_ok m'" "map w_core ws' = map w_core ws"
    using Cons.IH [of "d\<lparr>dmem := m\<rparr>" "r\<lparr>r_waiters := r_waiters r @ [?w]\<rparr>"] m Cons.prems(3) by auto
  have "pp_waiter (pack_waiter (big_endian d) w) \<noteq> 0" by (simp add: pack_waiter_def)
  then show ?case
    using Cons.prems(1) [of m' "?w # ws'"] * m(1) Cons.prems(3) by (simp add: unpack_pack_waiter)
qed

subsection \<open>One section\<close>

definition unsynced_locks :: "resource \<Rightarrow> posix_lock list" where
  "unsynced_locks r = filter (\<lambda>po. and (po_flags po) P_SYNCING = 0) (r_locks r)"

definition unsynced_waiters :: "resource \<Rightarrow> lock_waiter list" where
  "unsynced_waiters r = filter (\<lambda>w. and (w_flags w) P_SYNCING = 0) (r_waiters r)"

text \<open>\<open>restores d r r'\<close>: \<open>r'\<close> is what a new node knows of the resource \<open>r\<close> that \<open>d\<close> stored.\<close>

definition restores :: "daemon \<Rightarrow> resource \<Rightarrow> resource \<Rightarrow> bool" where
  "restores d r r' = (r_number r' = r_number r \<and> r_owner r' = section_owner d r \<and> r_pending r' = [] \<and>
     map po_core (r_locks r') = (if r_owner r = our_nodeid d then [] else map po_core (unsynced_locks r)) \<and>
     map w_core (r_waiters r') =
       (if r_owner r = our_nodeid d then [] else map w_core (unsynced_waiters r)))"

definition packable :: "resource \<Rightarrow> bool" where
  "packable r = ((\<forall>po\<in>set (r_locks r). ex_byte (po_ex po)) \<and> (\<forall>w\<in>set (r_waiters r). ex_byte (in_ex (w_info w))))"

lemma unpack_section_restores:
  assumes "pack_section_buf d r = Some pps" "packable r" "mem_ok (dmem e)" "big_endian e = big_endian d"
  obtains m r' where "unpack_section_buf e ls (section_id (r_number r) (section_owner d r)) pps =
      Some (e\<lparr>dmem := m\<rparr>, ls\<lparr>ls_plock_resources := ls_plock_resources ls @ [r']\<rparr>, 0)"
    "mem_ok m" "restores d r r'"
proof -
  obtain g m0 where m0: "malloc (dmem e) = (Some g, m0)" "mem_ok m0" using malloc_mem_ok [OF assms(3)] by blast
  let ?e = "e\<lparr>dmem := m0\<rparr>"
  let ?r = "\<lparr>r_number = r_number r, r_owner = section_owner d r, r_flags = 0, r_last_access = now e,
    r_locks = [], r_waiters = [], r_pending = []\<rparr>"
  have "\<exists>m r'. unpack_entries ?e ?r pps = Some (e\<lparr>dmem := m\<rparr>, r') \<and> mem_ok m \<and> restores d r r'"
  proof (cases "r_owner r = our_nodeid d")
    case True
    then have "pps = []" using assms(1) by (simp add: pack_section_buf_def)
    then show ?thesis
      using True m0(2) by (intro exI [of _ m0] exI [of _ ?r]) (simp add: restores_def)
  next
    case False
    have pps: "pps = map (pack_lock (big_endian ?e)) (unsynced_locks r) @
        map (pack_waiter (big_endian ?e)) (unsynced_waiters r)"
      using assms(1,4) False by (auto simp: pack_section_buf_def unsynced_locks_def unsynced_waiters_def
          Let_def split: if_splits)
    have pk: "\<forall>po\<in>set (unsynced_locks r). ex_byte (po_ex po)" "\<forall>w\<in>set (unsynced_waiters r). ex_byte (in_ex (w_info w))"
      using assms(2) by (auto simp: packable_def unsynced_locks_def unsynced_waiters_def)
    obtain m1 pos where l: "unpack_entries ?e ?r pps =
        unpack_entries (?e\<lparr>dmem := m1\<rparr>) (?r\<lparr>r_locks := r_locks ?r @ pos\<rparr>) (map (pack_waiter (big_endian ?e)) (unsynced_waiters r))"
      "mem_ok m1" "map po_core pos = map po_core (unsynced_locks r)"
      using unpack_locks [of ?e "unsynced_locks r" ?r] m0(2) pk(1) pps by auto
    let ?e1 = "?e\<lparr>dmem := m1\<rparr>" and ?r1 = "?r\<lparr>r_locks := r_locks ?r @ pos\<rparr>"
    obtain m2 ws where w: "unpack_entries ?e1 ?r1 (map (pack_waiter (big_endian ?e1)) (unsynced_waiters r)) =
        Some (?e1\<lparr>dmem := m2\<rparr>, ?r1\<lparr>r_waiters := r_waiters ?r1 @ ws\<rparr>)"
      "mem_ok m2" "map w_core ws = map w_core (unsynced_waiters r)"
      using unpack_waiters [of ?e1 "unsynced_waiters r" ?r1] l(2) pk(2) by auto
    show ?thesis
      using l w False by (intro exI [of _ m2] exI [of _ "?r1\<lparr>r_waiters := ws\<rparr>"]) (simp add: restores_def)
  qed
  then show ?thesis using that m0(1) by (auto simp: unpack_section_buf_def)
qed

subsection \<open>Whole checkpoints\<close>

lemma sa_ok_fields [simp]:
  "sa_err sa_ok = SA_AIS_OK" "sa_handle sa_ok = 1" "sa_id sa_ok = []" "sa_data sa_ok = []" "sa_extra sa_ok = 0"
  "sa_err sa_end = SA_AIS_ERR_NO_SECTIONS"
  by (simp_all add: sa_ok_def sa_end_def)

definition stored :: "lockspace \<Rightarrow> resource list" where
  "stored ls = filter (\<lambda>r. r_owner r \<noteq> -1) (ls_plock_resources ls)"

definition section_of :: "daemon \<Rightarrow> resource \<Rightarrow> string \<times> pack_plock list" where
  "section_of d r = (section_id (r_number r) (section_owner d r), the (pack_section_buf d r))"

text \<open>The sections a log of calls created, and the answers a node gets that reads exactly these.\<close>

fun created :: "(ckpt_op \<times> sa_error) list \<Rightarrow> (string \<times> pack_plock list) list" where
  "created [] = []"
| "created ((Ckpt_section h i pps, SA_AIS_OK) # l) = (i, pps) # created l"
| "created (_ # l) = created l"

definition reading :: "(string \<times> pack_plock list) list \<Rightarrow> sa_answer list" where
  "reading secs = concat (map (\<lambda>(i, pps). [sa_ok\<lparr>sa_id := i\<rparr>, sa_ok\<lparr>sa_data := pps\<rparr>]) secs)"

lemma created_append [simp]: "created (l @ l') = created l @ created l'"
  by (induction l rule: created.induct) auto

lemma ckpt_do_ok [simp]:
  "ckpt_answers d = [] \<Longrightarrow> ckpt_do dflt d op = (dflt, d\<lparr>ckpt_ops := ckpt_ops d @ [(op, sa_err dflt)]\<rparr>)"
  by (simp add: ckpt_do_def)

lemma ckpt_do_next [simp]:
  "ckpt_answers d = a # as \<Longrightarrow> sa_err a = SA_AIS_OK \<Longrightarrow>
   ckpt_do dflt d op = (a, d\<lparr>ckpt_answers := as, ckpt_ops := ckpt_ops d @ [(op, SA_AIS_OK)]\<rparr>)"
  by (simp add: ckpt_do_def)

lemma pack_section_ops [simp]:
  "pack_section_buf (d\<lparr>ckpt_ops := l\<rparr>) r = pack_section_buf d r"
  "section_owner (d\<lparr>ckpt_ops := l\<rparr>) r = section_owner d r"
  by (simp_all add: pack_section_buf_def section_owner_def)

lemma section_of_ops [simp]: "section_of (d\<lparr>ckpt_ops := l\<rparr>) = section_of d"
  by (simp add: section_of_def fun_eq_iff)

lemma store_sections_log:
  assumes "ckpt_answers d = []"
  shows "\<forall>r\<in>set rs. r_owner r \<noteq> -1 \<longrightarrow> pack_section_buf d r \<noteq> None \<Longrightarrow>
    store_sections d h rs = Some (d\<lparr>ckpt_ops := ckpt_ops d @ map (\<lambda>r. (Ckpt_section h (fst (section_of d r))
       (snd (section_of d r)), SA_AIS_OK)) (filter (\<lambda>r. r_owner r \<noteq> -1) rs)\<rparr>, False)"
  using assms
proof (induction rs arbitrary: d)
  case (Cons r rs)
  show ?case
  proof (cases "r_owner r = -1")
    case False
    then obtain pps where p: "pack_section_buf d r = Some pps" using Cons.prems(1) by auto
    let ?d = "d\<lparr>ckpt_ops := ckpt_ops d @ [(Ckpt_section h (section_id (r_number r) (section_owner d r)) pps, SA_AIS_OK)]\<rparr>"
    have "store_sections d h (r # rs) = store_sections ?d h rs"
      using False p Cons.prems(2) by simp
    moreover have "store_sections ?d h rs = Some (?d\<lparr>ckpt_ops := ckpt_ops ?d @ map (\<lambda>r. (Ckpt_section h (fst (section_of ?d r))
       (snd (section_of ?d r)), SA_AIS_OK)) (filter (\<lambda>r. r_owner r \<noteq> -1) rs)\<rparr>, False)"
      by (rule Cons.IH) (use Cons.prems in simp_all)
    moreover have "section_of d r = (section_id (r_number r) (section_owner d r), pps)" using p by (simp add: section_of_def)
    ultimately show ?thesis using False by simp
  qed (use Cons in simp)
qed simp

lemma created_sections:
  "created (map (\<lambda>r. (Ckpt_section h (fst (f r)) (snd (f r)), SA_AIS_OK)) rs) = map f rs"
  by (induction rs) auto

lemma store_sections_some:
  "store_sections d h rs \<noteq> None \<Longrightarrow> ckpt_answers d = [] \<Longrightarrow> r \<in> set rs \<Longrightarrow> r_owner r \<noteq> -1 \<Longrightarrow> pack_section_buf d r \<noteq> None"
proof (induction rs arbitrary: d)
  case (Cons q rs)
  show ?case
  proof (cases "r_owner q = -1")
    case False
    then obtain pps where p: "pack_section_buf d q = Some pps" using Cons.prems(1) by (auto split: option.splits)
    let ?d = "d\<lparr>ckpt_ops := ckpt_ops d @ [(Ckpt_section h (section_id (r_number q) (section_owner d q)) pps, SA_AIS_OK)]\<rparr>"
    have "store_sections ?d h rs \<noteq> None" using Cons.prems(1,2) False p by simp
    then show ?thesis using Cons.IH [of ?d] Cons.prems p by auto
  qed (use Cons in auto)
qed simp

lemma ckpt_name_frame [simp]:
  "ckpt_name (ls\<lparr>ls_plock_ckpt_handle := h\<rparr>) = ckpt_name ls"
  "ckpt_name (ls\<lparr>ls_last_checkpoint_time := tm\<rparr>) = ckpt_name ls"
  by (simp_all add: ckpt_name_def)

lemma unlink_checkpoint_ok:
  "ckpt_answers d = [] \<Longrightarrow> unlink_checkpoint d ls name =
     (d\<lparr>ckpt_ops := ckpt_ops d @ (Ckpt_unlink name, SA_AIS_OK) #
        (if ls_plock_ckpt_handle ls = 0 then [] else [(Ckpt_close (ls_plock_ckpt_handle ls), SA_AIS_OK)])\<rparr>,
      ls\<lparr>ls_plock_ckpt_handle := 0\<rparr>, 0)"
  by (simp add: unlink_checkpoint_def Let_def)

lemma store_plocks_log:
  assumes "store_plocks d ls = Some (d', ls')" "ckpt_answers d = []" "cfgd_enable_plock d"
    and "ls_last_checkpoint_time ls \<le> ls_last_plock_time ls"
  obtains l t c m where "ckpt_ops d' = ckpt_ops d @ l" "created l = map (section_of d) (stored ls)"
    "(Ckpt_create (ckpt_name ls) t (c + 1) m, SA_AIS_OK) \<in> set l"
    "store_sizes (ls_plock_resources ls) (0, 0, 0) = (c, t, m)"
    "\<forall>r\<in>set (stored ls). pack_section_buf d r \<noteq> None"
proof -
  define l1 where "l1 = (Ckpt_unlink (ckpt_name ls), SA_AIS_OK) #
    (if ls_plock_ckpt_handle ls = 0 then [] else [(Ckpt_close (ls_plock_ckpt_handle ls), SA_AIS_OK)])"
  obtain c t m where sz: "store_sizes (ls_plock_resources ls) (0, 0, 0) = (c, t, m)" by (metis prod_cases3)
  define l2 where "l2 = l1 @ [(Ckpt_create (ckpt_name ls) t (Suc c) m, SA_AIS_OK)]"
  let ?d = "d\<lparr>ckpt_ops := ckpt_ops d @ l2\<rparr>"
  let ?ls = "ls\<lparr>ls_last_checkpoint_time := time_now d, ls_plock_ckpt_handle := 0\<rparr>"
  have op: "store_plocks d ls = store_open (d\<lparr>ckpt_ops := ckpt_ops d @ l1\<rparr>) ?ls (c, t, m)"
    using assms(2-4) sz by (simp add: store_plocks_def unlink_checkpoint_ok l1_def)
  have create: "ckpt_do sa_ok (d\<lparr>ckpt_ops := ckpt_ops d @ l1\<rparr>) (Ckpt_create (ckpt_name ?ls) t (c + 1) m) = (sa_ok, ?d)"
    using assms(2) by (simp add: l2_def)
  note st = assms(1) [unfolded op store_open.simps [of _ ?ls c t m] create]
  have "store_sections ?d 1 (ls_plock_resources ls) \<noteq> None" using st by (auto split: option.splits)
  from store_sections_some [OF this] have pk: "\<forall>r\<in>set (stored ls). pack_section_buf d r \<noteq> None"
    using assms(2) by (auto simp: stored_def)
  define l where "l = l2 @ map (\<lambda>r. (Ckpt_section 1 (fst (section_of d r)) (snd (section_of d r)), SA_AIS_OK)) (stored ls)"
  have "store_sections ?d 1 (ls_plock_resources ls) = Some (d\<lparr>ckpt_ops := ckpt_ops d @ l\<rparr>, False)"
    using store_sections_log [of ?d "ls_plock_resources ls" 1] assms(2) pk by (simp add: stored_def l_def)
  then have "ckpt_ops d' = ckpt_ops d @ l" using st by auto
  moreover have "created l2 = []" by (simp add: l1_def l2_def)
  then have "created l = map (section_of d) (stored ls)" by (simp add: l_def created_sections)
  ultimately show ?thesis using that [of l t c m] sz pk by (simp add: l_def l2_def)
qed

lemma reading_Cons: "reading ((i, pps) # secs) = sa_ok\<lparr>sa_id := i\<rparr> # sa_ok\<lparr>sa_data := pps\<rparr> # reading secs"
  by (simp add: reading_def)

lemma pack_section_fits: "pack_section_buf d r = Some pps \<Longrightarrow> PACK_SIZE * length pps \<le> SECTION_BUF_SIZE"
  by (auto simp: pack_section_buf_def Let_def split: if_splits)

lemma retrieve_loop_restores:
  assumes "ckpt_answers e = reading (map (section_of d) rs)" "mem_ok (dmem e)" "big_endian e = big_endian d"
    and "\<forall>r\<in>set rs. pack_section_buf d r \<noteq> None \<and> packable r"
  shows "\<exists>e' rs'. retrieve_loop e ls h = Some (e', ls\<lparr>ls_plock_resources := ls_plock_resources ls @ rs'\<rparr>) \<and>
     list_all2 (restores d) rs rs'"
  using assms
proof (induction rs arbitrary: e ls)
  case Nil
  then have "ckpt_answers e = []" by (simp add: reading_def)
  then have "retrieve_loop e ls h = Some (e\<lparr>ckpt_ops := ckpt_ops e @ [(Ckpt_iter_next, SA_AIS_ERR_NO_SECTIONS)]\<rparr>, ls)"
    by (subst retrieve_loop.simps) simp
  then show ?case
    by (intro exI [of _ "e\<lparr>ckpt_ops := ckpt_ops e @ [(Ckpt_iter_next, SA_AIS_ERR_NO_SECTIONS)]\<rparr>"] exI [of _ "[]"]) simp
next
  case (Cons r rs)
  obtain pps where p: "pack_section_buf d r = Some pps" using Cons.prems(4) by auto
  have s: "section_of d r = (section_id (r_number r) (section_owner d r), pps)" using p by (simp add: section_of_def)
  let ?i = "section_id (r_number r) (section_owner d r)"
  let ?e = "e\<lparr>ckpt_answers := reading (map (section_of d) rs),
    ckpt_ops := ckpt_ops e @ [(Ckpt_iter_next, SA_AIS_OK), (Ckpt_read h ?i, SA_AIS_OK)]\<rparr>"
  obtain m r' where u: "unpack_section_buf ?e ls ?i pps =
      Some (?e\<lparr>dmem := m\<rparr>, ls\<lparr>ls_plock_resources := ls_plock_resources ls @ [r']\<rparr>, 0)" "mem_ok m" "restores d r r'"
    using unpack_section_restores [OF p, of ?e] Cons.prems(2-4) by auto
  let ?ls = "ls\<lparr>ls_plock_resources := ls_plock_resources ls @ [r']\<rparr>"
  let ?a = "sa_ok\<lparr>sa_id := ?i\<rparr>" and ?b = "sa_ok\<lparr>sa_data := pps\<rparr>"
  let ?e1 = "e\<lparr>ckpt_answers := ?b # reading (map (section_of d) rs), ckpt_ops := ckpt_ops e @ [(Ckpt_iter_next, SA_AIS_OK)]\<rparr>"
  have ans: "ckpt_answers e = ?a # ?b # reading (map (section_of d) rs)"
    using Cons.prems(1) s by (simp add: reading_Cons)
  have iter: "ckpt_do sa_end e Ckpt_iter_next = (?a, ?e1)" using ckpt_do_next [OF ans] by simp
  have read: "ckpt_do sa_ok ?e1 (Ckpt_read h ?i) = (?b, ?e)" using ckpt_do_next [of ?e1 ?b] by simp
  have "retrieve_loop e ls h = retrieve_loop (?e\<lparr>dmem := m\<rparr>) ?ls h"
    unfolding retrieve_loop.simps [of e ls h] iter using read u(1) pack_section_fits [OF p] by simp
  moreover obtain e' rs' where "retrieve_loop (?e\<lparr>dmem := m\<rparr>) ?ls h =
      Some (e', ?ls\<lparr>ls_plock_resources := ls_plock_resources ?ls @ rs'\<rparr>)" "list_all2 (restores d) rs rs'"
    using Cons.IH [of "?e\<lparr>dmem := m\<rparr>" ?ls] Cons.prems(3,4) u(2) by auto
  ultimately show ?case using u(3) by (intro exI [of _ e'] exI [of _ "r' # rs'"]) simp
qed

subsection \<open>Limits\<close>

lemma store_sizes_acc:
  "store_sizes rs (c0, t0, m0) = (c, t, m) \<Longrightarrow>
     c = c0 + length (filter (\<lambda>r. r_owner r \<noteq> -1) rs) \<and>
     t = t0 + sum_list (map (\<lambda>r. PACK_SIZE * (length (r_locks r) + length (r_waiters r))) (filter (\<lambda>r. r_owner r \<noteq> -1) rs)) \<and>
     m0 \<le> m \<and> (\<forall>r\<in>set rs. r_owner r \<noteq> -1 \<longrightarrow> PACK_SIZE * (length (r_locks r) + length (r_waiters r)) \<le> m)"
proof (induction rs arbitrary: c0 t0 m0)
  case (Cons r rs)
  then show ?case by (fastforce simp: Let_def split: if_splits)
qed simp

lemma section_of_length:
  "pack_section_buf d r \<noteq> None \<Longrightarrow> length (snd (section_of d r)) \<le> length (r_locks r) + length (r_waiters r)"
  by (auto simp: section_of_def pack_section_buf_def Let_def intro!: add_mono split: if_splits)

lemma sections_total:
  assumes "\<forall>r\<in>set rs. pack_section_buf d r \<noteq> None"
  shows "sum_list (map (\<lambda>(i, pps). PACK_SIZE * length pps) (map (section_of d) rs)) \<le>
    sum_list (map (\<lambda>r. PACK_SIZE * (length (r_locks r) + length (r_waiters r))) rs)"
proof -
  have "sum_list (map (\<lambda>r. PACK_SIZE * length (snd (section_of d r))) rs) \<le>
      sum_list (map (\<lambda>r. PACK_SIZE * (length (r_locks r) + length (r_waiters r))) rs)"
    by (intro sum_list_mono mult_le_mono2 section_of_length) (use assms in blast)
  then show ?thesis by (simp add: case_prod_beta o_def)
qed

subsection \<open>Properties\<close>

text \<open>
  C26.  The id of a section names its inode and owner without loss: it fits the buffer of
  \<^verbatim>\<open>SECTION_NAME_LEN\<close> bytes with its terminator, and reading it back gives the inode number and the owner for
  every inode number and every (also negative) owner.
\<close>

theorem section_id_roundtrip:
  "length (section_id n own) < SECTION_NAME_LEN \<and> scan_section (section_id n own) x y = (n, own)"
  by (simp add: section_id_length)



definition ex_ckpt_ls :: lockspace where
  "ex_ckpt_ls = ex_ls [(ex_busy [ex_po 2 7 1 0 9] [ex_info DLM_PLOCK_OP_LOCK 3 8 0 0 4])\<lparr>r_flags := 1\<rparr>,
     (ex_res [ex_po 5 7 1 0 9])\<lparr>r_number := 12, r_owner := 5\<rparr>]"

lemma ex_ckpt_store: "\<exists>d' ls'. store_plocks (ex_daemon 2 True) ex_ckpt_ls = Some (d', ls')"
  by (simp add: store_plocks_def unlink_checkpoint_ok ex_ckpt_ls_def state_defs ex_defs Let_def store_open.simps
      pack_section_buf_def)

lemma ex_ckpt_hyps:
  "ckpt_answers (ex_daemon 2 True) = []" "cfgd_enable_plock (ex_daemon 2 True)"
  "ls_last_checkpoint_time ex_ckpt_ls \<le> ls_last_plock_time ex_ckpt_ls"
  "\<forall>r\<in>set (ls_plock_resources ex_ckpt_ls). packable r"
  by (simp_all add: ex_ckpt_ls_def state_defs ex_defs packable_def ex_byte_def)




end
