(* ===== verification/Plock_Dump.thy ===== *)
theory Plock_Dump
  imports Plock_Ckpt
begin

text \<open>
  The textual dump of all plocks of a lockspace (\<^verbatim>\<open>fill_plock_dump_buf\<close>): one line per lock, per waiting
  and per pending request, printed into a buffer of fixed size.  A line that does not fit ends the dump.
\<close>

abbreviation (input) DLMC_DUMP_SIZE :: nat where "DLMC_DUMP_SIZE \<equiv> 1048576"

definition mode_str :: "int \<Rightarrow> string" where
  "mode_str ex = (if ex \<noteq> 0 then ''WR'' else ''RD'')"

definition unused_line :: "timeval \<Rightarrow> resource \<Rightarrow> string" where
  "unused_line t r = print_u64 (r_number r) @ '' rown '' @ print_s32 (r_owner r) @ '' unused_ms '' @
     print_u64 (time_diff_ms (r_last_access r) t) @ [CHR 0x0A]"

definition range_text :: "u64 \<Rightarrow> int \<Rightarrow> u64 \<Rightarrow> u64 \<Rightarrow> nodeid \<Rightarrow> u32 \<Rightarrow> u64 \<Rightarrow> nodeid \<Rightarrow> string" where
  "range_text number ex start stop nodeid pid own rown =
     print_u64 number @ '' '' @ mode_str ex @ '' '' @ print_u64 start @ ''-'' @ print_u64 stop @ '' nodeid '' @
     print_s32 nodeid @ '' pid '' @ print_u32 pid @ '' owner '' @ print_hex own @ '' rown '' @ print_s32 rown"

definition lock_line :: "resource \<Rightarrow> posix_lock \<Rightarrow> string" where
  "lock_line r po = range_text (r_number r) (po_ex po) (po_start po) (po_end po) (po_nodeid po) (po_pid po)
     (po_owner po) (r_owner r) @ [CHR 0x0A]"

definition request_line :: "string \<Rightarrow> resource \<Rightarrow> lock_waiter \<Rightarrow> string" where
  "request_line what r w = (let i = w_info w in
     range_text (r_number r) (in_ex i) (in_start i) (in_end i) (in_nodeid i) (in_pid i) (in_owner i) (r_owner r) @
     what @ [CHR 0x0A])"

definition resource_lines :: "timeval \<Rightarrow> resource \<Rightarrow> string list" where
  "resource_lines t r =
     (if r_locks r = [] \<and> r_waiters r = [] \<and> r_pending r = [] then [unused_line t r]
      else map (lock_line r) (r_locks r) @ map (request_line '' WAITING'' r) (r_waiters r) @
        map (request_line '' PENDING'' r) (r_pending r))"

text \<open>
  Printing line after line at position \<open>length buf\<close>; \<^verbatim>\<open>snprintf\<close> returns the length of the whole line and
  leaves what fits.  The result is the text up to the final position, what is left behind it, and the
  return value.
\<close>

fun dump_lines :: "string \<Rightarrow> string list \<Rightarrow> string \<times> string \<times> int" where
  "dump_lines buf [] = (buf, [], 0)"
| "dump_lines buf (l # lines) =
     (if length l \<ge> DLMC_DUMP_SIZE - length buf
      then (buf, take (DLMC_DUMP_SIZE - length buf - 1) l, - ENOSPC)
      else dump_lines (buf @ l) lines)"

definition fill_plock_dump_buf :: "daemon \<Rightarrow> lockspace \<Rightarrow> string \<times> nat \<times> int" where
  "fill_plock_dump_buf d ls =
     (case dump_lines [] (concat (map (resource_lines (now d)) (ls_plock_resources ls))) of
        (buf, rest, rv) \<Rightarrow> (buf @ rest, length buf, rv))"

lemma dump_lines_spec:
  assumes "dump_lines buf lines = (buf', rest, rv)" "length buf < DLMC_DUMP_SIZE"
  shows "length (buf' @ rest) < DLMC_DUMP_SIZE \<and>
    (rv = 0 \<and> buf' = buf @ concat lines \<and> rest = [] \<or>
     rv = - ENOSPC \<and> DLMC_DUMP_SIZE \<le> length (buf @ concat lines) \<and>
       (\<exists>k<length lines. buf' = buf @ concat (take k lines)))"
  using assms
proof (induction lines arbitrary: buf)
  case (Cons l lines)
  show ?case
  proof (cases "length l \<ge> DLMC_DUMP_SIZE - length buf")
    case True
    then have "buf' = buf" "rest = take (DLMC_DUMP_SIZE - length buf - 1) l" "rv = - ENOSPC" using Cons.prems by auto
    then show ?thesis using Cons.prems(2) True by (auto intro!: exI [of _ 0])
  next
    case False
    then have "length (buf @ l) < DLMC_DUMP_SIZE" "dump_lines (buf @ l) lines = (buf', rest, rv)" using Cons.prems by auto
    from Cons.IH [OF this(2,1)] show ?thesis
    proof (elim conjE disjE exE, goal_cases)
      case (2 k)
      then show ?case by (auto intro!: exI [of _ "Suc k"])
    qed simp
  qed
qed auto

subsection \<open>Properties\<close>

text \<open>
  C29.  The dump never overruns its buffer and is never cut inside a line: the text written, with its
  terminator, fits \<^verbatim>\<open>DLMC_DUMP_SIZE\<close>, and \<^verbatim>\<open>plock_dump_len\<close> delimits whole lines: all lines of the lockspace with
  return value 0, or, with \<^verbatim>\<open>-ENOSPC\<close> and only when they do not all fit, the first ones.
\<close>

theorem fill_plock_dump_bounds:
  "case fill_plock_dump_buf d ls of (buf, len, rv) \<Rightarrow>
     let lines = concat (map (resource_lines (now d)) (ls_plock_resources ls)) in
     length buf < DLMC_DUMP_SIZE \<and> len \<le> length buf \<and>
     (rv = 0 \<and> take len buf = concat lines \<or>
      rv = - ENOSPC \<and> DLMC_DUMP_SIZE \<le> length (concat lines) \<and>
        (\<exists>k<length lines. take len buf = concat (take k lines)))"
proof -
  obtain buf rest rv where l:
    "dump_lines [] (concat (map (resource_lines (now d)) (ls_plock_resources ls))) = (buf, rest, rv)"
    by (metis prod_cases3)
  from dump_lines_spec [OF this] show ?thesis by (auto simp: fill_plock_dump_buf_def l Let_def)
qed

end
