(* ===== verification/Deadlock_Locks.thy ===== *)
theory Deadlock_Locks
  imports Deadlock_Graph Plock_Ckpt
begin

text \<open>
  The locks the deadlock detector (\<^verbatim>\<open>deadlock.c\<close>) works on: lock modes, the resources and locks of a
  lockspace, reading them from debugfs, writing them to this node's checkpoint and reading the checkpoints of the
  other nodes.  \<open>None\<close> stands for undefined behaviour of the C code (a null pointer followed, a buffer
  overrun, an unterminated string).
\<close>

abbreviation (input) LOCAL_COPY :: "8 word" where "LOCAL_COPY \<equiv> 1"
abbreviation (input) MASTER_COPY :: "8 word" where "MASTER_COPY \<equiv> 2"
abbreviation (input) DLM_LKSTS_WAITING :: "8 word" where "DLM_LKSTS_WAITING \<equiv> 1"
abbreviation (input) DLM_LKSTS_GRANTED :: "8 word" where "DLM_LKSTS_GRANTED \<equiv> 2"
abbreviation (input) DLM_LKSTS_CONVERT :: "8 word" where "DLM_LKSTS_CONVERT \<equiv> 3"
abbreviation (input) IFL_MSTCPY :: u32 where "IFL_MSTCPY \<equiv> 0x00010000"
abbreviation (input) TR_NALLOC :: nat where "TR_NALLOC \<equiv> 4"
abbreviation (input) DLM_RESNAME_MAXLEN :: nat where "DLM_RESNAME_MAXLEN \<equiv> 64"

subsection \<open>Lock modes\<close>

text \<open>Rows and columns are the modes from -1 (unlocked) to 6; \<open>None\<close>: the index is outside the array.\<close>

definition dlm_compat_matrix :: "bool list list" where
  "dlm_compat_matrix =
    [[True, True, True, True, True, True, True, False],
     [True, True, True, True, True, True, True, False],
     [True, True, True, True, True, True, False, False],
     [True, True, True, True, False, False, False, False],
     [True, True, True, False, True, False, False, False],
     [True, True, True, False, False, False, False, False],
     [True, True, False, False, False, False, False, False],
     [False, False, False, False, False, False, False, False]]"

definition mode_index :: "8 word \<Rightarrow> nat option" where
  "mode_index mode = (if - 1 \<le> sint mode \<and> sint mode \<le> 6 then Some (nat (sint mode + 1)) else None)"

definition dlm_modes_compat :: "8 word \<Rightarrow> 8 word \<Rightarrow> bool option" where
  "dlm_modes_compat mode1 mode2 = (case (mode_index mode1, mode_index mode2) of
       (Some i, Some j) \<Rightarrow> Some (dlm_compat_matrix ! i ! j)
     | _ \<Rightarrow> None)"

subsection \<open>Resources and locks\<close>

definition lock_zero :: pack_lock where
  "lock_zero = \<lparr>pl_xid = 0, pl_id = 0, pl_nodeid = 0, pl_remid = 0, pl_ownpid = 0, pl_exflags = 0, pl_flags = 0,
     pl_status = 0, pl_grmode = 0, pl_rqmode = 0, pl_copy = 0\<rparr>"

definition lkb_zero :: dlm_lkb where
  "lkb_zero = \<lparr>lkb_lock = lock_zero, lkb_home = 0, lkb_rsb = None, lkb_trans = None, lkb_waitfor_trans = None\<rparr>"

definition lkb_at :: "deadlk \<Rightarrow> nat \<Rightarrow> dlm_lkb" where
  "lkb_at dk i = dk_lkbs dk ! i"

definition upd_lkb :: "(dlm_lkb \<Rightarrow> dlm_lkb) \<Rightarrow> nat \<Rightarrow> deadlk \<Rightarrow> deadlk" where
  "upd_lkb f i dk = dk\<lparr>dk_lkbs := (dk_lkbs dk)[i := f (lkb_at dk i)]\<rparr>"

text \<open>Names of the same length that \<^verbatim>\<open>strncmp\<close> does not tell apart.\<close>

definition same_name :: "string \<Rightarrow> string \<Rightarrow> bool" where
  "same_name s t = (length s = length t \<and> takeWhile (\<lambda>c. c \<noteq> CHR 0x00) s = takeWhile (\<lambda>c. c \<noteq> CHR 0x00) t)"

definition get_rsb :: "deadlk \<Rightarrow> string \<Rightarrow> dlm_rsb option" where
  "get_rsb dk name = find (\<lambda>r. same_name (rsb_name r) name) (dk_resources dk)"

definition upd_rsb :: "(dlm_rsb \<Rightarrow> dlm_rsb) \<Rightarrow> string \<Rightarrow> deadlk \<Rightarrow> deadlk" where
  "upd_rsb f name dk = dk\<lparr>dk_resources := map_first (\<lambda>r. same_name (rsb_name r) name) f (dk_resources dk)\<rparr>"

text \<open>Frees the locks and resources; the transactions' lists of locks are left dangling.\<close>

definition free_resources :: "deadlk \<Rightarrow> deadlk" where
  "free_resources dk = dk\<lparr>dk_resources := [], dk_lkbs := []\<rparr>"

definition free_transactions :: "deadlk \<Rightarrow> deadlk" where
  "free_transactions dk = dk\<lparr>dk_transactions := []\<rparr>"

text \<open>
  \<open>name\<close> is the name in the given length; the flag tells that the resource is there.  A longer name than the
  array in the resource overruns it.
\<close>

definition get_resource :: "daemon \<Rightarrow> deadlk \<Rightarrow> string \<Rightarrow> (daemon \<times> deadlk \<times> bool) option" where
  "get_resource d dk name = (case get_rsb dk name of
       Some r \<Rightarrow> Some (d, dk, True)
     | None \<Rightarrow> (case malloc (dmem d) of
         (None, m) \<Rightarrow> Some (d\<lparr>dmem := m\<rparr>, dk, False)
       | (Some _, m) \<Rightarrow>
           if length name > DLM_RESNAME_MAXLEN then None
           else Some (d\<lparr>dmem := m\<rparr>,
             dk\<lparr>dk_resources := \<lparr>rsb_name = name, rsb_locks = []\<rparr> # dk_resources dk\<rparr>, True)))"

definition set_copy :: "daemon \<Rightarrow> pack_lock \<Rightarrow> pack_lock" where
  "set_copy d lock =
     (if pl_nodeid lock = 0 then lock\<lparr>pl_copy := LOCAL_COPY\<rparr>
      else if and (pl_flags lock) IFL_MSTCPY \<noteq> 0 then lock\<lparr>pl_copy := MASTER_COPY\<rparr>
      else lock\<lparr>pl_copy := MASTER_COPY, pl_id := pl_remid lock, pl_remid := pl_id lock,
                pl_nodeid := our_nodeid d\<rparr>)"

definition partial_master_copy :: "pack_lock \<Rightarrow> bool" where
  "partial_master_copy lock = (pl_xid lock \<noteq> 0)"

text \<open>The lock's position in the store, and whether it was just created.\<close>

definition create_lkb :: "daemon \<Rightarrow> deadlk \<Rightarrow> daemon \<times> deadlk \<times> nat option" where
  "create_lkb d dk = (case malloc (dmem d) of
       (None, m) \<Rightarrow> (d\<lparr>dmem := m\<rparr>, dk, None)
     | (Some _, m) \<Rightarrow> (d\<lparr>dmem := m\<rparr>, dk\<lparr>dk_lkbs := dk_lkbs dk @ [lkb_zero]\<rparr>, Some (length (dk_lkbs dk))))"

definition get_lkb :: "daemon \<Rightarrow> deadlk \<Rightarrow> dlm_rsb \<Rightarrow> pack_lock \<Rightarrow> daemon \<times> deadlk \<times> (nat \<times> bool) option" where
  "get_lkb d dk r lock =
     (case (if pl_copy lock \<noteq> MASTER_COPY then None
            else find (\<lambda>i. pl_nodeid (lkb_lock (lkb_at dk i)) = pl_nodeid lock \<and>
                           pl_id (lkb_lock (lkb_at dk i)) = pl_id lock) (rsb_locks r)) of
        Some i \<Rightarrow> (d, dk, Some (i, False))
      | None \<Rightarrow> (case create_lkb d dk of (d, dk, i) \<Rightarrow> (d, dk, map_option (\<lambda>i. (i, True)) i)))"

definition fill_lkb :: "nodeid \<Rightarrow> pack_lock \<Rightarrow> dlm_lkb \<Rightarrow> dlm_lkb" where
  "fill_lkb from_nodeid lock lkb =
     (if pl_copy lock = LOCAL_COPY then lkb\<lparr>lkb_lock := lock, lkb_home := from_nodeid\<rparr>
      else if pl_copy lock = MASTER_COPY then
        (if partial_master_copy lock then
           lkb\<lparr>lkb_lock := (lkb_lock lkb)\<lparr>pl_xid := pl_xid lock, pl_nodeid := pl_nodeid lock, pl_id := pl_id lock,
                 pl_remid := pl_remid lock, pl_copy := MASTER_COPY\<rparr>, lkb_home := pl_nodeid lock\<rparr>
         else
           lkb\<lparr>lkb_lock := lock\<lparr>pl_xid := pl_xid (lkb_lock lkb)\<rparr>, lkb_home := pl_nodeid lock\<rparr>)
      else lkb)"

definition add_lkb :: "deadlk \<Rightarrow> string \<Rightarrow> nat \<Rightarrow> deadlk" where
  "add_lkb dk name i =
     upd_lkb (\<lambda>lkb. lkb\<lparr>lkb_rsb := Some name\<rparr>) i (upd_rsb (\<lambda>r. r\<lparr>rsb_locks := i # rsb_locks r\<rparr>) name dk)"

definition dk_add_lock :: "daemon \<Rightarrow> deadlk \<Rightarrow> string \<Rightarrow> nodeid \<Rightarrow> pack_lock \<Rightarrow> daemon \<times> deadlk" where
  "dk_add_lock d dk name from_nodeid lock = (case get_rsb dk name of
       None \<Rightarrow> (d, dk)
     | Some r \<Rightarrow> (case get_lkb d dk r lock of
         (d, dk, None) \<Rightarrow> (d, dk)
       | (d, dk, Some (i, new)) \<Rightarrow>
           (let dk = upd_lkb (fill_lkb from_nodeid lock) i dk
            in (d, if new then add_lkb dk (rsb_name r) i else dk))))"

subsection \<open>Reading the kernel's locks\<close>

text \<open>The name between the first two quotes; without them, or when it is too long, the code overruns a buffer.\<close>

definition parse_r_name :: "string \<Rightarrow> string option" where
  "parse_r_name line = (case dropWhile (\<lambda>c. c \<noteq> CHR 0x22) line of
       [] \<Rightarrow> None
     | _ # t \<Rightarrow>
         if CHR 0x22 \<in> set t \<and> length (takeWhile (\<lambda>c. c \<noteq> CHR 0x22) t) \<le> 65
         then Some (takeWhile (\<lambda>c. c \<noteq> CHR 0x22) t) else None)"

definition lock_format :: "bool list" where
  "lock_format = [True, False, True, False, False, True, True, False, False, False, False, False, False]"

definition parse_lock :: "int list \<Rightarrow> pack_lock" where
  "parse_lock f = \<lparr>pl_xid = ullong_value (f ! 4), pl_id = word_of_int (f ! 0), pl_nodeid = int_value (f ! 1),
     pl_remid = word_of_int (f ! 2), pl_ownpid = word_of_int (f ! 3), pl_exflags = word_of_int (f ! 5),
     pl_flags = word_of_int (f ! 6), pl_status = word_of_int (f ! 7), pl_grmode = word_of_int (f ! 8),
     pl_rqmode = word_of_int (f ! 9), pl_copy = 0\<rparr>"

fun read_lock_lines :: "daemon \<Rightarrow> deadlk \<Rightarrow> string list \<Rightarrow> (daemon \<times> deadlk) option" where
  "read_lock_lines d dk [] = Some (d, dk)"
| "read_lock_lines d dk (line # lines) =
     (let f = scan_fields lock_format line in
      if length f \<noteq> 13 then Some (d, dk)
      else let r_len = sint (int_value (f ! 12)) in
        if r_len < 0 then None
        else (case parse_r_name line of
            None \<Rightarrow> None
          | Some r_name \<Rightarrow>
              let name = take (nat r_len) (r_name @ replicate 65 CHR 0x00)
              in case get_resource d dk name of
                   None \<Rightarrow> None
                 | Some (d, dk, False) \<Rightarrow> Some (d, dk)
                 | Some (d, dk, True) \<Rightarrow>
                     (case dk_add_lock d dk name (our_nodeid d) (set_copy d (parse_lock f)) of
                        (d, dk) \<Rightarrow> read_lock_lines d dk lines)))"

text \<open>The lines of the debugfs file after \<^verbatim>\<open>fgets\<close>; the first is the header.  \<open>-1\<close>: the file cannot be opened.\<close>

definition read_debugfs_locks :: "daemon \<Rightarrow> lockspace \<Rightarrow> (daemon \<times> lockspace \<times> int) option" where
  "read_debugfs_locks d ls = (case debugfs_locks d (ls_name ls) of
       None \<Rightarrow> Some (d, ls, - 1)
     | Some [] \<Rightarrow> Some (d, ls, 0)
     | Some (_ # lines) \<Rightarrow> (case read_lock_lines d (ls_deadlk ls) lines of
         None \<Rightarrow> None
       | Some (d, dk) \<Rightarrow> Some (d, ls\<lparr>ls_deadlk := dk\<rparr>, 0)))"

subsection \<open>Checkpoints\<close>

definition lock_in :: "bool \<Rightarrow> pack_lock \<Rightarrow> pack_lock" where
  "lock_in be l = l\<lparr>pl_xid := le64_to_cpu be (pl_xid l), pl_id := le32_to_cpu be (pl_id l),
     pl_nodeid := le32_to_cpu be (pl_nodeid l), pl_remid := le32_to_cpu be (pl_remid l),
     pl_ownpid := le32_to_cpu be (pl_ownpid l), pl_exflags := le32_to_cpu be (pl_exflags l),
     pl_flags := le32_to_cpu be (pl_flags l)\<rparr>"

definition lock_out :: "bool \<Rightarrow> pack_lock \<Rightarrow> pack_lock" where
  "lock_out be l = l\<lparr>pl_xid := cpu_to_le64 be (pl_xid l), pl_id := cpu_to_le32 be (pl_id l),
     pl_nodeid := cpu_to_le32 be (pl_nodeid l), pl_remid := cpu_to_le32 be (pl_remid l),
     pl_ownpid := cpu_to_le32 be (pl_ownpid l), pl_exflags := cpu_to_le32 be (pl_exflags l),
     pl_flags := cpu_to_le32 be (pl_flags l)\<rparr>"

interpretation dk_lock: codec "lock_out be" "lock_in be"
  by unfold_locales (simp add: lock_in_def lock_out_def)

fun read_packed_locks :: "daemon \<Rightarrow> deadlk \<Rightarrow> string \<Rightarrow> nodeid \<Rightarrow> pack_lock list \<Rightarrow> daemon \<times> deadlk" where
  "read_packed_locks d dk name from_nodeid [] = (d, dk)"
| "read_packed_locks d dk name from_nodeid (l # locks) =
     (case dk_add_lock d dk name from_nodeid (lock_in (big_endian d) l) of
        (d, dk) \<Rightarrow> read_packed_locks d dk name from_nodeid locks)"

definition read_checkpoint_locks ::
  "daemon \<Rightarrow> deadlk \<Rightarrow> nodeid \<Rightarrow> string \<Rightarrow> pack_lock list \<Rightarrow> (daemon \<times> deadlk \<times> int) option"
where
  "read_checkpoint_locks d dk from_nodeid name locks = (case get_resource d dk name of
       None \<Rightarrow> None
     | Some (d, dk, False) \<Rightarrow> Some (d, dk, - 1)
     | Some (d, dk, True) \<Rightarrow>
         (case read_packed_locks d dk name from_nodeid locks of (d, dk) \<Rightarrow> Some (d, dk, 0)))"

text \<open>The number of locks the 10 MB \<^verbatim>\<open>section_buf\<close> holds.\<close>

abbreviation (input) SECTION_MAX :: nat where "SECTION_MAX \<equiv> 262144"

definition pack_lkb_list :: "daemon \<Rightarrow> deadlk \<Rightarrow> nat list \<Rightarrow> pack_lock list" where
  "pack_lkb_list d dk q = map (\<lambda>i. lock_out (big_endian d) (lkb_lock (lkb_at dk i))) (take SECTION_MAX q)"

text \<open>A call that is repeated at most ten times.\<close>

fun ckpt_retry10 ::
  "nat \<Rightarrow> sa_answer \<Rightarrow> ckpt_op \<Rightarrow> sa_answer list \<Rightarrow> sa_answer \<times> sa_answer list \<times> (ckpt_op \<times> sa_error) list"
where
  "ckpt_retry10 n dflt op [] = (dflt, [], [(op, sa_err dflt)])"
| "ckpt_retry10 n dflt op (a # as) =
     (if sa_err a = SA_AIS_ERR_TRY_AGAIN \<and> n < 10 then
        (case ckpt_retry10 (n + 1) dflt op as of (b, bs, l) \<Rightarrow> (b, bs, (op, SA_AIS_ERR_TRY_AGAIN) # l))
      else (a, as, [(op, sa_err a)]))"

text \<open>\<open>retries\<close> is the value of the counter before; the counter afterwards is the second component.\<close>

definition ckpt_try_from :: "nat \<Rightarrow> sa_answer \<Rightarrow> daemon \<Rightarrow> ckpt_op \<Rightarrow> sa_answer \<times> nat \<times> daemon" where
  "ckpt_try_from retries dflt d op = (case ckpt_retry10 retries dflt op (ckpt_answers d) of (a, as, l) \<Rightarrow>
     (a, retries + length (filter (\<lambda>e. snd e = SA_AIS_ERR_TRY_AGAIN) l),
      d\<lparr>ckpt_answers := as, ckpt_ops := ckpt_ops d @ l\<rparr>))"

definition ckpt_try :: "sa_answer \<Rightarrow> daemon \<Rightarrow> ckpt_op \<Rightarrow> sa_answer \<times> daemon" where
  "ckpt_try dflt d op = (case ckpt_try_from 0 dflt d op of (a, _, d) \<Rightarrow> (a, d))"

definition dk_ckpt_name :: "lockspace \<Rightarrow> nodeid \<Rightarrow> string" where
  "dk_ckpt_name ls nodeid = ''dlmdeadlk.'' @ ls_name ls @ ''.'' @ print_s32 nodeid"

definition set_dk :: "(deadlk \<Rightarrow> deadlk) \<Rightarrow> lockspace \<Rightarrow> lockspace" where
  "set_dk f ls = ls\<lparr>ls_deadlk := f (ls_deadlk ls)\<rparr>"

definition dk_unlink :: "daemon \<Rightarrow> lockspace \<Rightarrow> string \<Rightarrow> daemon \<times> lockspace \<times> int" where
  "dk_unlink d ls name =
     (let h = dk_ckpt_handle (ls_deadlk ls); ls = set_dk (\<lambda>dk. dk\<lparr>dk_ckpt_handle := 0\<rparr>) ls in
      case ckpt_try sa_ok d (Ckpt_unlink name) of (a, d) \<Rightarrow>
        if sa_err a = SA_AIS_OK then (snd (ckpt_try sa_ok d (Ckpt_close h)), ls, 0)
        else if h = 0 then (d, ls, 0)
        else (snd (ckpt_try sa_ok (snd (ckpt_try sa_ok d (Ckpt_status h))) (Ckpt_close h)), ls, - 1))"

definition dk_unlink_checkpoint :: "daemon \<Rightarrow> lockspace \<Rightarrow> daemon \<times> lockspace \<times> int" where
  "dk_unlink_checkpoint d ls = dk_unlink d ls (dk_ckpt_name ls (our_nodeid d))"

lemma ckpt_retry10_shrinks:
  "ckpt_retry10 n dflt op as = (a, bs, l) \<Longrightarrow> length bs \<le> length as \<and> (sa_err a \<noteq> sa_err dflt \<longrightarrow> length bs < length as)"
proof (induction as arbitrary: n a bs l)
  case (Cons x as)
  show ?case using Cons.prems Cons.IH [of "n + 1"] by (force split: if_splits prod.splits)
qed simp

lemma ckpt_try_shrinks:
  "ckpt_try dflt d op = (a, d') \<Longrightarrow> length (ckpt_answers d') \<le> length (ckpt_answers d) \<and>
     (sa_err a \<noteq> sa_err dflt \<longrightarrow> length (ckpt_answers d') < length (ckpt_answers d))"
  using ckpt_retry10_shrinks by (fastforce simp: ckpt_try_def ckpt_try_from_def split: prod.splits)

lemma ckpt_try_le [simp]: "length (ckpt_answers (snd (ckpt_try dflt d op))) \<le> length (ckpt_answers d)"
  using ckpt_try_shrinks [of dflt d op] by (cases "ckpt_try dflt d op") simp

lemma next_section_shrinks:
  "(a, d') = ckpt_try sa_end d Ckpt_iter_next \<Longrightarrow> sa_err a = SA_AIS_OK \<Longrightarrow> length (ckpt_answers d') < length (ckpt_answers d)"
  using ckpt_try_shrinks [of sa_end d Ckpt_iter_next a d'] by (simp add: sa_end_def)

lemma dk_unlink_le:
  assumes "dk_unlink d ls name = (d', ls', ret)"
  shows "length (ckpt_answers d') \<le> length (ckpt_answers d)"
proof -
  obtain a d1 where o: "ckpt_try sa_ok d (Ckpt_unlink name) = (a, d1)" by force
  have l: "length (ckpt_answers d1) \<le> length (ckpt_answers d)" using ckpt_try_le [of sa_ok d "Ckpt_unlink name"] o by simp
  have m: "length (ckpt_answers (snd (ckpt_try sa_ok e op))) \<le> length (ckpt_answers d)"
    if "length (ckpt_answers e) \<le> length (ckpt_answers d)" for e op
    using that ckpt_try_le [of sa_ok e op] by linarith
  show ?thesis using assms o l m by (auto simp: dk_unlink_def Let_def split: if_splits)
qed

lemma dk_add_lock_answers: "dk_add_lock d dk name n l = (d', dk') \<Longrightarrow> ckpt_answers d' = ckpt_answers d"
  by (auto simp: dk_add_lock_def get_lkb_def create_lkb_def Let_def split: option.splits prod.splits if_splits)

lemma read_packed_answers: "read_packed_locks d dk name n ls = (d', dk') \<Longrightarrow> ckpt_answers d' = ckpt_answers d"
proof (induction ls arbitrary: d dk)
  case (Cons l ls)
  obtain d1 dk1 where o: "dk_add_lock d dk name n (lock_in (big_endian d) l) = (d1, dk1)" by force
  show ?case using Cons dk_add_lock_answers [OF o] o by simp
qed simp

lemma get_resource_answers: "get_resource d dk name = Some (d', dk', b) \<Longrightarrow> ckpt_answers d' = ckpt_answers d"
  by (auto simp: get_resource_def split: option.splits prod.splits if_splits)

lemma read_checkpoint_locks_answers:
  assumes "read_checkpoint_locks d dk n name ls = Some (d', dk', rv)"
  shows "ckpt_answers d' = ckpt_answers d"
proof -
  obtain d1 dk1 b where g: "get_resource d dk name = Some (d1, dk1, b)"
    using assms by (cases "get_resource d dk name") (auto simp: read_checkpoint_locks_def)
  obtain d2 dk2 where p: "read_packed_locks d1 dk1 name n ls = (d2, dk2)" by force
  show ?thesis using assms g p get_resource_answers [OF g] read_packed_answers [OF p]
    by (cases b) (auto simp: read_checkpoint_locks_def)
qed

text \<open>
  Reading the sections.  An iteration answer carries the section's id and, as \<open>sa_extra\<close>, its size; a read
  answer carries the entries and the bytes after the last whole entry.
\<close>

function read_sections :: "daemon \<Rightarrow> deadlk \<Rightarrow> nodeid \<Rightarrow> u64 \<Rightarrow> (daemon \<times> deadlk) option" where
  "read_sections d dk nodeid h =
     (case ckpt_try sa_end d Ckpt_iter_next of (a, d1) \<Rightarrow>
        if sa_err a \<noteq> SA_AIS_OK then Some (d1, dk)
        else if sa_extra a = 0 then read_sections d1 dk nodeid h
        else (case ckpt_try sa_ok d1 (Ckpt_read h (sa_id a)) of (b, d2) \<Rightarrow>
          if sa_err b \<noteq> SA_AIS_OK then Some (d2, dk)
          else let section_len = 40 * length (sa_locks b) + sa_extra b in
            if section_len > 10485760 then None
            else if section_len = 0 \<or> section_len mod 40 \<noteq> 0 then read_sections d2 dk nodeid h
            else (case read_checkpoint_locks d2 dk nodeid (sa_id a) (sa_locks b) of
                None \<Rightarrow> None
              | Some (d3, dk3, _) \<Rightarrow> read_sections d3 dk3 nodeid h)))"
  by pat_completeness auto
termination
proof (relation "measure (\<lambda>(d, dk, n, h). length (ckpt_answers d))", goal_cases)
  case (2 d dk nodeid h a d1)
  then show ?case using next_section_shrinks [of a d1 d] by simp
next
  case (3 d dk nodeid h a d1 b d2)
  then show ?case using next_section_shrinks [of a d1 d] ckpt_try_shrinks [of sa_ok d1 _ b d2] by fastforce
next
  case (4 d dk nodeid h a d1 b d2 len e d3 f dk3 rv)
  then have "length (ckpt_answers d2) < length (ckpt_answers d)"
    using next_section_shrinks [of a d1 d] ckpt_try_shrinks [of sa_ok d1 _ b d2] by fastforce
  moreover have "ckpt_answers d3 = ckpt_answers d2"
    using 4 read_checkpoint_locks_answers [of d2 dk nodeid _ _ d3 dk3 rv] by simp
  ultimately show ?case by simp
qed simp

declare read_sections.simps [simp del]

definition read_checkpoint :: "daemon \<Rightarrow> lockspace \<Rightarrow> nodeid \<Rightarrow> (daemon \<times> lockspace) option" where
  "read_checkpoint d ls nodeid =
     (if nodeid = our_nodeid d then Some (d, ls)
      else (case ckpt_try sa_ok d (Ckpt_open (dk_ckpt_name ls nodeid)) of (a, d) \<Rightarrow>
        if sa_err a \<noteq> SA_AIS_OK then Some (d, ls)
        else let h = sa_handle a in
          case ckpt_try_from 0 sa_ok d (Ckpt_iter_init h) of (b, retries, d) \<Rightarrow>
            if sa_err b \<noteq> SA_AIS_OK then Some (snd (snd (ckpt_try_from retries sa_ok d (Ckpt_close h))), ls)
            else (case read_sections d (ls_deadlk ls) nodeid h of
                None \<Rightarrow> None
              | Some (d, dk) \<Rightarrow>
                  Some (snd (ckpt_try sa_ok (ckpt_once d Ckpt_iter_fini) (Ckpt_close h)),
                    ls\<lparr>ls_deadlk := dk\<rparr>))))"

fun write_sizes :: "dlm_rsb list \<Rightarrow> nat \<times> nat \<times> nat \<Rightarrow> nat \<times> nat \<times> nat" where
  "write_sizes [] sizes = sizes"
| "write_sizes (r # rs) (r_count, total_size, max_section_size) =
     (let section_size = 40 * length (rsb_locks r)
      in write_sizes rs (r_count + 1, total_size + section_size,
           if section_size > max_section_size then section_size else max_section_size))"

text \<open>A name of the full 64 bytes is not terminated, so printing it with \<^verbatim>\<open>%s\<close> reads past the array.\<close>

fun write_sections :: "daemon \<Rightarrow> deadlk \<Rightarrow> u64 \<Rightarrow> dlm_rsb list \<Rightarrow> (daemon \<times> bool) option" where
  "write_sections d dk h [] = Some (d, False)"
| "write_sections d dk h (r # rs) =
     (if length (rsb_name r) = DLM_RESNAME_MAXLEN \<and> CHR 0x00 \<notin> set (rsb_name r) then None
      else (case ckpt_do sa_ok d (Ckpt_lock_section h (takeWhile (\<lambda>c. c \<noteq> CHR 0x00) (rsb_name r))
                     (pack_lkb_list d dk (rsb_locks r))) of (a, d) \<Rightarrow>
        if sa_err a = SA_AIS_ERR_EXIST then Some (d, True)
        else if sa_err a \<noteq> SA_AIS_OK then Some (d, False)
        else write_sections d dk h rs))"

lemma write_sections_shrinks:
  "write_sections d dk h rs = Some (d', ex) \<Longrightarrow> length (ckpt_answers d') \<le> length (ckpt_answers d) \<and>
     (ex \<longrightarrow> length (ckpt_answers d') < length (ckpt_answers d))"
proof (induction rs arbitrary: d)
  case (Cons r rs)
  obtain a d1 where o: "ckpt_do sa_ok d (Ckpt_lock_section h (takeWhile (\<lambda>c. c \<noteq> CHR 0x00) (rsb_name r))
      (pack_lkb_list d dk (rsb_locks r))) = (a, d1)" by force
  note s = ckpt_do_shrinks [OF o]
  show ?case using Cons.prems Cons.IH [of d1] o s by (auto simp: sa_ok_def split: if_splits)
qed simp

function write_open :: "daemon \<Rightarrow> lockspace \<Rightarrow> nat \<times> nat \<times> nat \<Rightarrow> (daemon \<times> lockspace) option" where
  "write_open d ls (r_count, total_size, max_section_size) =
     (case ckpt_do sa_ok d (Ckpt_create (dk_ckpt_name ls (our_nodeid d)) total_size (r_count + 1) max_section_size) of
        (a, d1) \<Rightarrow>
        if sa_err a \<noteq> SA_AIS_OK then Some (d1, ls)
        else (case write_sections d1 (ls_deadlk ls) (sa_handle a) (dk_resources (ls_deadlk ls)) of
            None \<Rightarrow> None
          | Some (d2, ex) \<Rightarrow>
              if \<not> ex then Some (d2, set_dk (\<lambda>dk. dk\<lparr>dk_ckpt_handle := sa_handle a\<rparr>) ls)
              else (case dk_unlink (ckpt_once d2 (Ckpt_close (sa_handle a)))
                           (set_dk (\<lambda>dk. dk\<lparr>dk_ckpt_handle := sa_handle a\<rparr>) ls) (dk_ckpt_name ls (our_nodeid d)) of
                      (d3, ls3, _) \<Rightarrow> write_open d3 ls3 (r_count, total_size, max_section_size))))"
  by pat_completeness auto
termination
proof (relation "measure (\<lambda>(d, ls, _). length (ckpt_answers d))", goal_cases)
  case (2 d ls r_count total_size max_section_size a d1 x d2 ex d3 y ls3 v)
  have "length (ckpt_answers d1) \<le> length (ckpt_answers d)"
    using 2 ckpt_do_shrinks [of sa_ok d _ a d1] by simp
  moreover have "length (ckpt_answers d2) < length (ckpt_answers d1)"
    using 2 write_sections_shrinks [of d1 _ _ _ d2 True] by auto
  moreover have "length (ckpt_answers d3) \<le> length (ckpt_answers d2)"
    using 2 dk_unlink_le [of _ _ _ d3 ls3 v] ckpt_once_le [of d2 "Ckpt_close (sa_handle a)"]
    by (metis le_trans)
  ultimately show ?case by simp
qed simp

declare write_open.simps [simp del]

definition write_checkpoint :: "daemon \<Rightarrow> lockspace \<Rightarrow> (daemon \<times> lockspace) option" where
  "write_checkpoint d ls =
     (let sizes = write_sizes (dk_resources (ls_deadlk ls)) (0, 0, 0) in
      if dk_ckpt_handle (ls_deadlk ls) \<noteq> 0 then
        (case dk_unlink d ls (dk_ckpt_name ls (our_nodeid d)) of (d, ls, rv) \<Rightarrow>
           if rv \<noteq> 0 then Some (d, ls) else write_open d ls sizes)
      else write_open d ls sizes)"

end
