(* ===== verification/Deadlock_Cycle.thy ===== *)
theory Deadlock_Cycle
  imports Deadlock_Locks
begin

text \<open>
  The detection cycle (\<^verbatim>\<open>deadlock.c\<close>).  A message starts a cycle; every node reads the locks of the lockspace
  from debugfs, writes them to its checkpoint and says so; every node reads the others' checkpoints; when all are
  ready the node with the lowest id builds the waits-for graph, cancels the waiting locks of a deadlocked
  transaction and ends the cycle.  Freeing a resource also unlinks its locks from the transactions that list
  them; the links it follows there may point to freed memory (\<open>dangling_trans\<close> tells when), which the model of
  the memory below does not follow.
\<close>

subsection \<open>Messages\<close>

definition dk_send_message :: "daemon \<Rightarrow> lockspace \<Rightarrow> u16 \<Rightarrow> u32 \<Rightarrow> u32 \<Rightarrow> daemon" where
  "dk_send_message d ls type to_nodeid msgdata = (case malloc (dmem d) of
       (None, m) \<Rightarrow> d\<lparr>dmem := m\<rparr>
     | (Some _, m) \<Rightarrow> dlm_send_message (d\<lparr>dmem := m\<rparr>) ls
         (hd_zero\<lparr>hd_type := type, hd_to_nodeid := to_nodeid, hd_msgdata := msgdata\<rparr>) Body_none)"

definition send_checkpoint_ready :: "daemon \<Rightarrow> lockspace \<Rightarrow> daemon" where
  "send_checkpoint_ready d ls = dk_send_message d ls DLM_MSG_DEADLK_CHECKPOINT_READY 0 0"

definition send_cycle_start :: "daemon \<Rightarrow> lockspace \<Rightarrow> daemon" where
  "send_cycle_start d ls = dk_send_message d ls DLM_MSG_DEADLK_CYCLE_START 0 0"

definition send_cycle_end :: "daemon \<Rightarrow> lockspace \<Rightarrow> daemon" where
  "send_cycle_end d ls = dk_send_message d ls DLM_MSG_DEADLK_CYCLE_END 0 0"

definition cancel_lkid :: "dlm_lkb \<Rightarrow> u32" where
  "cancel_lkid lkb =
     (if pl_nodeid (lkb_lock lkb) = 0 then pl_id (lkb_lock lkb) else pl_remid (lkb_lock lkb))"

definition send_cancel_lock :: "daemon \<Rightarrow> lockspace \<Rightarrow> dlm_lkb \<Rightarrow> daemon" where
  "send_cancel_lock d ls lkb =
     dk_send_message d ls DLM_MSG_DEADLK_CANCEL_LOCK (lkb_home lkb) (cancel_lkid lkb)"

subsection \<open>Transactions and the waits-for graph\<close>

definition add_lkb_trans :: "u64 \<Rightarrow> nat \<Rightarrow> deadlk \<Rightarrow> deadlk" where
  "add_lkb_trans xid i dk =
     upd_lkb (\<lambda>lkb. lkb\<lparr>lkb_trans := Some xid\<rparr>) i
       (dk\<lparr>dk_transactions := upd_tr (\<lambda>t. t\<lparr>tr_locks := i # tr_locks t\<rparr>) xid (dk_transactions dk)\<rparr>)"

definition new_trans :: "u64 \<Rightarrow> trans" where
  "new_trans xid = \<lparr>tr_locks = [], tr_xid = xid, tr_others_waiting_on_us = 0, tr_waitfor_alloc = 0,
     tr_waitfor_count = 0, tr_waitfor = []\<rparr>"

definition get_trans :: "daemon \<Rightarrow> deadlk \<Rightarrow> u64 \<Rightarrow> daemon \<times> deadlk \<times> bool" where
  "get_trans d dk xid = (case get_tr (dk_transactions dk) xid of
       Some _ \<Rightarrow> (d, dk, True)
     | None \<Rightarrow> (case malloc (dmem d) of
         (None, m) \<Rightarrow> (d\<lparr>dmem := m\<rparr>, dk, False)
       | (Some _, m) \<Rightarrow> (d\<lparr>dmem := m\<rparr>, dk\<lparr>dk_transactions := new_trans xid # dk_transactions dk\<rparr>, True)))"

text \<open>The loop of \<^verbatim>\<open>create_trans_list\<close> over the locks of all resources.\<close>

fun trans_locks :: "daemon \<Rightarrow> deadlk \<Rightarrow> nat list \<Rightarrow> daemon \<times> deadlk" where
  "trans_locks d dk [] = (d, dk)"
| "trans_locks d dk (i # is) = (case get_trans d dk (pl_xid (lkb_lock (lkb_at dk i))) of
       (d, dk, False) \<Rightarrow> (d, dk)
     | (d, dk, True) \<Rightarrow> trans_locks d (add_lkb_trans (pl_xid (lkb_lock (lkb_at dk i))) i dk) is)"

definition create_trans_list :: "daemon \<Rightarrow> deadlk \<Rightarrow> daemon \<times> deadlk" where
  "create_trans_list d dk = trans_locks d dk (concat (map rsb_locks (dk_resources dk)))"

text \<open>\<open>None\<close>: a lock has no transaction (\<^verbatim>\<open>get_trans\<close> failed) or a mode outside the matrix.\<close>

definition locks_compat :: "deadlk \<Rightarrow> nat \<Rightarrow> nat \<Rightarrow> bool option" where
  "locks_compat dk w g =
     (if w = g then Some False
      else (case (lkb_trans (lkb_at dk w), lkb_trans (lkb_at dk g)) of
          (Some x, Some y) \<Rightarrow>
            if x = y then Some False
            else dlm_modes_compat (pl_grmode (lkb_lock (lkb_at dk g))) (pl_rqmode (lkb_lock (lkb_at dk w)))
        | _ \<Rightarrow> None))"

definition in_waitfor :: "trans \<Rightarrow> u64 \<Rightarrow> bool" where
  "in_waitfor tr y = (Some y \<in> set (tr_waitfor tr))"

text \<open>
  The slots after making room for one more.  When the array cannot be allocated the pointer is null while
  \<^verbatim>\<open>waitfor_alloc\<close> has grown: with used slots the next dump of the graph follows it (\<open>None\<close>), without it is
  followed when a second entry is added.
\<close>

definition grow_waitfor :: "daemon \<Rightarrow> trans \<Rightarrow> (daemon \<times> trans \<times> bool) option" where
  "grow_waitfor d tr =
     (if tr_waitfor_count tr = tr_waitfor_alloc tr then
        (case malloc (dmem d) of
           (None, m) \<Rightarrow>
             if tr_waitfor_count tr \<noteq> 0 then None
             else Some (d\<lparr>dmem := m\<rparr>, tr\<lparr>tr_waitfor_alloc := tr_waitfor_alloc tr + TR_NALLOC, tr_waitfor := []\<rparr>, False)
         | (Some _, m) \<Rightarrow>
             Some (d\<lparr>dmem := m\<rparr>, tr\<lparr>tr_waitfor_alloc := tr_waitfor_alloc tr + TR_NALLOC,
               tr_waitfor := take (tr_waitfor_count tr) (tr_waitfor tr) @
                 replicate (tr_waitfor_alloc tr + TR_NALLOC - tr_waitfor_count tr) None\<rparr>, True))
      else if tr_waitfor_count tr < length (tr_waitfor tr) then Some (d, tr, True)
      else None)"

definition push_waitfor :: "u64 \<Rightarrow> trans \<Rightarrow> trans" where
  "push_waitfor y tr = tr\<lparr>tr_waitfor := (tr_waitfor tr)[tr_waitfor_count tr := Some y],
     tr_waitfor_count := tr_waitfor_count tr + 1\<rparr>"

definition add_waitfor :: "daemon \<Rightarrow> deadlk \<Rightarrow> nat \<Rightarrow> nat \<Rightarrow> (daemon \<times> deadlk) option" where
  "add_waitfor d dk w g = (case locks_compat dk w g of
       None \<Rightarrow> None
     | Some True \<Rightarrow> Some (d, dk)
     | Some False \<Rightarrow>
         if lkb_trans (lkb_at dk w) = lkb_trans (lkb_at dk g) then Some (d, dk)
         else (case (lkb_trans (lkb_at dk w), lkb_trans (lkb_at dk g)) of
             (Some x, Some y) \<Rightarrow> (case get_tr (dk_transactions dk) x of
                 None \<Rightarrow> None
               | Some tr \<Rightarrow>
                   if tr_waitfor_count tr \<noteq> 0 \<and> in_waitfor tr y then Some (d, dk)
                   else (case grow_waitfor d tr of
                       None \<Rightarrow> None
                     | Some (d, tr, False) \<Rightarrow>
                         Some (d, dk\<lparr>dk_transactions := upd_tr (\<lambda>_. tr) x (dk_transactions dk)\<rparr>)
                     | Some (d, tr, True) \<Rightarrow>
                         Some (d, upd_lkb (\<lambda>lkb. lkb\<lparr>lkb_waitfor_trans := Some y\<rparr>) w
                           (dk\<lparr>dk_transactions :=
                              upd_tr (\<lambda>t. t\<lparr>tr_others_waiting_on_us := tr_others_waiting_on_us t + 1\<rparr>) y
                                (upd_tr (\<lambda>_. push_waitfor y tr) x (dk_transactions dk))\<rparr>))))
           | _ \<Rightarrow> None))"

fun waitfor_granted :: "daemon \<Rightarrow> deadlk \<Rightarrow> nat \<Rightarrow> nat list \<Rightarrow> (daemon \<times> deadlk) option" where
  "waitfor_granted d dk w [] = Some (d, dk)"
| "waitfor_granted d dk w (g # gs) =
     (if pl_status (lkb_lock (lkb_at dk g)) = DLM_LKSTS_WAITING then waitfor_granted d dk w gs
      else (case add_waitfor d dk w g of
          None \<Rightarrow> None
        | Some (d, dk) \<Rightarrow> waitfor_granted d dk w gs))"

fun waitfor_waiting :: "daemon \<Rightarrow> deadlk \<Rightarrow> nat list \<Rightarrow> (daemon \<times> deadlk) option" where
  "waitfor_waiting d dk [] = Some (d, dk)"
| "waitfor_waiting d dk (w # ws) =
     (if pl_status (lkb_lock (lkb_at dk w)) = DLM_LKSTS_GRANTED then waitfor_waiting d dk ws
      else (case Option.bind (lkb_rsb (lkb_at dk w)) (get_rsb dk) of
          None \<Rightarrow> None
        | Some r \<Rightarrow> (case waitfor_granted d dk w (rsb_locks r) of
            None \<Rightarrow> None
          | Some (d, dk) \<Rightarrow> waitfor_waiting d dk ws)))"

definition create_waitfor_graph :: "daemon \<Rightarrow> deadlk \<Rightarrow> (daemon \<times> deadlk) option" where
  "create_waitfor_graph d dk = waitfor_waiting d dk (concat (map tr_locks (dk_transactions dk)))"

subsection \<open>Resolving a deadlock\<close>

fun cancel_locks :: "daemon \<Rightarrow> lockspace \<Rightarrow> trans list \<Rightarrow> u64 \<Rightarrow> nat list \<Rightarrow> daemon \<times> trans list" where
  "cancel_locks d ls trs x [] = (d, trs)"
| "cancel_locks d ls trs x (i # is) =
     (let lkb = lkb_at (ls_deadlk ls) i in
      if pl_status (lkb_lock lkb) = DLM_LKSTS_GRANTED then cancel_locks d ls trs x is
      else cancel_locks (send_cancel_lock d ls lkb) ls
             (case lkb_waitfor_trans lkb of None \<Rightarrow> trs | Some y \<Rightarrow> remove_waitfor trs x y) x is)"

definition cancel_trans :: "daemon \<Rightarrow> lockspace \<Rightarrow> daemon \<times> lockspace" where
  "cancel_trans d ls = (case find_trans_to_cancel (dk_transactions (ls_deadlk ls)) of
       None \<Rightarrow> (d, ls)
     | Some tr \<Rightarrow> (case cancel_locks d ls (dk_transactions (ls_deadlk ls)) (tr_xid tr) (tr_locks tr) of
         (d, trs) \<Rightarrow> (d, set_dk (\<lambda>dk. dk\<lparr>dk_transactions := fst (reduce_waitfor_graph trs)\<rparr>) ls)))"

definition find_deadlock :: "daemon \<Rightarrow> lockspace \<Rightarrow> (daemon \<times> lockspace) option" where
  "find_deadlock d ls =
     (if dk_resources (ls_deadlk ls) = [] \<or> dk_transactions (ls_deadlk ls) \<noteq> [] then Some (send_cycle_end d ls, ls)
      else (case create_trans_list d (ls_deadlk ls) of (d, dk) \<Rightarrow> case create_waitfor_graph d dk of
          None \<Rightarrow> None
        | Some (d, dk) \<Rightarrow>
            let reduced = reduce_waitfor_graph_loop (dk_transactions dk);
                ls = ls\<lparr>ls_deadlk := dk\<lparr>dk_transactions := reduced\<rparr>\<rparr>
            in if reduced = [] then Some (send_cycle_end d ls, ls)
               else (case cancel_trans d ls of (d, ls) \<Rightarrow>
                 let ls = set_dk (\<lambda>dk. dk\<lparr>dk_transactions := reduce_waitfor_graph_loop (dk_transactions dk)\<rparr>) ls
                 in Some (send_cycle_end d ls, ls))))"

subsection \<open>The cycle\<close>

fun low_node :: "dk_node list \<Rightarrow> nodeid \<Rightarrow> nodeid" where
  "low_node [] low = low"
| "low_node (n # ns) low =
     (if dn_in_cycle n \<and> (dn_nodeid n <s low \<or> low = - 1) then low_node ns (dn_nodeid n) else low_node ns low)"

definition run_deadlock :: "daemon \<Rightarrow> lockspace \<Rightarrow> (daemon \<times> lockspace) option" where
  "run_deadlock d ls =
     (if \<exists>n\<in>set (dk_nodes (ls_deadlk ls)). dn_in_cycle n \<and> \<not> dn_checkpoint_ready n then Some (d, ls)
      else let low = low_node (dk_nodes (ls_deadlk ls)) (- 1);
               ls = set_dk (\<lambda>dk. dk\<lparr>dk_all_checkpoints_ready := True, dk_low_nodeid := low\<rparr>) ls
           in if low = our_nodeid d then find_deadlock d ls else Some (d, ls))"

definition receive_checkpoint_ready :: "daemon \<Rightarrow> lockspace \<Rightarrow> dlm_header \<Rightarrow> (daemon \<times> lockspace) option" where
  "receive_checkpoint_ready d ls h = (case read_checkpoint d ls (hd_nodeid h) of
       None \<Rightarrow> None
     | Some (d, ls) \<Rightarrow>
         run_deadlock d (set_dk (\<lambda>dk. dk\<lparr>dk_nodes := map_first (\<lambda>n. dn_nodeid n = hd_nodeid h)
           (\<lambda>n. n\<lparr>dn_checkpoint_ready := True\<rparr>) (dk_nodes dk)\<rparr>) ls))"

definition receive_cycle_start :: "daemon \<Rightarrow> lockspace \<Rightarrow> dlm_header \<Rightarrow> (daemon \<times> lockspace) option" where
  "receive_cycle_start d ls h =
     (if dk_cycle_running (ls_deadlk ls) then Some (d, ls)
      else let ls = set_dk (\<lambda>dk. dk\<lparr>dk_cycle_running := True, dk_cycle_start_time := now d,
                 dk_nodes := map (\<lambda>n. n\<lparr>dn_in_cycle := True\<rparr>) (dk_nodes dk)\<rparr>) ls
           in case read_debugfs_locks d ls of
                None \<Rightarrow> None
              | Some (d, ls, rv) \<Rightarrow>
                  if rv < 0 then Some (d, ls)
                  else (case write_checkpoint d ls of
                      None \<Rightarrow> None
                    | Some (d, ls) \<Rightarrow> Some (send_checkpoint_ready d ls, ls)))"

definition receive_cycle_end :: "daemon \<Rightarrow> lockspace \<Rightarrow> dlm_header \<Rightarrow> daemon \<times> lockspace" where
  "receive_cycle_end d ls h =
     (if \<not> dk_cycle_running (ls_deadlk ls) then (d, ls)
      else let ls = set_dk (\<lambda>dk. free_transactions (free_resources
                 (dk\<lparr>dk_cycle_end_time := now d, dk_cycle_running := False, dk_all_checkpoints_ready := False,
                     dk_nodes := map (\<lambda>n. n\<lparr>dn_checkpoint_ready := False\<rparr>) (dk_nodes dk)\<rparr>))) ls
           in case dk_unlink_checkpoint d ls of (d, ls, _) \<Rightarrow> (d, ls))"

definition receive_cancel_lock :: "daemon \<Rightarrow> lockspace \<Rightarrow> dlm_header \<Rightarrow> daemon" where
  "receive_cancel_lock d ls h =
     (if hd_nodeid h \<noteq> our_nodeid d then d
      else if \<not> dlm_opens d then d
      else d\<lparr>kernel_ops := kernel_ops d @ [Deadlock_cancel (ls_name ls) (hd_msgdata h)]\<rparr>)"

text \<open>Locks that \<^verbatim>\<open>free_resources\<close> unlinks from a transaction that is already freed.\<close>

definition dangling_trans :: "deadlk \<Rightarrow> bool" where
  "dangling_trans dk = (\<exists>r\<in>set (dk_resources dk). \<exists>i\<in>set (rsb_locks r). case lkb_trans (lkb_at dk i) of
       None \<Rightarrow> False
     | Some x \<Rightarrow> get_tr (dk_transactions dk) x = None)"

subsection \<open>Membership\<close>

definition dk_node_joined :: "daemon \<Rightarrow> deadlk \<Rightarrow> nodeid \<Rightarrow> daemon \<times> deadlk" where
  "dk_node_joined d dk nodeid = (case malloc (dmem d) of
       (None, m) \<Rightarrow> (d\<lparr>dmem := m\<rparr>, dk)
     | (Some _, m) \<Rightarrow> (d\<lparr>dmem := m\<rparr>, dk\<lparr>dk_nodes := dk_nodes dk @
         [\<lparr>dn_nodeid = nodeid, dn_checkpoint_ready = False, dn_in_cycle = False\<rparr>]\<rparr>))"

fun nodes_joined :: "daemon \<Rightarrow> deadlk \<Rightarrow> nodeid list \<Rightarrow> daemon \<times> deadlk" where
  "nodes_joined d dk [] = (d, dk)"
| "nodes_joined d dk (n # ns) = (case dk_node_joined d dk n of (d, dk) \<Rightarrow> nodes_joined d dk ns)"

definition dk_node_left :: "nodeid \<Rightarrow> deadlk \<Rightarrow> deadlk" where
  "dk_node_left nodeid dk = dk\<lparr>dk_nodes := filter (\<lambda>n. dn_nodeid n \<noteq> nodeid) (dk_nodes dk)\<rparr>"

definition purge_locks :: "nodeid \<Rightarrow> deadlk \<Rightarrow> deadlk" where
  "purge_locks nodeid dk = dk\<lparr>dk_resources :=
     map (\<lambda>r. r\<lparr>rsb_locks := filter (\<lambda>i. lkb_home (lkb_at dk i) \<noteq> nodeid) (rsb_locks r)\<rparr>) (dk_resources dk)\<rparr>"

definition deadlk_confchg ::
  "daemon \<Rightarrow> lockspace \<Rightarrow> nodeid list \<Rightarrow> nodeid list \<Rightarrow> nodeid list \<Rightarrow> (daemon \<times> lockspace) option"
where
  "deadlk_confchg d ls member_list left_list joined_list =
     (if \<not> cfgd_enable_deadlk d then Some (d, ls)
      else if \<not> dk_confchg_init (ls_deadlk ls) then
        (case nodes_joined d (ls_deadlk ls\<lparr>dk_confchg_init := True\<rparr>) member_list of
           (d, dk) \<Rightarrow> Some (d, ls\<lparr>ls_deadlk := dk\<rparr>))
      else (case nodes_joined d (ls_deadlk ls) joined_list of (d, dk) \<Rightarrow>
        let ls = ls\<lparr>ls_deadlk := fold dk_node_left left_list dk\<rparr> in
        if \<not> dk_cycle_running (ls_deadlk ls) \<or> left_list = [] then Some (d, ls)
        else if \<not> dk_all_checkpoints_ready (ls_deadlk ls) then run_deadlock d ls
        else let ls = set_dk (fold purge_locks left_list) ls in
             if dk_low_nodeid (ls_deadlk ls) \<in> set left_list then run_deadlock d ls else Some (d, ls)))"

end
