(* ===== verification/Deadlock_Reduce.thy ===== *)
theory Deadlock_Reduce
  imports Deadlock_Graph
begin

text \<open>
  Reduction of the waits-for graph is exact: it terminates with the largest set of transactions in which
  everybody waits for somebody in the set, so nothing is left exactly when the graph has no cycle.
\<close>

subsection \<open>Removing one transaction\<close>

lemma others_zero_visited:
  assumes wf: "graph_wf trs" and y: "t \<in> set trs" "tr_xid t = y"
    and z: "tr_others_waiting_on_us (visited y P trs t) = 0"
  shows "map (visited y P trs) trs = map (visited y (tr_xid ` set trs) trs) trs"
proof -
  let ?w = "waiters_on trs y"
  have "tr_others_waiting_on_us t = int (length ?w)" using wf y by (auto simp: graph_wf_def trans_wf_def)
  then have "length (filter (\<lambda>u. tr_xid u \<in> P) ?w) = length ?w" using z y(2) by (simp add: visited_def)
  then have all: "\<forall>u\<in>set ?w. tr_xid u \<in> P"
    by (metis filter_id_conv filter_True length_filter_less less_irrefl)
  then have "filter (\<lambda>u. tr_xid u \<in> P) ?w = filter (\<lambda>u. tr_xid u \<in> tr_xid ` set trs) ?w"
    by (intro filter_cong) (auto simp: waiters_on_def)
  then show ?thesis
    using all by (intro map_cong) (auto simp: visited_def waiters_on_def intro!: drop_slot_id [symmetric])
qed

lemma remove_trans_loop_visited:
  assumes wf: "graph_wf trs" and y: "y \<in> tr_xid ` set trs"
    and "set xs \<subseteq> tr_xid ` set trs" "distinct xs" "P \<inter> set xs = {}" "P \<union> set xs = tr_xid ` set trs"
  shows "remove_trans_loop (map (visited y P trs) trs) y xs = map (visited y (tr_xid ` set trs) trs) trs"
  using assms(3-6)
proof (induction xs arbitrary: P)
  case (Cons x xs)
  have dist: "distinct (map tr_xid trs)" using wf by (simp add: graph_wf_def)
  obtain t where t: "t \<in> set trs" "tr_xid t = y" using y by blast
  have g: "get_tr (map (visited y P trs) trs) y = Some (visited y P trs t)"
    using get_tr_mem [OF dist t(1)] t(2) by (simp add: get_tr_map)
  have "tr_xid u \<noteq> y" if "u \<in> set (waiters_on trs y)" for u
    using that wf by (auto simp: graph_wf_def trans_wf_def waiters_on_def)
  then have "filter (\<lambda>u. tr_xid u \<in> insert y P) (waiters_on trs y) = filter (\<lambda>u. tr_xid u \<in> P) (waiters_on trs y)"
    by (intro filter_cong) auto
  then have same: "map (visited y (insert y P) trs) trs = map (visited y P trs) trs"
    by (intro map_cong) (simp_all add: visited_def)
  show ?case
  proof (cases "x = y")
    case True
    have "remove_trans_loop (map (visited y (insert y P) trs) trs) y xs = map (visited y (tr_xid ` set trs) trs) trs"
      by (rule Cons.IH) (use Cons.prems True in auto)
    then show ?thesis using True same by simp
  next
    case False
    obtain u where u: "u \<in> set trs" "tr_xid u = x" using Cons.prems(1) by auto
    show ?thesis
    proof (cases "tr_others_waiting_on_us (visited y P trs t) = 0")
      case True
      then have "remove_trans_loop (map (visited y P trs) trs) y (x # xs) = map (visited y P trs) trs"
        using False g by simp
      also note others_zero_visited [OF wf t True]
      finally show ?thesis .
    next
      case others: False
      have "remove_waitfor (map (visited y P trs) trs) x y = map (visited y (insert x P) trs) trs"
        using remove_waitfor_visited [OF wf u _ False] Cons.prems(3) by auto
      moreover have "remove_trans_loop (map (visited y (insert x P) trs) trs) y xs = map (visited y (tr_xid ` set trs) trs) trs"
        by (rule Cons.IH) (use Cons.prems in auto)
      ultimately show ?thesis using False g others by simp
    qed
  qed
qed simp

lemma remove_del_tr:
  assumes wf: "graph_wf trs" and y: "y \<in> tr_xid ` set trs"
  shows "del_tr y (remove_trans trs y) = map (drop_slot y) (del_tr y trs)"
proof -
  have "map (visited y {} trs) trs = trs"
    by (intro map_idI) (simp add: visited_def)
  then have "remove_trans trs y = map (visited y (tr_xid ` set trs) trs) trs"
    using remove_trans_loop_visited [OF wf y, of "map tr_xid trs" "{}"] wf
    by (simp add: remove_trans_def graph_wf_def)
  then show ?thesis
    by (auto simp: del_tr_def filter_map o_def visited_def intro!: map_cong)
qed

lemma drop_slot_slots: "Some z \<in> set (tr_waitfor (drop_slot y t)) \<longleftrightarrow> Some z \<in> set (tr_waitfor t) \<and> z \<noteq> y"
  by (auto simp: drop_slot_def image_iff split: if_splits)

lemma used_slots_drop:
  "used_slots (map (\<lambda>s. if s = Some y then None else s) ss) = used_slots ss - count_list ss (Some y) \<and>
   count_list ss (Some y) \<le> used_slots ss"
  by (induction ss) auto

lemma count_list_drop: "count_list (map (\<lambda>s. if s = Some y then None else s) ss) (Some z) \<le> count_list ss (Some z)"
  by (induction ss) auto

lemma waiters_on_drop:
  assumes "\<forall>t\<in>set trs. tr_xid t = y \<longrightarrow> (\<forall>z. Some z \<notin> set (tr_waitfor t))" "z \<noteq> y"
  shows "length (waiters_on (map (drop_slot y) (del_tr y trs)) z) = length (waiters_on trs z)"
  using assms by (induction trs) (auto simp: waiters_on_def del_tr_def drop_slot_slots)

lemma graph_wf_del:
  assumes wf: "graph_wf trs" and t: "t \<in> set trs" "tr_waitfor_count t = 0" and y: "y = tr_xid t"
  shows "graph_wf (map (drop_slot y) (del_tr y trs))"
proof -
  have dist: "distinct (map tr_xid trs)" using wf by (simp add: graph_wf_def)
  have sink: "\<forall>u\<in>set trs. tr_xid u = y \<longrightarrow> (\<forall>z. Some z \<notin> set (tr_waitfor u))"
  proof (intro ballI impI)
    fix u assume "u \<in> set trs" "tr_xid u = y"
    then have "u = t" using get_tr_mem [OF dist] t(1) y by (metis option.inject)
    then show "\<forall>z. Some z \<notin> set (tr_waitfor u)" using wf t by (auto simp: graph_wf_def trans_wf_def used_slots_0)
  qed
  have "trans_wf (map (drop_slot y) (del_tr y trs)) (drop_slot y u)" if u: "u \<in> set trs" "tr_xid u \<noteq> y" for u
  proof -
    have w: "trans_wf trs u" using wf u(1) by (simp add: graph_wf_def)
    have "tr_waitfor_count (drop_slot y u) = used_slots (tr_waitfor (drop_slot y u))"
      using w used_slots_drop [of y "tr_waitfor u"] by (simp add: drop_slot_def trans_wf_def)
    moreover have "count_list (tr_waitfor (drop_slot y u)) (Some z) \<le> 1" for z
      using w count_list_drop [of y "tr_waitfor u" z] by (fastforce simp: drop_slot_def trans_wf_def intro: order_trans)
    moreover have "z \<in> tr_xid ` set (map (drop_slot y) (del_tr y trs)) \<and> z \<noteq> tr_xid u"
      if "Some z \<in> set (tr_waitfor (drop_slot y u))" for z
      using that w by (auto simp: drop_slot_slots trans_wf_def del_tr_def image_iff)
    moreover have "tr_others_waiting_on_us (drop_slot y u) = int (length (waiters_on (map (drop_slot y) (del_tr y trs)) (tr_xid u)))"
      using w waiters_on_drop [OF sink u(2)] by (simp add: trans_wf_def drop_slot_def)
    ultimately show ?thesis by (simp add: trans_wf_def)
  qed
  moreover have "distinct (map tr_xid (map (drop_slot y) (del_tr y trs)))"
    using dist by (simp add: del_tr_def o_def distinct_map_filter)
  ultimately show ?thesis by (auto simp: graph_wf_def del_tr_def)
qed

subsection \<open>Deadlocked sets\<close>

definition waits :: "trans list \<Rightarrow> (u64 \<times> u64) set" where
  "waits trs = {(x, z). \<exists>t\<in>set trs. tr_xid t = x \<and> Some z \<in> set (tr_waitfor t)}"

text \<open>\<open>deadlocked trs S\<close>: everybody in \<open>S\<close> waits for somebody in \<open>S\<close>.\<close>

definition deadlocked :: "trans list \<Rightarrow> u64 set \<Rightarrow> bool" where
  "deadlocked trs S = (S \<subseteq> tr_xid ` set trs \<and> (\<forall>x\<in>S. \<exists>z\<in>S. (x, z) \<in> waits trs))"

lemma waits_del: "waits (map (drop_slot y) (del_tr y trs)) = {(x, z) \<in> waits trs. x \<noteq> y \<and> z \<noteq> y}"
  by (auto simp: waits_def del_tr_def drop_slot_slots)

lemma xids_del: "tr_xid ` drop_slot y ` set (del_tr y trs) = tr_xid ` set trs - {y}"
  by (auto simp: del_tr_def image_iff)

lemma deadlocked_del:
  assumes wf: "graph_wf trs" and t: "t \<in> set trs" "tr_waitfor_count t = 0" and y: "y = tr_xid t"
  shows "deadlocked (map (drop_slot y) (del_tr y trs)) S \<longleftrightarrow> deadlocked trs S"
proof
  assume d: "deadlocked trs S"
  have "y \<notin> S"
  proof
    assume "y \<in> S"
    then obtain z u where "u \<in> set trs" "tr_xid u = y" "Some z \<in> set (tr_waitfor u)"
      using d by (auto simp: deadlocked_def waits_def)
    moreover have "u = t" using calculation get_tr_mem t(1) y wf by (metis graph_wf_def option.inject)
    ultimately show False using wf t by (auto simp: graph_wf_def trans_wf_def used_slots_0)
  qed
  with d have "\<forall>x\<in>S. \<exists>z\<in>S. (x, z) \<in> waits trs \<and> x \<noteq> y \<and> z \<noteq> y" unfolding deadlocked_def by metis
  then show "deadlocked (map (drop_slot y) (del_tr y trs)) S"
    using d \<open>y \<notin> S\<close> by (auto simp: deadlocked_def waits_del xids_del)
next
  assume "deadlocked (map (drop_slot y) (del_tr y trs)) S"
  then show "deadlocked trs S" by (fastforce simp: deadlocked_def waits_del xids_del)
qed

lemma reduce_loop_exact:
  assumes "reduce_loop trs xs = (trs', n)" "graph_wf trs"
  shows "graph_wf trs' \<and> (\<forall>S. deadlocked trs' S \<longleftrightarrow> deadlocked trs S) \<and>
    (n = 0 \<longrightarrow> trs' = trs \<and> (\<forall>t\<in>set trs. tr_xid t \<in> set xs \<longrightarrow> tr_waitfor_count t \<noteq> 0))"
  using assms
proof (induction trs xs arbitrary: trs' n rule: reduce_loop.induct)
  case (2 trs x xs)
  have dist: "distinct (map tr_xid trs)" using "2.prems"(2) by (simp add: graph_wf_def)
  show ?case
  proof (cases "get_tr trs x")
    case None
    then have "\<forall>t\<in>set trs. tr_xid t \<noteq> x" by (auto simp: get_tr_None)
    then show ?thesis using "2.IH"(1) [OF None] "2.prems" None by auto
  next
    case (Some t)
    have t: "t \<in> set trs" "tr_xid t = x" using get_tr_Some [OF Some] by auto
    show ?thesis
    proof (cases "tr_waitfor_count t = 0")
      case True
      have "x \<in> tr_xid ` set trs" using t by blast
      then have e: "del_tr x (remove_trans trs x) = map (drop_slot x) (del_tr x trs)"
        by (rule remove_del_tr [OF "2.prems"(2)])
      have wf: "graph_wf (del_tr x (remove_trans trs x))"
        unfolding e using graph_wf_del [OF "2.prems"(2) t(1) True] t(2) by simp
      obtain m where m: "reduce_loop (del_tr x (remove_trans trs x)) xs = (trs', m)" "n = m + 1"
        using "2.prems"(1) Some True by (auto split: prod.splits)
      have "deadlocked (del_tr x (remove_trans trs x)) S \<longleftrightarrow> deadlocked trs S" for S
        unfolding e using deadlocked_del [OF "2.prems"(2) t(1) True] t(2) by simp
      then show ?thesis using "2.IH"(3) [OF Some _ m(1) wf] True m(2) by simp
    next
      case False
      have "u = t" if "u \<in> set trs" "tr_xid u = x" for u
        using that get_tr_mem [OF dist] t by (metis option.inject)
      then show ?thesis using "2.IH"(2) [OF Some False] "2.prems" Some False by auto
    qed
  qed
qed simp

lemma reduce_graph_exact:
  assumes "reduce_waitfor_graph trs = (trs', n)" "graph_wf trs"
  shows "graph_wf trs' \<and> (\<forall>S. deadlocked trs' S \<longleftrightarrow> deadlocked trs S) \<and>
    (n = 0 \<longrightarrow> trs' = trs \<and> (\<forall>t\<in>set trs. tr_waitfor_count t \<noteq> 0))"
  using reduce_loop_exact [of trs "map tr_xid trs"] assms by (auto simp: reduce_waitfor_graph_def)

lemma all_waiting_deadlocked:
  assumes "graph_wf trs" "\<forall>t\<in>set trs. tr_waitfor_count t \<noteq> 0"
  shows "deadlocked trs (tr_xid ` set trs)"
  unfolding deadlocked_def
proof (intro conjI ballI subset_refl)
  fix x assume "x \<in> tr_xid ` set trs"
  then obtain t where t: "t \<in> set trs" "x = tr_xid t" by blast
  have w: "trans_wf trs t" using assms(1) t(1) by (simp add: graph_wf_def)
  then obtain z where z: "Some z \<in> set (tr_waitfor t)" using assms(2) t(1) used_slots_0 by (metis trans_wf_def)
  then have "z \<in> tr_xid ` set trs" "(x, z) \<in> waits trs" using w t by (auto simp: trans_wf_def waits_def)
  then show "\<exists>z\<in>tr_xid ` set trs. (x, z) \<in> waits trs" by blast
qed

lemma reduce_graph_loop_exact:
  "graph_wf trs \<Longrightarrow> graph_wf (reduce_waitfor_graph_loop trs) \<and>
     (\<forall>S. deadlocked (reduce_waitfor_graph_loop trs) S \<longleftrightarrow> deadlocked trs S) \<and>
     deadlocked trs (tr_xid ` set (reduce_waitfor_graph_loop trs))"
proof (induction trs rule: reduce_waitfor_graph_loop.induct)
  case (1 trs)
  obtain trs' n where r: "reduce_waitfor_graph trs = (trs', n)" by force
  note e = reduce_graph_exact [OF r "1.prems"]
  show ?case
  proof (cases "n = 0")
    case True
    then have "reduce_waitfor_graph_loop trs = trs" using r e by (subst reduce_waitfor_graph_loop.simps) simp
    then show ?thesis using e True all_waiting_deadlocked [OF "1.prems"] "1.prems" by auto
  next
    case False
    have l: "reduce_waitfor_graph_loop trs = reduce_waitfor_graph_loop trs'"
      using r False by (subst reduce_waitfor_graph_loop.simps) simp
    show ?thesis using "1.IH" [OF r [symmetric] False] e unfolding l by simp
  qed
qed

lemma deadlocked_cycle:
  assumes "deadlocked trs S" "S \<noteq> {}"
  shows "\<not> acyclic (waits trs)"
proof
  assume a: "acyclic (waits trs)"
  have "waits trs = (\<Union>t\<in>set trs. (\<lambda>z. (tr_xid t, z)) ` {z. Some z \<in> set (tr_waitfor t)})"
    by (auto simp: waits_def)
  moreover have "finite {z. Some z \<in> set (tr_waitfor t)}" for t
    by (rule finite_surj [of "set (tr_waitfor t)" _ the]) force+
  ultimately have "finite (waits trs)" by simp
  with a have "wf ((waits trs)\<inverse>)" by (simp add: finite_acyclic_wf_converse)
  then obtain x where "x \<in> S" "\<forall>z. (z, x) \<in> (waits trs)\<inverse> \<longrightarrow> z \<notin> S"
    using assms(2) unfolding wf_eq_minimal by (metis ex_in_conv)
  then show False using assms(1) by (auto simp: deadlocked_def)
qed

lemma cycle_deadlocked:
  assumes wf: "graph_wf trs" and c: "(x, x) \<in> (waits trs)\<^sup>+"
  shows "deadlocked trs {z. (x, z) \<in> (waits trs)\<^sup>+ \<and> (z, x) \<in> (waits trs)\<^sup>+}"
  unfolding deadlocked_def
proof (intro conjI subsetI ballI)
  fix z assume z: "z \<in> {z. (x, z) \<in> (waits trs)\<^sup>+ \<and> (z, x) \<in> (waits trs)\<^sup>+}"
  then obtain u where u: "(z, u) \<in> waits trs" "(u, x) \<in> (waits trs)\<^sup>*" by (auto dest: tranclD)
  then show "z \<in> tr_xid ` set trs" by (auto simp: waits_def)
  have "(x, u) \<in> (waits trs)\<^sup>+" using z u(1) by auto
  moreover have "(u, x) \<in> (waits trs)\<^sup>+" using u(2) c by (meson rtrancl_trancl_trancl)
  ultimately show "\<exists>u\<in>{z. (x, z) \<in> (waits trs)\<^sup>+ \<and> (z, x) \<in> (waits trs)\<^sup>+}. (z, u) \<in> waits trs" using u(1) by auto
qed

lemma reduced_empty_iff:
  assumes "graph_wf trs"
  shows "reduce_waitfor_graph_loop trs = [] \<longleftrightarrow> acyclic (waits trs)"
proof
  assume e: "reduce_waitfor_graph_loop trs = []"
  show "acyclic (waits trs)"
  proof (rule acyclicI, rule allI, rule notI)
    fix x assume c: "(x, x) \<in> (waits trs)\<^sup>+"
    let ?S = "{z. (x, z) \<in> (waits trs)\<^sup>+ \<and> (z, x) \<in> (waits trs)\<^sup>+}"
    have "deadlocked [] ?S" using cycle_deadlocked [OF assms c] reduce_graph_loop_exact [OF assms] e by auto
    then have "?S = {}" by (auto simp: deadlocked_def)
    then show False using c by auto
  qed
next
  assume "acyclic (waits trs)"
  then show "reduce_waitfor_graph_loop trs = []"
    using deadlocked_cycle reduce_graph_loop_exact [OF assms] by fastforce
qed

end
