(* ===== verification/Deadlock_Build.thy ===== *)
theory Deadlock_Build
  imports Deadlock_Cycle Deadlock_Reduce
begin

text \<open>
  Building the waits-for graph from the locks: \<^verbatim>\<open>create_trans_list\<close> gives every lock its transaction, and
  \<^verbatim>\<open>create_waitfor_graph\<close> makes a well-formed graph whose edges are exactly the pairs of transactions such that
  a lock of the first waits for a mode that conflicts with the granted mode of a lock of the second.
\<close>

definition all_locks :: "deadlk \<Rightarrow> nat list" where
  "all_locks dk = concat (map rsb_locks (dk_resources dk))"

definition lk_xid :: "deadlk \<Rightarrow> nat \<Rightarrow> u64" where
  "lk_xid dk i = pl_xid (lkb_lock (lkb_at dk i))"

text \<open>Every lock is on the list of one resource, the one it points to; resources have different names.\<close>

definition lkbs_wf :: "deadlk \<Rightarrow> bool" where
  "lkbs_wf dk = (distinct (all_locks dk) \<and> (\<forall>i\<in>set (all_locks dk). i < length (dk_lkbs dk)) \<and>
     sorted_wrt (\<lambda>s t. \<not> same_name s t) (map rsb_name (dk_resources dk)) \<and>
     (\<forall>r\<in>set (dk_resources dk). \<forall>i\<in>set (rsb_locks r). lkb_rsb (lkb_at dk i) = Some (rsb_name r)))"

lemma same_name_refl [simp]: "same_name s s"
  by (simp add: same_name_def)

lemma find_by_name:
  "sorted_wrt (\<lambda>s t. \<not> same_name s t) (map rsb_name rs) \<Longrightarrow> r \<in> set rs \<Longrightarrow>
   find (\<lambda>q. same_name (rsb_name q) (rsb_name r)) rs = Some r"
  by (induction rs) auto

lemma get_rsb_mem: "lkbs_wf dk \<Longrightarrow> r \<in> set (dk_resources dk) \<Longrightarrow> get_rsb dk (rsb_name r) = Some r"
  by (simp add: lkbs_wf_def get_rsb_def find_by_name)

definition modes_ok :: "deadlk \<Rightarrow> bool" where
  "modes_ok dk = (\<forall>i\<in>set (all_locks dk). mode_index (pl_grmode (lkb_lock (lkb_at dk i))) \<noteq> None \<and>
     mode_index (pl_rqmode (lkb_lock (lkb_at dk i))) \<noteq> None)"

text \<open>Lock \<open>w\<close> waits for lock \<open>g\<close>, as the locks themselves tell.\<close>

definition blocks :: "deadlk \<Rightarrow> nat \<Rightarrow> nat \<Rightarrow> bool" where
  "blocks dk w g = (lk_xid dk w \<noteq> lk_xid dk g \<and>
     dlm_modes_compat (pl_grmode (lkb_lock (lkb_at dk g))) (pl_rqmode (lkb_lock (lkb_at dk w))) = Some False)"

definition waits_edges :: "deadlk \<Rightarrow> nat list \<Rightarrow> nat list \<Rightarrow> (u64 \<times> u64) set" where
  "waits_edges dk ws gs = {(lk_xid dk w, lk_xid dk g) |w g. w \<in> set ws \<and> g \<in> set gs \<and>
     pl_status (lkb_lock (lkb_at dk w)) \<noteq> DLM_LKSTS_GRANTED \<and>
     pl_status (lkb_lock (lkb_at dk g)) \<noteq> DLM_LKSTS_WAITING \<and> blocks dk w g}"

definition lock_waits :: "deadlk \<Rightarrow> (u64 \<times> u64) set" where
  "lock_waits dk = (\<Union>r\<in>set (dk_resources dk). waits_edges dk (rsb_locks r) (rsb_locks r))"

text \<open>Two daemon states that differ at most in the memory left.\<close>

definition only_mem :: "daemon \<Rightarrow> daemon \<Rightarrow> bool" where
  "only_mem d d' = (d' = d\<lparr>dmem := dmem d'\<rparr>)"

lemma only_mem_refl [simp]: "only_mem d d"
  by (simp add: only_mem_def)

lemma only_mem_upd [simp]: "only_mem d (d\<lparr>dmem := m\<rparr>)"
  by (simp add: only_mem_def)

lemma only_mem_trans: "only_mem a b \<Longrightarrow> only_mem b c \<Longrightarrow> only_mem a c"
  unfolding only_mem_def by (metis daemon.surjective daemon.update_convs(4))

text \<open>What the two passes keep of the locks.\<close>

definition lkb_core :: "dlm_lkb \<Rightarrow> pack_lock \<times> nodeid \<times> string option" where
  "lkb_core l = (lkb_lock l, lkb_home l, lkb_rsb l)"

definition same_locks :: "deadlk \<Rightarrow> deadlk \<Rightarrow> bool" where
  "same_locks dk dk' = (dk_resources dk' = dk_resources dk \<and> map lkb_core (dk_lkbs dk') = map lkb_core (dk_lkbs dk))"

lemma same_locks_refl [simp]: "same_locks dk dk"
  by (simp add: same_locks_def)

lemma same_locks_trans: "same_locks a b \<Longrightarrow> same_locks b c \<Longrightarrow> same_locks a c"
  by (simp add: same_locks_def)

lemma same_locks_core:
  assumes "same_locks dk dk'" "i < length (dk_lkbs dk)"
  shows "lkb_lock (lkb_at dk' i) = lkb_lock (lkb_at dk i)" "lkb_rsb (lkb_at dk' i) = lkb_rsb (lkb_at dk i)"
    "lkb_home (lkb_at dk' i) = lkb_home (lkb_at dk i)" "length (dk_lkbs dk') = length (dk_lkbs dk)"
proof -
  have l: "length (dk_lkbs dk') = length (dk_lkbs dk)" using assms(1) unfolding same_locks_def by (metis length_map)
  have "map lkb_core (dk_lkbs dk') ! i = map lkb_core (dk_lkbs dk) ! i" using assms(1) by (simp add: same_locks_def)
  then have "lkb_core (lkb_at dk' i) = lkb_core (lkb_at dk i)" using assms(2) l by (simp add: lkb_at_def)
  then show "lkb_lock (lkb_at dk' i) = lkb_lock (lkb_at dk i)" "lkb_rsb (lkb_at dk' i) = lkb_rsb (lkb_at dk i)"
    "lkb_home (lkb_at dk' i) = lkb_home (lkb_at dk i)" "length (dk_lkbs dk') = length (dk_lkbs dk)"
    using l by (auto simp: lkb_core_def)
qed

lemma same_locks_upd_lkb:
  assumes "\<And>l. lkb_core (f l) = lkb_core l"
  shows "same_locks dk (upd_lkb f i dk)"
proof -
  have "map lkb_core ((dk_lkbs dk)[i := f (dk_lkbs dk ! i)]) = map lkb_core (dk_lkbs dk)"
  proof (cases "i < length (dk_lkbs dk)")
    case True
    then have "map lkb_core ((dk_lkbs dk)[i := f (dk_lkbs dk ! i)]) = (map lkb_core (dk_lkbs dk))[i := lkb_core (dk_lkbs dk ! i)]"
      using assms by (simp add: map_update)
    then show ?thesis using True by (metis list_update_id nth_map)
  qed (simp add: list_update_beyond)
  then show ?thesis by (simp add: same_locks_def upd_lkb_def lkb_at_def)
qed

lemma same_locks_trs [simp]:
  "same_locks a (b\<lparr>dk_transactions := trs\<rparr>) = same_locks a b"
  "same_locks (b\<lparr>dk_transactions := trs\<rparr>) a = same_locks b a"
  by (simp_all add: same_locks_def)

lemma same_locks_all [simp]: "same_locks dk dk' \<Longrightarrow> all_locks dk' = all_locks dk"
  by (simp add: same_locks_def all_locks_def)

lemma lkb_at_trs [simp]: "lkb_at (dk\<lparr>dk_transactions := trs\<rparr>) i = lkb_at dk i"
  by (simp add: lkb_at_def)

lemma lkb_at_upd: "i < length (dk_lkbs dk) \<Longrightarrow> lkb_at (upd_lkb f i dk) j = (if j = i then f (lkb_at dk i) else lkb_at dk j)"
  by (simp add: lkb_at_def upd_lkb_def nth_list_update)

lemma upd_lkb_fields [simp]:
  "dk_transactions (upd_lkb f i dk) = dk_transactions dk" "dk_resources (upd_lkb f i dk) = dk_resources dk"
  "length (dk_lkbs (upd_lkb f i dk)) = length (dk_lkbs dk)"
  by (simp_all add: upd_lkb_def)

subsection \<open>Transactions of the locks\<close>

definition blank :: "trans \<Rightarrow> bool" where
  "blank t = (tr_waitfor t = [] \<and> tr_waitfor_count t = 0 \<and> tr_waitfor_alloc t = 0 \<and> tr_others_waiting_on_us t = 0)"

definition locks_of :: "trans list \<Rightarrow> (u64 \<times> nat) set" where
  "locks_of trs = {(x, i). \<exists>t\<in>set trs. tr_xid t = x \<and> i \<in> set (tr_locks t)}"

text \<open>The state when the locks in \<open>P\<close> have been given to their transactions.\<close>

definition given :: "deadlk \<Rightarrow> nat set \<Rightarrow> deadlk \<Rightarrow> bool" where
  "given dk P dk' = (same_locks dk dk' \<and> distinct (map tr_xid (dk_transactions dk')) \<and>
     (\<forall>t\<in>set (dk_transactions dk'). blank t) \<and> tr_xid ` set (dk_transactions dk') = lk_xid dk ` P \<and>
     locks_of (dk_transactions dk') = {(lk_xid dk i, i) |i. i \<in> P} \<and>
     (\<forall>i\<in>P. lkb_trans (lkb_at dk' i) = Some (lk_xid dk i)))"

lemma locks_of_Cons: "locks_of (t # trs) = Pair (tr_xid t) ` set (tr_locks t) \<union> locks_of trs"
  by (auto simp: locks_of_def)

lemma locks_of_upd:
  assumes "distinct (map tr_xid trs)" "x \<in> tr_xid ` set trs"
  shows "locks_of (upd_tr (\<lambda>t. t\<lparr>tr_locks := i # tr_locks t\<rparr>) x trs) = insert (x, i) (locks_of trs)"
proof -
  have l: "set (tr_locks (if tr_xid t = x then t\<lparr>tr_locks := i # tr_locks t\<rparr> else t)) =
      {j. tr_xid t = x \<and> j = i} \<union> set (tr_locks t)" for t by auto
  have e: "tr_xid (if tr_xid t = x then t\<lparr>tr_locks := i # tr_locks t\<rparr> else t) = tr_xid t" for t by simp
  have "locks_of (upd_tr (\<lambda>t. t\<lparr>tr_locks := i # tr_locks t\<rparr>) x trs) =
      {(y, j). \<exists>t\<in>set trs. tr_xid t = y \<and> (tr_xid t = x \<and> j = i \<or> j \<in> set (tr_locks t))}"
    unfolding upd_tr_map [OF assms(1)] locks_of_def by (simp only: set_map bex_simps l e Un_iff mem_Collect_eq)
  then show ?thesis using assms(2) by (auto simp: locks_of_def)
qed

lemma get_trans_given:
  assumes "given dk P dk'" "mem_ok (dmem d)"
  obtains d2 dk2 where "get_trans d dk' x = (d2, dk2, True)" "mem_ok (dmem d2)" "same_locks dk' dk2"
    "distinct (map tr_xid (dk_transactions dk2))" "\<forall>t\<in>set (dk_transactions dk2). blank t"
    "tr_xid ` set (dk_transactions dk2) = insert x (tr_xid ` set (dk_transactions dk'))"
    "locks_of (dk_transactions dk2) = locks_of (dk_transactions dk')" "dk_lkbs dk2 = dk_lkbs dk'"
    "only_mem d d2" "mcast d2 = mcast d"
proof (cases "get_tr (dk_transactions dk') x")
  case None
  obtain g m where m: "malloc (dmem d) = (Some g, m)" "mem_ok m" using malloc_mem_ok [OF assms(2)] by blast
  have "locks_of (new_trans x # dk_transactions dk') = locks_of (dk_transactions dk')"
    by (simp add: locks_of_Cons new_trans_def)
  moreover have "blank (new_trans x)" by (simp add: blank_def new_trans_def)
  moreover have "x \<notin> tr_xid ` set (dk_transactions dk')" using None by (simp add: get_tr_None)
  ultimately show thesis
    using that [of "d\<lparr>dmem := m\<rparr>" "dk'\<lparr>dk_transactions := new_trans x # dk_transactions dk'\<rparr>"] None m assms(1)
    by (simp add: get_trans_def given_def new_trans_def)
next
  case (Some t)
  then have "x \<in> tr_xid ` set (dk_transactions dk')" using get_tr_Some by blast
  then show thesis using that [of d dk'] Some assms by (simp add: get_trans_def given_def insert_absorb)
qed

lemma given_add:
  assumes g: "given dk P dk'" "mem_ok (dmem d)" and i: "i < length (dk_lkbs dk)"
  obtains d2 dk2 where "get_trans d dk' (lk_xid dk i) = (d2, dk2, True)" "mem_ok (dmem d2)"
    "only_mem d d2" "mcast d2 = mcast d" "given dk (insert i P) (add_lkb_trans (lk_xid dk i) i dk2)"
    "lk_xid dk2 i = lk_xid dk i"
proof -
  let ?x = "lk_xid dk i"
  obtain d2 dk2 where t: "get_trans d dk' ?x = (d2, dk2, True)" "mem_ok (dmem d2)" "same_locks dk' dk2"
    "distinct (map tr_xid (dk_transactions dk2))" "\<forall>t\<in>set (dk_transactions dk2). blank t"
    "tr_xid ` set (dk_transactions dk2) = insert ?x (tr_xid ` set (dk_transactions dk'))"
    "locks_of (dk_transactions dk2) = locks_of (dk_transactions dk')" "dk_lkbs dk2 = dk_lkbs dk'"
    "only_mem d d2" "mcast d2 = mcast d" by (rule get_trans_given [OF g])
  let ?trs = "upd_tr (\<lambda>t. t\<lparr>tr_locks := i # tr_locks t\<rparr>) ?x (dk_transactions dk2)"
  have sl: "same_locks dk dk2" using g(1) same_locks_trans [OF _ t(3)] by (simp add: given_def)
  then have i2: "i < length (dk_lkbs dk2)" using same_locks_core(4) i by metis
  have a: "add_lkb_trans ?x i dk2 = upd_lkb (\<lambda>lkb. lkb\<lparr>lkb_trans := Some ?x\<rparr>) i (dk2\<lparr>dk_transactions := ?trs\<rparr>)"
    by (simp add: add_lkb_trans_def)
  have "same_locks (dk2\<lparr>dk_transactions := ?trs\<rparr>) (add_lkb_trans ?x i dk2)"
    unfolding a by (rule same_locks_upd_lkb) (simp add: lkb_core_def)
  then have s: "same_locks dk (add_lkb_trans ?x i dk2)" using same_locks_trans [OF sl] by simp
  have xids: "map tr_xid ?trs = map tr_xid (dk_transactions dk2)" by (rule upd_tr_xids) simp
  have lo: "locks_of ?trs = insert (?x, i) (locks_of (dk_transactions dk2))"
    by (rule locks_of_upd) (use t in auto)
  have bl: "\<forall>t\<in>set ?trs. blank t" unfolding upd_tr_map [OF t(4)] using t(5) by (auto simp: blank_def)
  have "given dk (insert i P) (add_lkb_trans ?x i dk2)"
    unfolding given_def
  proof (intro conjI)
    show "same_locks dk (add_lkb_trans ?x i dk2)" by (rule s)
    show "distinct (map tr_xid (dk_transactions (add_lkb_trans ?x i dk2)))" using t(4) xids by (simp add: a)
    show "\<forall>t\<in>set (dk_transactions (add_lkb_trans ?x i dk2)). blank t" using bl by (simp add: a)
    have "tr_xid ` set ?trs = tr_xid ` set (dk_transactions dk2)" by (simp only: set_map [symmetric] xids)
    then show "tr_xid ` set (dk_transactions (add_lkb_trans ?x i dk2)) = lk_xid dk ` insert i P"
      using t(6) g(1) by (simp add: a given_def)
    show "locks_of (dk_transactions (add_lkb_trans ?x i dk2)) = {(lk_xid dk j, j) |j. j \<in> insert i P}"
      using lo t(7) g(1) by (auto simp: a given_def)
    show "\<forall>j\<in>insert i P. lkb_trans (lkb_at (add_lkb_trans ?x i dk2) j) = Some (lk_xid dk j)"
    proof
      fix j assume "j \<in> insert i P"
      moreover have "lkb_at dk2 j = lkb_at dk' j" using t(8) by (simp add: lkb_at_def)
      ultimately show "lkb_trans (lkb_at (add_lkb_trans ?x i dk2) j) = Some (lk_xid dk j)"
        using g(1) i2 by (auto simp: a lkb_at_upd given_def)
    qed
  qed
  moreover have "lk_xid dk2 i = ?x" using same_locks_core(1) [OF sl i] by (simp add: lk_xid_def)
  ultimately show thesis using that t(1,2,9,10) by blast
qed

lemma trans_locks_given:
  assumes "given dk P dk'" "mem_ok (dmem d)" "\<forall>i\<in>set is. i < length (dk_lkbs dk)"
  shows "\<exists>d2 dk2. trans_locks d dk' is = (d2, dk2) \<and> mem_ok (dmem d2) \<and> only_mem d d2 \<and> mcast d2 = mcast d \<and>
    given dk (P \<union> set is) dk2"
  using assms
proof (induction "is" arbitrary: P d dk')
  case (Cons i "is")
  have i: "i < length (dk_lkbs dk)" using Cons.prems(3) by simp
  obtain d2 dk2 where a: "get_trans d dk' (lk_xid dk i) = (d2, dk2, True)" "mem_ok (dmem d2)"
    "only_mem d d2" "mcast d2 = mcast d" "given dk (insert i P) (add_lkb_trans (lk_xid dk i) i dk2)"
    "lk_xid dk2 i = lk_xid dk i" by (rule given_add [OF Cons.prems(1,2) i])
  have "lk_xid dk' i = lk_xid dk i" using same_locks_core(1) [of dk dk' i] Cons.prems(1) i
    by (auto simp: given_def lk_xid_def)
  then have e: "trans_locks d dk' (i # is) = trans_locks d2 (add_lkb_trans (lk_xid dk i) i dk2) is"
    using a(1,6) by (simp add: lk_xid_def)
  have "insert i P \<union> set is = P \<union> set (i # is)" by auto
  then show ?case using Cons.IH [OF a(5,2)] Cons.prems(3) only_mem_trans [OF a(3)] a(4) unfolding e by auto
qed auto

lemma create_trans_list_given:
  assumes "lkbs_wf dk" "dk_transactions dk = []" "mem_ok (dmem d)"
  obtains d2 dk2 where "create_trans_list d dk = (d2, dk2)" "mem_ok (dmem d2)" "only_mem d d2" "mcast d2 = mcast d"
    "given dk (set (all_locks dk)) dk2"
proof -
  have "given dk {} dk" using assms(2) by (simp add: given_def locks_of_def)
  then show thesis using trans_locks_given [of dk "{}" dk d "all_locks dk"] assms that
    by (auto simp: create_trans_list_def lkbs_wf_def all_locks_def)
qed

subsection \<open>Adding an edge\<close>

text \<open>The used slots come first.\<close>

definition shaped :: "trans \<Rightarrow> u64 list \<Rightarrow> bool" where
  "shaped t ys = (tr_waitfor t = map Some ys @ replicate (tr_waitfor_alloc t - tr_waitfor_count t) None \<and>
     length ys = tr_waitfor_count t \<and> tr_waitfor_count t \<le> tr_waitfor_alloc t)"

lemma shaped_in: "shaped t ys \<Longrightarrow> Some y \<in> set (tr_waitfor t) \<longleftrightarrow> y \<in> set ys"
  by (auto simp: shaped_def)

lemma shaped_counts:
  assumes "shaped t ys"
  shows "used_slots (tr_waitfor t) = length ys" "count_list (tr_waitfor t) (Some y) = count_list ys y"
proof -
  have "used_slots (map Some ys @ replicate n None) = length ys" for n :: nat by (simp add: used_slots_def)
  then show "used_slots (tr_waitfor t) = length ys" using assms by (simp add: shaped_def)
  have "count_list (map Some ys) (Some y) = count_list ys y" by (induction ys) auto
  moreover have "count_list (replicate n None) (Some y) = 0" for n :: nat by (simp add: count_list_0_iff)
  ultimately show "count_list (tr_waitfor t) (Some y) = count_list ys y"
    using assms by (simp add: shaped_def count_list_append)
qed

text \<open>A transaction with one more entry in its waits-for list.\<close>

definition pushed :: "u64 \<Rightarrow> trans \<Rightarrow> trans \<Rightarrow> bool" where
  "pushed y t t' = (tr_xid t' = tr_xid t \<and> tr_locks t' = tr_locks t \<and>
     tr_others_waiting_on_us t' = tr_others_waiting_on_us t \<and>
     tr_waitfor_count t' = tr_waitfor_count t + 1 \<and> used_slots (tr_waitfor t') = used_slots (tr_waitfor t) + 1 \<and>
     (\<forall>z. count_list (tr_waitfor t') (Some z) = count_list (tr_waitfor t) (Some z) + (if z = y then 1 else 0)))"

lemma pushed_in: "pushed y t t' \<Longrightarrow> Some z \<in> set (tr_waitfor t') \<longleftrightarrow> z = y \<or> Some z \<in> set (tr_waitfor t)"
proof -
  assume p: "pushed y t t'"
  have "Some z \<in> set ss \<longleftrightarrow> count_list ss (Some z) \<noteq> 0" for ss :: "u64 option list"
    by (simp add: count_list_0_iff)
  then show ?thesis using p unfolding pushed_def by simp
qed

lemma grow_push:
  assumes "shaped t ys" "mem_ok (dmem d)"
  obtains d2 t2 where "grow_waitfor d t = Some (d2, t2, True)" "mem_ok (dmem d2)" "only_mem d d2" "mcast d2 = mcast d"
    "shaped (push_waitfor y t2) (ys @ [y])" "pushed y t (push_waitfor y t2)"
proof -
  have ys: "length ys = tr_waitfor_count t" using assms(1) by (simp add: shaped_def)
  obtain d2 t2 n where g: "grow_waitfor d t = Some (d2, t2, True)" "mem_ok (dmem d2)" "only_mem d d2" "mcast d2 = mcast d"
    "tr_waitfor t2 = map Some ys @ None # replicate n None" "tr_waitfor_alloc t2 = tr_waitfor_count t + n + 1"
    "tr_xid t2 = tr_xid t" "tr_locks t2 = tr_locks t" "tr_waitfor_count t2 = tr_waitfor_count t"
    "tr_others_waiting_on_us t2 = tr_others_waiting_on_us t"
  proof (cases "tr_waitfor_count t = tr_waitfor_alloc t")
    case True
    obtain g m where m: "malloc (dmem d) = (Some g, m)" "mem_ok m" using malloc_mem_ok [OF assms(2)] by blast
    have "replicate TR_NALLOC None = None # replicate 3 None" by (simp add: numeral_eq_Suc)
    then show thesis using that [of "d\<lparr>dmem := m\<rparr>" _ 3] m True assms(1) by (simp add: grow_waitfor_def shaped_def)
  next
    case False
    define n where "n = tr_waitfor_alloc t - tr_waitfor_count t - 1"
    have "tr_waitfor_alloc t - tr_waitfor_count t = Suc n" "tr_waitfor_alloc t = tr_waitfor_count t + n + 1"
      using False assms(1) unfolding n_def shaped_def by linarith+
    then show thesis using that [of d t n] False assms by (auto simp: grow_waitfor_def shaped_def)
  qed
  have w: "tr_waitfor (push_waitfor y t2) = map Some (ys @ [y]) @ replicate n None"
    using g(5,9) ys by (simp add: push_waitfor_def list_update_append)
  have sh: "shaped (push_waitfor y t2) (ys @ [y])"
    using w g(6,9) ys by (simp add: shaped_def push_waitfor_def)
  have "pushed y t (push_waitfor y t2)"
    unfolding pushed_def using shaped_counts [OF assms(1)] shaped_counts [OF sh] g(7-10)
    by (simp add: push_waitfor_def count_list_append)
  then show thesis using that g(1-4) sh by blast
qed

definition add_edge :: "u64 \<Rightarrow> trans \<Rightarrow> trans list \<Rightarrow> trans list" where
  "add_edge y t' trs = upd_tr (\<lambda>t. t\<lparr>tr_others_waiting_on_us := tr_others_waiting_on_us t + 1\<rparr>) y
     (upd_tr (\<lambda>_. t') (tr_xid t') trs)"

lemma add_edge_map:
  assumes "distinct (map tr_xid trs)" "tr_xid t' \<noteq> y"
  shows "add_edge y t' trs = map (\<lambda>u. if tr_xid u = tr_xid t' then t'
    else if tr_xid u = y then u\<lparr>tr_others_waiting_on_us := tr_others_waiting_on_us u + 1\<rparr> else u) trs"
proof -
  have "map tr_xid (upd_tr (\<lambda>_. t') (tr_xid t') trs) = map tr_xid trs"
    unfolding upd_tr_map [OF assms(1)] by simp
  then have "distinct (map tr_xid (upd_tr (\<lambda>_. t') (tr_xid t') trs))" using assms(1) by (simp only:)
  from upd_tr_map [OF this] show ?thesis unfolding add_edge_def using assms by (auto simp: upd_tr_map)
qed

lemma add_edge_waiters:
  assumes d: "distinct (map tr_xid trs)" and t: "t \<in> set trs" "pushed y t t'"
    and y: "y \<noteq> tr_xid t" "Some y \<notin> set (tr_waitfor t)"
  shows "length (waiters_on (add_edge y t' trs) z) = length (waiters_on trs z) + (if z = y then 1 else 0)"
proof -
  have x: "tr_xid t' = tr_xid t" using t(2) by (simp add: pushed_def)
  obtain as bs where s: "trs = as @ t # bs" using t(1) by (auto dest: split_list)
  let ?h = "\<lambda>u. if tr_xid u = tr_xid t' then t'
    else if tr_xid u = y then u\<lparr>tr_others_waiting_on_us := tr_others_waiting_on_us u + 1\<rparr> else u"
  have same: "length (waiters_on (map ?h us) z) = length (waiters_on us z)" if "\<forall>u\<in>set us. tr_xid u \<noteq> tr_xid t" for us
    using that by (induction us) (auto simp: waiters_on_def x)
  have ab: "\<forall>u\<in>set as. tr_xid u \<noteq> tr_xid t" "\<forall>u\<in>set bs. tr_xid u \<noteq> tr_xid t" using d unfolding s by (simp_all, (metis image_eqI)+)
  have "waiters_on (add_edge y t' trs) z = waiters_on (map ?h as) z @
      (if Some z \<in> set (tr_waitfor t') then [t'] else []) @ waiters_on (map ?h bs) z"
    using s y(1) x unfolding add_edge_map [OF d y(1) [symmetric, folded x]] by (simp add: waiters_on_def)
  then show ?thesis using same [OF ab(1)] same [OF ab(2)] s y(2) pushed_in [OF t(2)] by (auto simp: waiters_on_def)
qed

lemma add_edge_wf:
  assumes wf: "graph_wf trs" and t: "t \<in> set trs" "pushed y t t'"
    and y: "y \<noteq> tr_xid t" "Some y \<notin> set (tr_waitfor t)" "y \<in> tr_xid ` set trs"
  shows "graph_wf (add_edge y t' trs)" "waits (add_edge y t' trs) = insert (tr_xid t, y) (waits trs)"
proof -
  have d: "distinct (map tr_xid trs)" using wf by (simp add: graph_wf_def)
  have x: "tr_xid t' = tr_xid t" using t(2) by (simp add: pushed_def)
  define h where "h = (\<lambda>u. if tr_xid u = tr_xid t' then t'
    else if tr_xid u = y then u\<lparr>tr_others_waiting_on_us := tr_others_waiting_on_us u + 1\<rparr> else u)"
  have m: "add_edge y t' trs = map h trs"
    unfolding h_def by (rule add_edge_map [OF d y(1) [symmetric, folded x]])
  have hx: "tr_xid (h u) = tr_xid u" for u by (simp add: h_def)
  have ids: "map tr_xid (add_edge y t' trs) = map tr_xid trs" unfolding m by (simp only: map_map o_def hx)
  then have ids': "tr_xid ` set (add_edge y t' trs) = tr_xid ` set trs" by (simp only: set_map [symmetric])
  have ut: "u = t" if "u \<in> set trs" "tr_xid u = tr_xid t" for u
    using that get_tr_mem [OF d] t(1) by (metis option.inject)
  have tw: "trans_wf (add_edge y t' trs) (h u)" if u: "u \<in> set trs" for u
  proof (cases "u = t")
    case True
    have "trans_wf trs t" using wf t(1) by (simp add: graph_wf_def)
    then have "count_list (tr_waitfor t') (Some z) \<le> 1" for z
      using t(2) y(2) by (auto simp: trans_wf_def pushed_def count_list_0_iff)
    moreover have "h t = t'" by (simp add: h_def x)
    ultimately show ?thesis using True \<open>trans_wf trs t\<close> t y x pushed_in [OF t(2)] ids'
        add_edge_waiters [OF d t y(1,2), of "tr_xid t"] by (auto simp: trans_wf_def pushed_def)
  next
    case False
    then have "tr_xid u \<noteq> tr_xid t" using ut u by blast
    moreover have "trans_wf trs u" using wf u by (simp add: graph_wf_def)
    ultimately show ?thesis using x ids' add_edge_waiters [OF d t y(1,2), of "tr_xid u"]
      by (auto simp: trans_wf_def h_def)
  qed
  have sm: "set (add_edge y t' trs) = h ` set trs" by (simp only: m set_map)
  have "\<forall>v\<in>set (add_edge y t' trs). trans_wf (add_edge y t' trs) v" unfolding sm using tw by blast
  then show "graph_wf (add_edge y t' trs)" unfolding graph_wf_def ids using d by blast
  show "waits (add_edge y t' trs) = insert (tr_xid t, y) (waits trs)"
  proof -
    have e: "tr_xid (h u) = a \<and> Some b \<in> set (tr_waitfor (h u)) \<longleftrightarrow>
        tr_xid u = a \<and> (Some b \<in> set (tr_waitfor u) \<or> u = t \<and> b = y)" if "u \<in> set trs" for u a b
      using pushed_in [OF t(2), of b] ut [OF that] x by (auto simp: h_def)
    have "(\<exists>v\<in>set (add_edge y t' trs). tr_xid v = a \<and> Some b \<in> set (tr_waitfor v)) \<longleftrightarrow>
        (\<exists>u\<in>set trs. tr_xid u = a \<and> (Some b \<in> set (tr_waitfor u) \<or> u = t \<and> b = y))" for a b
      unfolding sm using e by blast
    then show ?thesis unfolding waits_def using t(1) by auto
  qed
qed

end
