(* ===== verification/Deadlock_Detect.thy ===== *)
theory Deadlock_Detect
  imports Deadlock_Build
begin

text \<open>
  Correctness of the detector: the graph \<^verbatim>\<open>create_waitfor_graph\<close> builds has exactly the edges the locks define,
  and \<^verbatim>\<open>find_deadlock\<close> cancels locks exactly when these edges have a cycle.
\<close>

subsection \<open>The edges of the graph\<close>

text \<open>The state after some edges \<open>E\<close> have been added; \<open>dk\<close> is the state \<^verbatim>\<open>create_trans_list\<close> left.\<close>

definition tr_core :: "trans \<Rightarrow> u64 \<times> nat list" where
  "tr_core t = (tr_xid t, tr_locks t)"

definition built :: "deadlk \<Rightarrow> (u64 \<times> u64) set \<Rightarrow> deadlk \<Rightarrow> bool" where
  "built dk E dk' = (same_locks dk dk' \<and> graph_wf (dk_transactions dk') \<and>
     (\<forall>t\<in>set (dk_transactions dk'). \<exists>ys. shaped t ys) \<and> waits (dk_transactions dk') = E \<and>
     map tr_core (dk_transactions dk') = map tr_core (dk_transactions dk) \<and>
     (\<forall>i. lkb_trans (lkb_at dk' i) = lkb_trans (lkb_at dk i)))"

definition has_trans :: "deadlk \<Rightarrow> nat \<Rightarrow> bool" where
  "has_trans dk i = (i < length (dk_lkbs dk) \<and> lkb_trans (lkb_at dk i) = Some (lk_xid dk i) \<and>
     lk_xid dk i \<in> tr_xid ` set (dk_transactions dk) \<and>
     mode_index (pl_grmode (lkb_lock (lkb_at dk i))) \<noteq> None \<and> mode_index (pl_rqmode (lkb_lock (lkb_at dk i))) \<noteq> None)"

lemma tr_core_xids: "map tr_core trs = map tr_core trs' \<Longrightarrow> map tr_xid trs = map tr_xid trs'"
proof -
  assume "map tr_core trs = map tr_core trs'"
  then have "map fst (map tr_core trs) = map fst (map tr_core trs')" by simp
  then show ?thesis by (simp add: tr_core_def o_def)
qed

lemma built_core:
  assumes "built dk E dk'" "has_trans dk i"
  shows "lkb_lock (lkb_at dk' i) = lkb_lock (lkb_at dk i)" "lkb_rsb (lkb_at dk' i) = lkb_rsb (lkb_at dk i)"
    "lk_xid dk' i = lk_xid dk i" "lkb_trans (lkb_at dk' i) = Some (lk_xid dk i)"
    "lk_xid dk i \<in> tr_xid ` set (dk_transactions dk')" "length (dk_lkbs dk') = length (dk_lkbs dk)"
proof -
  have s: "same_locks dk dk'" "i < length (dk_lkbs dk)" using assms by (auto simp: built_def has_trans_def)
  note c = same_locks_core [OF s]
  have "map tr_xid (dk_transactions dk') = map tr_xid (dk_transactions dk)"
    using assms(1) by (intro tr_core_xids) (simp add: built_def)
  then have "tr_xid ` set (dk_transactions dk') = tr_xid ` set (dk_transactions dk)" by (simp only: set_map [symmetric])
  then show "lkb_lock (lkb_at dk' i) = lkb_lock (lkb_at dk i)" "lkb_rsb (lkb_at dk' i) = lkb_rsb (lkb_at dk i)"
    "lk_xid dk' i = lk_xid dk i" "lkb_trans (lkb_at dk' i) = Some (lk_xid dk i)"
    "lk_xid dk i \<in> tr_xid ` set (dk_transactions dk')" "length (dk_lkbs dk') = length (dk_lkbs dk)"
    using c assms by (auto simp: lk_xid_def built_def has_trans_def)
qed

lemma locks_compat_built:
  assumes "built dk E dk'" "has_trans dk w" "has_trans dk g"
  shows "\<exists>b. locks_compat dk' w g = Some b \<and>
    (\<not> b \<and> lk_xid dk w \<noteq> lk_xid dk g \<longleftrightarrow> blocks dk w g)"
proof -
  note w = built_core [OF assms(1,2)] and g = built_core [OF assms(1,3)]
  obtain i j where "mode_index (pl_grmode (lkb_lock (lkb_at dk g))) = Some i"
    "mode_index (pl_rqmode (lkb_lock (lkb_at dk w))) = Some j" using assms(2,3) by (auto simp: has_trans_def)
  then show ?thesis using w g by (cases "w = g") (auto simp: locks_compat_def blocks_def dlm_modes_compat_def)
qed

lemma add_edge_core:
  assumes "distinct (map tr_xid trs)" "t \<in> set trs" "tr_core t' = tr_core t" "y \<noteq> tr_xid t"
  shows "map tr_core (add_edge y t' trs) = map tr_core trs"
proof -
  have x: "tr_xid t' = tr_xid t" using assms(3) by (simp add: tr_core_def)
  have ut: "u = t" if "u \<in> set trs" "tr_xid u = tr_xid t" for u
    using that get_tr_mem [OF assms(1)] assms(2) by (metis option.inject)
  have "tr_xid t' \<noteq> y" using assms(4) x by simp
  note m = add_edge_map [OF assms(1) this]
  show ?thesis unfolding m map_map
  proof (rule map_cong [OF refl])
    fix u assume "u \<in> set trs"
    then show "(tr_core \<circ> (\<lambda>u. if tr_xid u = tr_xid t' then t'
        else if tr_xid u = y then u\<lparr>tr_others_waiting_on_us := tr_others_waiting_on_us u + 1\<rparr> else u)) u = tr_core u"
      using ut [of u] assms(3) x by (auto simp: tr_core_def)
  qed
qed

lemma add_edge_shaped:
  assumes "distinct (map tr_xid trs)" "tr_xid t' \<noteq> y" "shaped t' zs" "\<forall>t\<in>set trs. \<exists>ys. shaped t ys"
  shows "\<forall>t\<in>set (add_edge y t' trs). \<exists>ys. shaped t ys"
proof
  fix v assume "v \<in> set (add_edge y t' trs)"
  then obtain u where u: "u \<in> set trs" and v: "v = (if tr_xid u = tr_xid t' then t'
      else if tr_xid u = y then u\<lparr>tr_others_waiting_on_us := tr_others_waiting_on_us u + 1\<rparr> else u)"
    unfolding add_edge_map [OF assms(1,2)] by force
  show "\<exists>ys. shaped v ys"
    using assms(3) bspec [OF assms(4) u] unfolding v by (auto simp: shaped_def)
qed

definition edge :: "deadlk \<Rightarrow> nat \<Rightarrow> nat \<Rightarrow> (u64 \<times> u64) set" where
  "edge dk w g = (if blocks dk w g then {(lk_xid dk w, lk_xid dk g)} else {})"

lemma add_waitfor_built:
  assumes b: "built dk E dk'" and w: "has_trans dk w" and g: "has_trans dk g" and m: "mem_ok (dmem d)"
  obtains d2 dk2 where "add_waitfor d dk' w g = Some (d2, dk2)" "mem_ok (dmem d2)" "only_mem d d2"
    "mcast d2 = mcast d" "built dk (E \<union> edge dk w g) dk2"
proof -
  let ?x = "lk_xid dk w" and ?y = "lk_xid dk g" and ?trs = "dk_transactions dk'"
  note cw = built_core [OF b w] and cg = built_core [OF b g]
  obtain c where c: "locks_compat dk' w g = Some c" "\<not> c \<and> ?x \<noteq> ?y \<longleftrightarrow> blocks dk w g"
    using locks_compat_built [OF b w g] by blast
  have wf: "graph_wf ?trs" and sh: "\<forall>t\<in>set ?trs. \<exists>ys. shaped t ys" and E: "waits ?trs = E"
    using b by (simp_all add: built_def)
  have dist: "distinct (map tr_xid ?trs)" using wf by (simp add: graph_wf_def)
  show thesis
  proof (cases "blocks dk w g")
    case False
    then show thesis using that [of d dk'] c cw(4) cg(4) b m by (cases c) (auto simp: add_waitfor_def edge_def)
  next
    case True
    then have nc: "c = False" "?x \<noteq> ?y" using c(2) by auto
    obtain t where t: "get_tr ?trs ?x = Some t" using cw(5) by (cases "get_tr ?trs ?x") (auto simp: get_tr_None)
    then have tt: "t \<in> set ?trs" "tr_xid t = ?x" using get_tr_Some by auto
    then obtain ys where ys: "shaped t ys" using sh by blast
    have ed: "edge dk w g = {(?x, ?y)}" using True by (simp add: edge_def)
    show thesis
    proof (cases "Some ?y \<in> set (tr_waitfor t)")
      case True
      then have "(?x, ?y) \<in> E" using E tt by (auto simp: waits_def)
      moreover have "tr_waitfor_count t \<noteq> 0" using True ys unfolding shaped_in [OF ys] by (cases ys) (auto simp: shaped_def)
      ultimately show thesis using that [of d dk'] c(1) nc cw(4) cg(4) t True b m ed
        by (simp add: add_waitfor_def in_waitfor_def insert_absorb)
    next
      case False
      obtain d2 t2 where gp: "grow_waitfor d t = Some (d2, t2, True)" "mem_ok (dmem d2)" "only_mem d d2"
        "mcast d2 = mcast d" "shaped (push_waitfor ?y t2) (ys @ [?y])" "pushed ?y t (push_waitfor ?y t2)"
        by (rule grow_push [OF ys m])
      let ?t' = "push_waitfor ?y t2"
      have x': "tr_xid ?t' = ?x" and co: "tr_core ?t' = tr_core t"
        using gp(6) tt(2) by (auto simp: pushed_def tr_core_def)
      let ?dk2 = "upd_lkb (\<lambda>lkb. lkb\<lparr>lkb_waitfor_trans := Some ?y\<rparr>) w (dk'\<lparr>dk_transactions := add_edge ?y ?t' ?trs\<rparr>)"
      have a: "add_waitfor d dk' w g = Some (d2, ?dk2)"
        using c(1) nc cw(4) cg(4) t False gp(1) x' by (simp add: add_waitfor_def in_waitfor_def add_edge_def)
      have yx: "?y \<noteq> tr_xid t" using nc(2) tt(2) by simp
      have "same_locks (dk'\<lparr>dk_transactions := add_edge ?y ?t' ?trs\<rparr>) ?dk2"
        by (rule same_locks_upd_lkb) (simp add: lkb_core_def)
      then have sl: "same_locks dk ?dk2" using b same_locks_trans [of dk dk' ?dk2] by (simp add: built_def)
      have wl: "w < length (dk_lkbs (dk'\<lparr>dk_transactions := add_edge ?y ?t' ?trs\<rparr>))"
        using w cw(6) by (simp add: has_trans_def)
      have "built dk (E \<union> edge dk w g) ?dk2"
        unfolding built_def
      proof (intro conjI allI)
        show "graph_wf (dk_transactions ?dk2)" "waits (dk_transactions ?dk2) = E \<union> edge dk w g"
          using add_edge_wf [OF wf tt(1) gp(6) yx False cg(5)] E ed tt(2) by auto
        show "\<forall>t\<in>set (dk_transactions ?dk2). \<exists>ys. shaped t ys"
          using add_edge_shaped [OF dist _ gp(5) sh, of ?y] x' nc(2) by simp
        show "map tr_core (dk_transactions ?dk2) = map tr_core (dk_transactions dk)"
          using add_edge_core [OF dist tt(1) co yx] b by (simp add: built_def)
        show "lkb_trans (lkb_at ?dk2 i) = lkb_trans (lkb_at dk i)" for i
          using b unfolding lkb_at_upd [OF wl] by (simp add: built_def)
      qed (rule sl)
      then show thesis using that a gp(2-4) by blast
    qed
  qed
qed

lemma waitfor_granted_built:
  assumes "built dk E dk'" "has_trans dk w" "\<forall>g\<in>set gs. has_trans dk g" "mem_ok (dmem d)"
    "pl_status (lkb_lock (lkb_at dk w)) \<noteq> DLM_LKSTS_GRANTED"
  shows "\<exists>d2 dk2. waitfor_granted d dk' w gs = Some (d2, dk2) \<and> mem_ok (dmem d2) \<and> only_mem d d2 \<and>
    mcast d2 = mcast d \<and> built dk (E \<union> waits_edges dk [w] gs) dk2"
  using assms
proof (induction gs arbitrary: d dk' E)
  case (Cons g gs)
  have g: "has_trans dk g" using Cons.prems(3) by simp
  have st: "lkb_lock (lkb_at dk' g) = lkb_lock (lkb_at dk g)" using built_core(1) [OF Cons.prems(1) g] .
  show ?case
  proof (cases "pl_status (lkb_lock (lkb_at dk g)) = DLM_LKSTS_WAITING")
    case True
    then have "waits_edges dk [w] (g # gs) = waits_edges dk [w] gs" by (auto simp: waits_edges_def)
    then show ?thesis using Cons True st by simp
  next
    case False
    obtain d2 dk2 where a: "add_waitfor d dk' w g = Some (d2, dk2)" "mem_ok (dmem d2)" "only_mem d d2"
      "mcast d2 = mcast d" "built dk (E \<union> edge dk w g) dk2"
      by (rule add_waitfor_built [OF Cons.prems(1,2) g Cons.prems(4)])
    have "edge dk w g \<union> waits_edges dk [w] gs = waits_edges dk [w] (g # gs)"
      using False Cons.prems(5) by (auto simp: waits_edges_def edge_def)
    then show ?thesis using Cons.IH [OF a(5) Cons.prems(2) _ a(2) Cons.prems(5)] Cons.prems(3) False st a(1,4)
        only_mem_trans [OF a(3)] by (auto simp: Un_assoc)
  qed
qed (auto simp: waits_edges_def)

definition rsb_of :: "deadlk \<Rightarrow> nat \<Rightarrow> nat list" where
  "rsb_of dk w = (case Option.bind (lkb_rsb (lkb_at dk w)) (get_rsb dk) of None \<Rightarrow> [] | Some r \<Rightarrow> rsb_locks r)"

lemma waitfor_waiting_built:
  assumes "built dk E dk'" "mem_ok (dmem d)"
    "\<forall>w\<in>set ws. has_trans dk w \<and> (\<forall>g\<in>set (rsb_of dk w). has_trans dk g) \<and>
       Option.bind (lkb_rsb (lkb_at dk w)) (get_rsb dk) \<noteq> None"
  shows "\<exists>d2 dk2. waitfor_waiting d dk' ws = Some (d2, dk2) \<and> mem_ok (dmem d2) \<and> only_mem d d2 \<and>
    mcast d2 = mcast d \<and> built dk (E \<union> (\<Union>w\<in>set ws. waits_edges dk [w] (rsb_of dk w))) dk2"
  using assms
proof (induction ws arbitrary: d dk' E)
  case (Cons w ws)
  have w: "has_trans dk w" using Cons.prems(3) by simp
  note c = built_core [OF Cons.prems(1) w]
  show ?case
  proof (cases "pl_status (lkb_lock (lkb_at dk w)) = DLM_LKSTS_GRANTED")
    case True
    then have "waits_edges dk [w] gs = {}" for gs by (auto simp: waits_edges_def)
    then show ?thesis using Cons True c by simp
  next
    case False
    have "get_rsb dk' = get_rsb dk" using Cons.prems(1) by (auto simp: get_rsb_def built_def same_locks_def)
    then obtain r where r: "Option.bind (lkb_rsb (lkb_at dk' w)) (get_rsb dk') = Some r" "rsb_locks r = rsb_of dk w"
      using Cons.prems(3) c(2) by (auto simp: rsb_of_def)
    obtain d2 dk2 where a: "waitfor_granted d dk' w (rsb_of dk w) = Some (d2, dk2)" "mem_ok (dmem d2)" "only_mem d d2"
      "mcast d2 = mcast d" "built dk (E \<union> waits_edges dk [w] (rsb_of dk w)) dk2"
      using waitfor_granted_built [OF Cons.prems(1) w _ Cons.prems(2) False, of "rsb_of dk w"] Cons.prems(3) by auto
    have e: "waitfor_waiting d dk' (w # ws) = waitfor_waiting d2 dk2 ws" using False c(1) r a(1) by simp
    show ?thesis using Cons.IH [OF a(5,2)] Cons.prems(3) a(4) only_mem_trans [OF a(3)] unfolding e
      by (auto simp: Un_assoc)
  qed
qed auto

lemma waits_edges_cong:
  assumes "\<And>i. i \<in> set ws \<union> set gs \<Longrightarrow> lkb_lock (lkb_at a i) = lkb_lock (lkb_at b i)"
  shows "waits_edges a ws gs = waits_edges b ws gs"
  unfolding waits_edges_def blocks_def lk_xid_def using assms by (intro Collect_cong) (metis Un_iff)

lemma given_has_trans:
  assumes "lkbs_wf dk" "modes_ok dk" "given dk (set (all_locks dk)) dk1" "i \<in> set (all_locks dk)"
  shows "has_trans dk1 i" "lkb_lock (lkb_at dk1 i) = lkb_lock (lkb_at dk i)"
proof -
  have l: "i < length (dk_lkbs dk)" using assms(1,4) by (simp add: lkbs_wf_def)
  have s: "same_locks dk dk1" using assms(3) by (simp add: given_def)
  show "has_trans dk1 i" "lkb_lock (lkb_at dk1 i) = lkb_lock (lkb_at dk i)"
    using assms same_locks_core [OF s l] l by (auto simp: has_trans_def given_def lk_xid_def modes_ok_def)
qed

lemma given_rsb:
  assumes "lkbs_wf dk" "given dk (set (all_locks dk)) dk1" "r \<in> set (dk_resources dk)" "i \<in> set (rsb_locks r)"
  shows "Option.bind (lkb_rsb (lkb_at dk1 i)) (get_rsb dk1) = Some r" "rsb_of dk1 i = rsb_locks r"
    "i \<in> set (all_locks dk)"
proof -
  show i: "i \<in> set (all_locks dk)" using assms(3,4) by (auto simp: all_locks_def)
  then have l: "i < length (dk_lkbs dk)" using assms(1) by (simp add: lkbs_wf_def)
  have s: "same_locks dk dk1" using assms(2) by (simp add: given_def)
  show "Option.bind (lkb_rsb (lkb_at dk1 i)) (get_rsb dk1) = Some r"
  proof -
    have "lkb_rsb (lkb_at dk i) = Some (rsb_name r)" using assms(1,3,4) unfolding lkbs_wf_def by blast
    moreover have "get_rsb dk (rsb_name r) = Some r" by (rule get_rsb_mem [OF assms(1,3)])
    moreover have "get_rsb dk1 = get_rsb dk" using s by (simp add: get_rsb_def [abs_def] same_locks_def)
    ultimately show ?thesis using same_locks_core(2) [OF s l] by simp
  qed
  then show "rsb_of dk1 i = rsb_locks r" by (simp add: rsb_of_def)
qed

lemma given_edges:
  assumes "lkbs_wf dk" "modes_ok dk" "given dk (set (all_locks dk)) dk1"
  shows "(\<Union>w\<in>set (all_locks dk). waits_edges dk1 [w] (rsb_of dk1 w)) = lock_waits dk"
proof -
  have "waits_edges dk1 [w] (rsb_of dk1 w) = waits_edges dk [w] (rsb_locks r)"
    if "r \<in> set (dk_resources dk)" "w \<in> set (rsb_locks r)" for r w
    unfolding given_rsb(2) [OF assms(1,3) that] using that given_has_trans(2) [OF assms] given_rsb(3) [OF assms(1,3)]
    by (intro waits_edges_cong) auto
  then have "(\<Union>r\<in>set (dk_resources dk). \<Union>w\<in>set (rsb_locks r). waits_edges dk1 [w] (rsb_of dk1 w)) =
      (\<Union>r\<in>set (dk_resources dk). \<Union>w\<in>set (rsb_locks r). waits_edges dk [w] (rsb_locks r))" by simp
  also have "\<dots> = lock_waits dk" by (auto simp: lock_waits_def waits_edges_def)
  finally show ?thesis by (auto simp: all_locks_def)
qed

lemma built_locks_of:
  assumes "built dk E dk'"
  shows "locks_of (dk_transactions dk') = locks_of (dk_transactions dk)"
proof -
  have "tr_core ` set (dk_transactions dk') = tr_core ` set (dk_transactions dk)"
    using assms unfolding set_map [symmetric] by (simp only: built_def)
  moreover have "locks_of trs = {(x, i). \<exists>c\<in>tr_core ` set trs. fst c = x \<and> i \<in> set (snd c)}" for trs
    by (simp add: locks_of_def tr_core_def)
  ultimately show ?thesis by (simp only:)
qed

lemma given_built: "given dk P dk1 \<Longrightarrow> built dk1 {} dk1"
  by (fastforce simp: built_def given_def graph_wf_def trans_wf_def blank_def waits_def waiters_on_def shaped_def)

lemma graph_of_locks:
  assumes wf: "lkbs_wf dk" "modes_ok dk" and t: "dk_transactions dk = []" and m: "mem_ok (dmem d)"
  obtains d1 dk1 d2 dk2 where "create_trans_list d dk = (d1, dk1)" "create_waitfor_graph d1 dk1 = Some (d2, dk2)"
    "only_mem d d2" "mem_ok (dmem d2)" "mcast d2 = mcast d" "same_locks dk dk2" "graph_wf (dk_transactions dk2)"
    "waits (dk_transactions dk2) = lock_waits dk"
    "locks_of (dk_transactions dk2) = {(lk_xid dk i, i) |i. i \<in> set (all_locks dk)}"
    "\<forall>i\<in>set (all_locks dk). lkb_trans (lkb_at dk2 i) = Some (lk_xid dk i)"
proof -
  obtain d1 dk1 where a: "create_trans_list d dk = (d1, dk1)" "mem_ok (dmem d1)" "only_mem d d1" "mcast d1 = mcast d"
    "given dk (set (all_locks dk)) dk1" by (rule create_trans_list_given [OF wf(1) t m])
  have sl: "same_locks dk dk1" and lo: "locks_of (dk_transactions dk1) = {(lk_xid dk i, i) |i. i \<in> set (all_locks dk)}"
    using a(5) by (simp_all add: given_def)
  have "set (concat (map tr_locks (dk_transactions dk1))) = snd ` locks_of (dk_transactions dk1)"
    by (force simp: locks_of_def)
  then have ws: "set (concat (map tr_locks (dk_transactions dk1))) = set (all_locks dk)" unfolding lo by force
  have "has_trans dk1 w \<and> (\<forall>g\<in>set (rsb_of dk1 w). has_trans dk1 g) \<and>
      Option.bind (lkb_rsb (lkb_at dk1 w)) (get_rsb dk1) \<noteq> None" if w: "w \<in> set (all_locks dk)" for w
  proof -
    obtain r where r: "r \<in> set (dk_resources dk)" "w \<in> set (rsb_locks r)" using w by (auto simp: all_locks_def)
    show ?thesis using given_has_trans(1) [OF wf a(5)] w given_rsb [OF wf(1) a(5) r] given_rsb(3) [OF wf(1) a(5) r(1)]
      by simp
  qed
  then obtain d2 dk2 where b: "create_waitfor_graph d1 dk1 = Some (d2, dk2)" "mem_ok (dmem d2)" "only_mem d1 d2"
      "mcast d2 = mcast d1" "built dk1 (\<Union>w\<in>set (all_locks dk). waits_edges dk1 [w] (rsb_of dk1 w)) dk2"
    using waitfor_waiting_built [OF given_built [OF a(5)] a(2), of "concat (map tr_locks (dk_transactions dk1))"]
    unfolding ws create_waitfor_graph_def by auto
  show thesis using that [OF a(1) b(1)] only_mem_trans [OF a(3) b(3)] b(2,4,5) a(4) lo built_locks_of [OF b(5)]
      same_locks_trans [OF sl] given_edges [OF wf a(5)] a(5) by (simp add: built_def given_def)
qed

subsection \<open>What is sent\<close>

definition dk_msg :: "daemon \<Rightarrow> lockspace \<Rightarrow> u16 \<Rightarrow> u32 \<Rightarrow> u32 \<Rightarrow> message" where
  "dk_msg d ls type to_nodeid msgdata = \<lparr>m_handle = ls_cpg_handle ls,
     m_hd = dlm_send_header (big_endian d) (daemon_run d) (our_nodeid d) (ls_global_id ls)
       (hd_zero\<lparr>hd_type := type, hd_to_nodeid := to_nodeid, hd_msgdata := msgdata\<rparr>), m_body = Body_none\<rparr>"

definition cancel_msg :: "daemon \<Rightarrow> lockspace \<Rightarrow> dlm_lkb \<Rightarrow> message" where
  "cancel_msg d ls lkb = dk_msg d ls DLM_MSG_DEADLK_CANCEL_LOCK (lkb_home lkb) (cancel_lkid lkb)"

text \<open>The daemon sent \<open>ms\<close>, and can send more.\<close>

definition only_sent :: "daemon \<Rightarrow> message list \<Rightarrow> daemon \<Rightarrow> bool" where
  "only_sent d ms d' = (mcast d = [] \<and> (\<exists>m. mem_ok m \<and> d' = d\<lparr>dmem := m, sent := sent d @ ms\<rparr>))"

lemma only_sent_trans: "only_sent a xs b \<Longrightarrow> only_sent b ys c \<Longrightarrow> only_sent a (xs @ ys) c"
  by (auto simp: only_sent_def)

lemma only_mem_sent: "only_mem a b \<Longrightarrow> mem_ok (dmem b) \<Longrightarrow> mcast a = [] \<Longrightarrow> only_sent a [] b"
proof -
  assume a: "only_mem a b" "mem_ok (dmem b)" "mcast a = []"
  from a(1) obtain m where b: "b = a\<lparr>dmem := m\<rparr>" unfolding only_mem_def by blast
  have "b = a\<lparr>dmem := m, sent := sent a @ []\<rparr>" unfolding b by simp
  then show ?thesis using a b unfolding only_sent_def by auto
qed

lemma only_sent_ready: "only_sent a xs b \<Longrightarrow> mem_ok (dmem b) \<and> mcast b = []"
  by (auto simp: only_sent_def)

lemma dk_send_sent: "mem_ok (dmem d) \<Longrightarrow> mcast d = [] \<Longrightarrow> only_sent d [dk_msg d ls t n x] (dk_send_message d ls t n x)"
  using malloc_mem_ok [of "dmem d"]
  by (auto simp: only_sent_def dk_send_message_def dlm_send_message_def send_message_def dk_msg_def daemon_run_def)

lemma only_sent_msg: "only_sent a xs b \<Longrightarrow> dk_msg b ls t n x = dk_msg a ls t n x"
  by (auto simp: only_sent_def dk_msg_def daemon_run_def)

lemma dk_send_after:
  assumes "only_sent a xs b"
  shows "only_sent a (xs @ [dk_msg a ls t n x]) (dk_send_message b ls t n x)"
  using only_sent_trans [OF assms dk_send_sent] only_sent_ready [OF assms] only_sent_msg [OF assms] by simp

lemma cancel_locks_sent:
  "only_sent a xs d \<Longrightarrow> cancel_locks d ls trs x is = (d', trs') \<Longrightarrow>
   only_sent a (xs @ map (\<lambda>i. cancel_msg a ls (lkb_at (ls_deadlk ls) i))
     (filter (\<lambda>i. pl_status (lkb_lock (lkb_at (ls_deadlk ls) i)) \<noteq> DLM_LKSTS_GRANTED) is)) d'"
proof (induction "is" arbitrary: xs d trs)
  case (Cons i "is")
  show ?case
  proof (cases "pl_status (lkb_lock (lkb_at (ls_deadlk ls) i)) = DLM_LKSTS_GRANTED")
    case True
    then show ?thesis using Cons by (simp add: Let_def)
  next
    case False
    have "only_sent a (xs @ [cancel_msg a ls (lkb_at (ls_deadlk ls) i)]) (send_cancel_lock d ls (lkb_at (ls_deadlk ls) i))"
      unfolding send_cancel_lock_def cancel_msg_def by (rule dk_send_after [OF Cons.prems(1)])
    then show ?thesis using Cons.IH Cons.prems(2) False by (fastforce simp: Let_def)
  qed
qed simp

subsection \<open>The reduced graph\<close>

lemma reduce_loop_core:
  assumes "graph_wf trs" "reduce_loop trs xs = (trs', n)"
  shows "tr_core ` set trs' \<subseteq> tr_core ` set trs"
  using assms
proof (induction trs xs arbitrary: trs' n rule: reduce_loop.induct)
  case (2 trs x xs)
  show ?case
  proof (cases "get_tr trs x")
    case None
    then show ?thesis using 2 by simp
  next
    case (Some t)
    have t: "t \<in> set trs" "tr_xid t = x" using get_tr_Some [OF Some] by auto
    show ?thesis
    proof (cases "tr_waitfor_count t = 0")
      case True
      have "x \<in> tr_xid ` set trs" using t by blast
      then have e: "del_tr x (remove_trans trs x) = map (drop_slot x) (del_tr x trs)"
        by (rule remove_del_tr [OF "2.prems"(1)])
      have wf: "graph_wf (del_tr x (remove_trans trs x))"
        unfolding e using graph_wf_del [OF "2.prems"(1) t(1) True] t(2) by simp
      obtain m where "reduce_loop (del_tr x (remove_trans trs x)) xs = (trs', m)"
        using "2.prems"(2) Some True by (auto split: prod.splits)
      then have "tr_core ` set trs' \<subseteq> tr_core ` set (map (drop_slot x) (del_tr x trs))"
        using "2.IH"(3) [OF Some] True wf unfolding e by simp
      then show ?thesis by (auto simp: tr_core_def drop_slot_def del_tr_def)
    next
      case False
      then show ?thesis using "2.IH"(2) [OF Some] "2.prems" Some by simp
    qed
  qed
qed simp

lemma reduce_core: "graph_wf trs \<Longrightarrow> tr_core ` set (reduce_waitfor_graph_loop trs) \<subseteq> tr_core ` set trs"
proof (induction trs rule: reduce_waitfor_graph_loop.induct)
  case (1 trs)
  obtain trs' n where r: "reduce_waitfor_graph trs = (trs', n)" by force
  have s: "tr_core ` set trs' \<subseteq> tr_core ` set trs" "graph_wf trs'"
    using reduce_loop_core [OF "1.prems"] reduce_graph_exact [OF r "1.prems"] r by (auto simp: reduce_waitfor_graph_def)
  show ?case using "1.IH" [OF r [symmetric]] s r by (cases "n = 0") (auto simp: reduce_waitfor_graph_loop.simps [of trs])
qed

text \<open>In a reduced graph that is not empty somebody is waited for, and holds a lock that waits.\<close>

lemma reduced_cancel:
  assumes wf: "graph_wf trs" and ne: "reduce_waitfor_graph_loop trs \<noteq> []"
  obtains t where "find_trans_to_cancel (reduce_waitfor_graph_loop trs) = Some t"
    "deadlocked trs (tr_xid ` set (reduce_waitfor_graph_loop trs))" "tr_xid t \<in> tr_xid ` set (reduce_waitfor_graph_loop trs)"
    "tr_core t \<in> tr_core ` set trs"
proof -
  let ?r = "reduce_waitfor_graph_loop trs"
  note e = reduce_graph_loop_exact [OF wf]
  obtain u where u: "u \<in> set ?r" using ne by (meson ex_in_conv set_empty)
  have "deadlocked ?r (tr_xid ` set ?r)" using e by blast
  then obtain z where z: "z \<in> tr_xid ` set ?r" "(tr_xid u, z) \<in> waits ?r" using u by (auto simp: deadlocked_def)
  then obtain v w where v: "v \<in> set ?r" "tr_xid v = z" and w: "w \<in> set ?r" "Some z \<in> set (tr_waitfor w)"
    by (auto simp: waits_def)
  have "trans_wf ?r v" using e v(1) by (simp add: graph_wf_def)
  moreover have "w \<in> set (waiters_on ?r z)" using w by (simp add: waiters_on_def)
  then have "waiters_on ?r z \<noteq> []" by (cases "waiters_on ?r z") simp_all
  ultimately have "tr_others_waiting_on_us v \<noteq> 0" using v(2) by (simp add: trans_wf_def)
  then have "find_trans_to_cancel ?r \<noteq> None" using v(1) by (auto simp: find_trans_to_cancel_def find_None_iff)
  then obtain t where t: "find_trans_to_cancel ?r = Some t" by auto
  then have "t \<in> set ?r" by (auto simp: find_trans_to_cancel_def find_Some_iff)
  then have "tr_xid t \<in> tr_xid ` set ?r" "tr_core t \<in> tr_core ` set trs"
    using subsetD [OF reduce_core [OF wf]] by simp_all
  then show thesis using that [OF t] e by simp
qed

definition waiting_locks :: "deadlk \<Rightarrow> nat list \<Rightarrow> nat list" where
  "waiting_locks dk is = filter (\<lambda>i. pl_status (lkb_lock (lkb_at dk i)) \<noteq> DLM_LKSTS_GRANTED) is"

text \<open>A set of transactions each of which waits for a lock of another one in the set.\<close>

definition stuck :: "deadlk \<Rightarrow> u64 set \<Rightarrow> bool" where
  "stuck dk S = (\<forall>x\<in>S. \<exists>y\<in>S. (x, y) \<in> lock_waits dk)"

lemma trans_of_lock:
  assumes "graph_wf trs" "locks_of trs = {(lk_xid dk i, i) |i. i \<in> set (all_locks dk)}" "tr_core t \<in> tr_core ` set trs"
  shows "i \<in> set (tr_locks t) \<longleftrightarrow> i \<in> set (all_locks dk) \<and> lk_xid dk i = tr_xid t"
proof -
  obtain u where u: "u \<in> set trs" "tr_core u = tr_core t" using assms(3) by force
  have "v = u" if "v \<in> set trs" "tr_xid v = tr_xid u" for v
    using that assms(1) u(1) by (simp add: graph_wf_def distinct_map inj_on_def)
  then have "i \<in> set (tr_locks u) \<longleftrightarrow> (tr_xid u, i) \<in> locks_of trs" using u(1) unfolding locks_of_def by blast
  also have "\<dots> \<longleftrightarrow> i \<in> set (all_locks dk) \<and> lk_xid dk i = tr_xid u" unfolding assms(2) by auto
  finally show ?thesis using u(2) by (simp add: tr_core_def)
qed

lemma waiting_lock_of_stuck:
  assumes "stuck dk S" "x \<in> S"
  obtains w where "w \<in> set (all_locks dk)" "lk_xid dk w = x" "pl_status (lkb_lock (lkb_at dk w)) \<noteq> DLM_LKSTS_GRANTED"
  using assms by (fastforce simp: stuck_def lock_waits_def waits_edges_def all_locks_def)

lemma cancel_trans_sent:
  assumes a: "only_sent d [] d1" and g: "graph_wf trs" "locks_of trs = {(lk_xid dk i, i) |i. i \<in> set (all_locks dk)}"
    and w: "waits trs = lock_waits dk" and s: "same_locks dk dk2" "lkbs_wf dk"
    and ne: "reduce_waitfor_graph_loop trs \<noteq> []"
    and c: "cancel_trans d1 (ls\<lparr>ls_deadlk := dk2\<lparr>dk_transactions := reduce_waitfor_graph_loop trs\<rparr>\<rparr>) = (d2, ls2)"
  obtains cs S where "only_sent d (map (\<lambda>i. cancel_msg d ls (lkb_at dk i)) cs) d2" "cs \<noteq> []" "stuck dk S"
    "\<forall>i\<in>set cs. i \<in> set (all_locks dk) \<and> lk_xid dk i \<in> S \<and> pl_status (lkb_lock (lkb_at dk i)) \<noteq> DLM_LKSTS_GRANTED"
    "ls_cpg_handle ls2 = ls_cpg_handle ls" "ls_global_id ls2 = ls_global_id ls"
proof -
  let ?r = "reduce_waitfor_graph_loop trs" and ?ls = "ls\<lparr>ls_deadlk := dk2\<lparr>dk_transactions := reduce_waitfor_graph_loop trs\<rparr>\<rparr>"
  obtain t where t: "find_trans_to_cancel ?r = Some t" "deadlocked trs (tr_xid ` set ?r)" "tr_xid t \<in> tr_xid ` set ?r"
    "tr_core t \<in> tr_core ` set trs" by (rule reduced_cancel [OF g(1) ne])
  note tl = trans_of_lock [OF g t(4)]
  have st: "stuck dk (tr_xid ` set ?r)" using t(2) w by (auto simp: deadlocked_def stuck_def)
  have core: "lkb_lock (lkb_at dk2 i) = lkb_lock (lkb_at dk i)" "lkb_home (lkb_at dk2 i) = lkb_home (lkb_at dk i)"
    if "i \<in> set (tr_locks t)" for i
    using that same_locks_core [OF s(1), of i] s(2) by (auto simp: tl lkbs_wf_def)
  let ?cs = "waiting_locks dk (tr_locks t)"
  obtain trs2 where c2: "cancel_locks d1 ?ls ?r (tr_xid t) (tr_locks t) = (d2, trs2)" and ls2:
    "ls_cpg_handle ls2 = ls_cpg_handle ls" "ls_global_id ls2 = ls_global_id ls"
    using c t(1) by (auto simp: cancel_trans_def set_dk_def split: prod.splits)
  have f: "filter (\<lambda>i. pl_status (lkb_lock (lkb_at (ls_deadlk ?ls) i)) \<noteq> DLM_LKSTS_GRANTED) (tr_locks t) = ?cs"
    using core by (auto simp: waiting_locks_def intro!: filter_cong)
  have mm: "map (\<lambda>i. cancel_msg d ?ls (lkb_at (ls_deadlk ?ls) i)) ?cs = map (\<lambda>i. cancel_msg d ls (lkb_at dk i)) ?cs"
    using core by (auto simp: waiting_locks_def cancel_msg_def dk_msg_def cancel_lkid_def)
  have "only_sent d (map (\<lambda>i. cancel_msg d ls (lkb_at dk i)) ?cs) d2"
    using cancel_locks_sent [OF a c2] unfolding f mm by simp
  moreover obtain x where "x \<in> set (all_locks dk)" "lk_xid dk x = tr_xid t" "pl_status (lkb_lock (lkb_at dk x)) \<noteq> DLM_LKSTS_GRANTED"
    by (rule waiting_lock_of_stuck [OF st t(3)])
  then have "x \<in> set ?cs" by (simp add: waiting_locks_def tl)
  then have "?cs \<noteq> []" by (cases ?cs) simp_all
  moreover have "\<forall>i\<in>set ?cs. i \<in> set (all_locks dk) \<and> lk_xid dk i \<in> tr_xid ` set ?r \<and>
      pl_status (lkb_lock (lkb_at dk i)) \<noteq> DLM_LKSTS_GRANTED" using t(3) tl by (simp add: waiting_locks_def)
  ultimately show thesis using that st ls2 by blast
qed

end
