(* ===== verification/Deadlock_Cases.thy ===== *)
theory Deadlock_Cases
  imports Deadlock_Detect Plock_Queue
begin

text \<open>
  The properties of the deadlock detector, with concrete lock states: when it reports a deadlock, what the
  cancellation resolves and what it leaves, and who acts on a cancel message.
\<close>

subsection \<open>Lock states\<close>

definition ex_lkb :: "string \<Rightarrow> nodeid \<Rightarrow> u64 \<Rightarrow> 8 word \<Rightarrow> 8 word \<Rightarrow> 8 word \<Rightarrow> dlm_lkb" where
  "ex_lkb name home xid status gr rq =
     \<lparr>lkb_lock = lock_zero\<lparr>pl_xid := xid, pl_id := 16, pl_status := status, pl_grmode := gr, pl_rqmode := rq, pl_copy := LOCAL_COPY\<rparr>,
      lkb_home = home, lkb_rsb = Some name, lkb_trans = None, lkb_waitfor_trans = None\<rparr>"

definition ex_dk :: "dlm_rsb list \<Rightarrow> dlm_lkb list \<Rightarrow> lockspace" where
  "ex_dk rs lkbs = (ex_ls [])\<lparr>ls_deadlk := dk_zero\<lparr>dk_resources := rs, dk_lkbs := lkbs\<rparr>\<rparr>"

text \<open>Transactions 7 and 8 hold a resource each, exclusively, and wait for the other's.\<close>

definition ex_cross :: lockspace where
  "ex_cross = ex_dk [\<lparr>rsb_name = ''a'', rsb_locks = [0, 1]\<rparr>, \<lparr>rsb_name = ''b'', rsb_locks = [2, 3]\<rparr>]
     [ex_lkb ''a'' 1 7 DLM_LKSTS_GRANTED 5 0, ex_lkb ''a'' 2 8 DLM_LKSTS_WAITING 0 5,
      ex_lkb ''b'' 2 8 DLM_LKSTS_GRANTED 5 0, ex_lkb ''b'' 1 7 DLM_LKSTS_WAITING 0 5]"

lemmas ex_dk_eval = ex_dk_def ex_lkb_def lock_zero_def dk_zero_def state_defs all_locks_def lkb_at_def
  get_rsb_def same_name_def mode_index_def

lemma ex_cross_wf: "lkbs_wf (ls_deadlk ex_cross)" "modes_ok (ls_deadlk ex_cross)"
  by (simp_all add: ex_cross_def lkbs_wf_def modes_ok_def ex_dk_eval)

text \<open>
  Transaction 7 waits, with one lock, for two readers 8 and 9, and both wait for a lock of 7.
\<close>

definition ex_readers :: lockspace where
  "ex_readers = ex_dk [\<lparr>rsb_name = ''a'', rsb_locks = [4, 5, 3]\<rparr>, \<lparr>rsb_name = ''b'', rsb_locks = [0, 1, 2]\<rparr>]
     [ex_lkb ''b'' 1 7 DLM_LKSTS_WAITING 0 5, ex_lkb ''b'' 2 8 DLM_LKSTS_GRANTED 3 0, ex_lkb ''b'' 3 9 DLM_LKSTS_GRANTED 3 0,
      ex_lkb ''a'' 1 7 DLM_LKSTS_GRANTED 5 0, ex_lkb ''a'' 2 8 DLM_LKSTS_WAITING 0 5, ex_lkb ''a'' 3 9 DLM_LKSTS_WAITING 0 5]"

text \<open>Transaction 10 waits for 7, 7 for 8, and 8 and 9 for each other.\<close>

definition ex_tail :: lockspace where
  "ex_tail = ex_dk [\<lparr>rsb_name = ''d'', rsb_locks = [6, 7]\<rparr>, \<lparr>rsb_name = ''c'', rsb_locks = [4, 5]\<rparr>,
       \<lparr>rsb_name = ''a'', rsb_locks = [1, 0]\<rparr>, \<lparr>rsb_name = ''b'', rsb_locks = [2, 3]\<rparr>]
     [ex_lkb ''a'' 1 7 DLM_LKSTS_GRANTED 5 0, ex_lkb ''a'' 1 10 DLM_LKSTS_WAITING 0 5,
      ex_lkb ''b'' 2 8 DLM_LKSTS_GRANTED 5 0, ex_lkb ''b'' 1 7 DLM_LKSTS_WAITING 0 5,
      ex_lkb ''c'' 2 8 DLM_LKSTS_GRANTED 5 0, ex_lkb ''c'' 3 9 DLM_LKSTS_WAITING 0 5,
      ex_lkb ''d'' 3 9 DLM_LKSTS_GRANTED 5 0, ex_lkb ''d'' 2 8 DLM_LKSTS_WAITING 0 5]"

text \<open>One lock.\<close>

definition ex_single :: lockspace where
  "ex_single = ex_dk [\<lparr>rsb_name = ''a'', rsb_locks = [0]\<rparr>] [ex_lkb ''a'' 1 7 DLM_LKSTS_GRANTED 5 0]"

lemma lock_waits_set:
  "lock_waits dk = set (concat (map (\<lambda>r. concat (map (\<lambda>w. map (\<lambda>g. (lk_xid dk w, lk_xid dk g))
     (filter (\<lambda>g. pl_status (lkb_lock (lkb_at dk w)) \<noteq> DLM_LKSTS_GRANTED \<and>
        pl_status (lkb_lock (lkb_at dk g)) \<noteq> DLM_LKSTS_WAITING \<and> blocks dk w g) (rsb_locks r))) (rsb_locks r)))
     (dk_resources dk)))"
  by (auto simp: lock_waits_def waits_edges_def)

lemma ex_waits:
  "lock_waits (ls_deadlk ex_readers) = {(8, 7), (9, 7), (7, 8), (7, 9)}"
  "lock_waits (ls_deadlk ex_tail) = {(8, 9), (9, 8), (10, 7), (7, 8)}"
  "lock_waits (ls_deadlk ex_single) = {}"
  unfolding lock_waits_set by code_simp+

subsection \<open>Properties\<close>

text \<open>
  C5. With memory for the graph, the deadlock detector cancels locks exactly when the waits-for relation of the
  transactions, as the locks define it, has a cycle: it sends a cancel message for locks \<open>cs\<close> and then ends the
  cycle; \<open>cs\<close> is empty exactly when the relation is acyclic, and every lock cancelled is a waiting lock of a
  transaction in a set in which everybody waits for somebody in the set.
\<close>

theorem find_deadlock_detects:
  assumes "lkbs_wf (ls_deadlk ls)" "modes_ok (ls_deadlk ls)" "dk_transactions (ls_deadlk ls) = []"
    "mem_ok (dmem d)" "mcast d = []"
  shows "\<exists>d' ls' cs S. find_deadlock d ls = Some (d', ls') \<and>
    sent d' = sent d @ map (\<lambda>i. cancel_msg d ls (lkb_at (ls_deadlk ls) i)) cs @ [dk_msg d ls DLM_MSG_DEADLK_CYCLE_END 0 0] \<and>
    (cs = [] \<longleftrightarrow> acyclic (lock_waits (ls_deadlk ls))) \<and> stuck (ls_deadlk ls) S \<and>
    (\<forall>i\<in>set cs. i \<in> set (all_locks (ls_deadlk ls)) \<and> lk_xid (ls_deadlk ls) i \<in> S \<and>
       pl_status (lkb_lock (lkb_at (ls_deadlk ls) i)) \<noteq> DLM_LKSTS_GRANTED)"
proof (cases "dk_resources (ls_deadlk ls) = []")
  case True
  then have "lock_waits (ls_deadlk ls) = {}" by (simp add: lock_waits_def)
  moreover have "only_sent d [] d" using assms(4,5) only_mem_sent [of d d] by simp
  ultimately show ?thesis using True dk_send_after [of d "[]" d ls DLM_MSG_DEADLK_CYCLE_END 0 0]
    by (intro exI [of _ "send_cycle_end d ls"] exI [of _ ls] exI [of _ "[]"] exI [of _ "{}"])
      (auto simp: find_deadlock_def send_cycle_end_def only_sent_def stuck_def acyclic_def)
next
  case False
  let ?dk = "ls_deadlk ls"
  obtain d1 dk1 d2 dk2 where g: "create_trans_list d ?dk = (d1, dk1)" "create_waitfor_graph d1 dk1 = Some (d2, dk2)"
    "only_mem d d2" "mem_ok (dmem d2)" "mcast d2 = mcast d" "same_locks ?dk dk2" "graph_wf (dk_transactions dk2)"
    "waits (dk_transactions dk2) = lock_waits ?dk"
    "locks_of (dk_transactions dk2) = {(lk_xid ?dk i, i) |i. i \<in> set (all_locks ?dk)}"
    "\<forall>i\<in>set (all_locks ?dk). lkb_trans (lkb_at dk2 i) = Some (lk_xid ?dk i)"
    by (rule graph_of_locks [OF assms(1-4)])
  have os: "only_sent d [] d2" by (rule only_mem_sent [OF g(3,4) assms(5)])
  let ?r = "reduce_waitfor_graph_loop (dk_transactions dk2)" and ?ls = "\<lambda>r. ls\<lparr>ls_deadlk := dk2\<lparr>dk_transactions := r\<rparr>\<rparr>"
  have ac: "?r = [] \<longleftrightarrow> acyclic (lock_waits ?dk)" using reduced_empty_iff [OF g(7)] g(8) by simp
  show ?thesis
  proof (cases "?r = []")
    case True
    have "only_sent d [dk_msg d (?ls []) DLM_MSG_DEADLK_CYCLE_END 0 0] (send_cycle_end d2 (?ls []))"
      unfolding send_cycle_end_def using dk_send_after [OF os] by simp
    moreover have "dk_msg d (?ls []) = dk_msg d ls" by (intro ext) (simp add: dk_msg_def)
    ultimately show ?thesis using False True g(1,2) assms(3) ac
      by (intro exI [of _ "send_cycle_end d2 (?ls [])"] exI [of _ "?ls []"] exI [of _ "[]"] exI [of _ "{}"])
        (auto simp: find_deadlock_def only_sent_def stuck_def Let_def)
  next
    case ne: False
    obtain d3 ls3 where c: "cancel_trans d2 (?ls ?r) = (d3, ls3)" by force
    obtain cs S where s: "only_sent d (map (\<lambda>i. cancel_msg d ls (lkb_at ?dk i)) cs) d3" "cs \<noteq> []" "stuck ?dk S"
      "\<forall>i\<in>set cs. i \<in> set (all_locks ?dk) \<and> lk_xid ?dk i \<in> S \<and> pl_status (lkb_lock (lkb_at ?dk i)) \<noteq> DLM_LKSTS_GRANTED"
      "ls_cpg_handle ls3 = ls_cpg_handle ls" "ls_global_id ls3 = ls_global_id ls"
      by (rule cancel_trans_sent [OF os g(7,9,8,6) assms(1) ne c])
    let ?ls4 = "set_dk (\<lambda>dk. dk\<lparr>dk_transactions := reduce_waitfor_graph_loop (dk_transactions dk)\<rparr>) ls3"
    have m: "dk_msg d ?ls4 = dk_msg d ls" using s(5,6) by (intro ext) (simp add: dk_msg_def set_dk_def)
    have "sent (send_cycle_end d3 ?ls4) = sent d @ map (\<lambda>i. cancel_msg d ls (lkb_at ?dk i)) cs @ [dk_msg d ls DLM_MSG_DEADLK_CYCLE_END 0 0]"
      using dk_send_after [OF s(1), of ?ls4 DLM_MSG_DEADLK_CYCLE_END 0 0] unfolding m by (auto simp: only_sent_def send_cycle_end_def)
    moreover have "find_deadlock d ls = Some (send_cycle_end d3 ?ls4, ?ls4)"
      using False ne g(1,2) assms(3) c by (simp add: find_deadlock_def Let_def)
    ultimately show ?thesis using s(2-4) ac ne by blast
  qed
qed

theorem find_deadlock_detects_witness:
  "\<exists>d' ls' cs S. find_deadlock (ex_daemon 1 False) ex_cross = Some (d', ls') \<and>
    sent d' = map (\<lambda>i. cancel_msg (ex_daemon 1 False) ex_cross (lkb_at (ls_deadlk ex_cross) i)) cs @
      [dk_msg (ex_daemon 1 False) ex_cross DLM_MSG_DEADLK_CYCLE_END 0 0] \<and>
    (cs = [] \<longleftrightarrow> acyclic (lock_waits (ls_deadlk ex_cross))) \<and> stuck (ls_deadlk ex_cross) S \<and>
    (\<forall>i\<in>set cs. i \<in> set (all_locks (ls_deadlk ex_cross)) \<and> lk_xid (ls_deadlk ex_cross) i \<in> S \<and>
       pl_status (lkb_lock (lkb_at (ls_deadlk ex_cross) i)) \<noteq> DLM_LKSTS_GRANTED)"
proof -
  have "dk_transactions (ls_deadlk ex_cross) = []" "sent (ex_daemon 1 False) = []" "mcast (ex_daemon 1 False) = []"
    "mem_ok (dmem (ex_daemon 1 False))" by (simp_all add: ex_cross_def ex_dk_eval)
  then show ?thesis using find_deadlock_detects [OF ex_cross_wf, of "ex_daemon 1 False"] by simp
qed



text \<open>
  C24. A cancel message takes effect on the node that sent it, not on the node it names: every other node ignores
  it, the addressee included, and the sender cancels, in its own kernel, the lock id that is valid on the home
  node of the lock.
\<close>

theorem cancel_acts_on_sender:
  assumes "big_endian d' = big_endian d"
  shows "receive_cancel_lock d' ls (dlm_header_in (big_endian d') (m_hd (cancel_msg d ls lkb))) =
    (if our_nodeid d' = our_nodeid d \<and> dlm_opens d'
     then d'\<lparr>kernel_ops := kernel_ops d' @ [Deadlock_cancel (ls_name ls) (cancel_lkid lkb)]\<rparr> else d')"
  using assms by (simp add: receive_cancel_lock_def cancel_msg_def dk_msg_def dlm_header_in_send eq_commute)

theorem cancel_acts_on_sender_witness:
  "let lkb = lkb_at (ls_deadlk ex_cross) 1; d = ex_daemon 1 False; d' = ex_daemon 2 False in
     lkb_home lkb = our_nodeid d' \<and>
     receive_cancel_lock d' ex_cross (dlm_header_in False (m_hd (cancel_msg d ex_cross lkb))) = d'"
  using cancel_acts_on_sender [of "ex_daemon 2 False" "ex_daemon 1 False" ex_cross "lkb_at (ls_deadlk ex_cross) 1"]
  by (simp add: ex_cross_def ex_dk_eval Let_def)



end
