(* ===== verification/Deadlock_Inv.thy ===== *)
theory Deadlock_Inv
  imports Deadlock_Build Plock_Queue
begin

text \<open>
  The handlers of the deadlock detector keep the lists of resources and locks consistent: every lock is on the
  list of exactly one resource, the one it points to, and no two resources have the same name.
\<close>

subsection \<open>Adding resources and locks\<close>

lemma lkbs_wf_same: "same_locks dk dk' \<Longrightarrow> lkbs_wf dk \<Longrightarrow> lkbs_wf dk'"
proof -
  assume s: "same_locks dk dk'" and w: "lkbs_wf dk"
  have r: "dk_resources dk' = dk_resources dk" using s by (simp add: same_locks_def)
  have l: "lkb_rsb (lkb_at dk' i) = lkb_rsb (lkb_at dk i)" "i < length (dk_lkbs dk')" if "i \<in> set (all_locks dk)" for i
    using that same_locks_core [OF s, of i] w by (auto simp: lkbs_wf_def)
  have "\<forall>q\<in>set (dk_resources dk). \<forall>i\<in>set (rsb_locks q). i \<in> set (all_locks dk)" by (auto simp: all_locks_def)
  then show ?thesis using w r l same_locks_all [OF s] by (auto simp: lkbs_wf_def)
qed

lemma lkbs_wf_trs [simp]: "lkbs_wf (dk\<lparr>dk_transactions := trs\<rparr>) = lkbs_wf dk"
  by (simp add: lkbs_wf_def all_locks_def)

lemma get_resource_wf:
  assumes "lkbs_wf dk" "get_resource d dk name = Some (d', dk', b)"
  shows "lkbs_wf dk'"
proof (cases "get_rsb dk name")
  case None
  then have "\<forall>r\<in>set (dk_resources dk). \<not> same_name name (rsb_name r)"
    by (auto simp: get_rsb_def find_None_iff same_name_def)
  then show ?thesis using assms None
    by (auto simp: get_resource_def lkbs_wf_def all_locks_def lkb_at_def split: option.splits prod.splits if_splits)
qed (use assms in \<open>auto simp: get_resource_def\<close>)

lemma upd_lkb_wf:
  assumes "lkbs_wf dk" "\<And>l. lkb_rsb (f l) = lkb_rsb l"
  shows "lkbs_wf (upd_lkb f i dk)"
proof -
  have "lkb_rsb (lkb_at (upd_lkb f i dk) j) = lkb_rsb (lkb_at dk j)" for j
    using assms(2) by (cases "i < length (dk_lkbs dk)") (auto simp: upd_lkb_def lkb_at_def list_update_beyond nth_list_update)
  then show ?thesis using assms(1) by (simp add: lkbs_wf_def all_locks_def)
qed

lemma map_first_split:
  assumes "sorted_wrt (\<lambda>s t. \<not> same_name s t) (map rsb_name (as @ r # bs))"
  shows "map_first (\<lambda>q. same_name (rsb_name q) (rsb_name r)) f (as @ r # bs) = as @ f r # bs"
  using assms by (induction as) auto

lemma add_lkb_wf:
  assumes w: "lkbs_wf dk" and r: "r \<in> set (dk_resources dk)" and i: "i = length (dk_lkbs dk)"
  shows "lkbs_wf (add_lkb (upd_lkb f i (dk\<lparr>dk_lkbs := dk_lkbs dk @ [x]\<rparr>)) (rsb_name r) i)"
proof -
  let ?dk = "add_lkb (upd_lkb f i (dk\<lparr>dk_lkbs := dk_lkbs dk @ [x]\<rparr>)) (rsb_name r) i"
  obtain as bs where s: "dk_resources dk = as @ r # bs" using r by (auto dest: split_list)
  have res: "dk_resources ?dk = as @ r\<lparr>rsb_locks := i # rsb_locks r\<rparr> # bs"
    using w map_first_split [of as r bs] by (simp add: add_lkb_def upd_rsb_def upd_lkb_def s lkbs_wf_def)
  have lkb: "lkb_rsb (lkb_at ?dk j) = (if j = i then Some (rsb_name r) else lkb_rsb (lkb_at dk j))" if "j \<le> i" for j
    using that i by (auto simp: add_lkb_def upd_rsb_def upd_lkb_def lkb_at_def nth_list_update nth_append)
  have al: "all_locks dk = concat (map rsb_locks as) @ rsb_locks r @ concat (map rsb_locks bs)"
    "all_locks ?dk = concat (map rsb_locks as) @ i # rsb_locks r @ concat (map rsb_locks bs)"
    by (simp_all add: all_locks_def s res)
  have lt: "\<forall>j\<in>set (all_locks dk). j < i" using w i by (auto simp: lkbs_wf_def)
  have len: "length (dk_lkbs ?dk) = i + 1" using i by (simp add: add_lkb_def upd_rsb_def upd_lkb_def)
  have "\<forall>q\<in>set (dk_resources ?dk). \<forall>j\<in>set (rsb_locks q). lkb_rsb (lkb_at ?dk j) = Some (rsb_name q)"
  proof (intro ballI)
    fix q j assume q: "q \<in> set (dk_resources ?dk)" "j \<in> set (rsb_locks q)"
    have old: "j < i \<and> lkb_rsb (lkb_at dk j) = Some (rsb_name p)" if "p \<in> set (dk_resources dk)" "j \<in> set (rsb_locks p)" for p
      using that lt w by (auto simp: lkbs_wf_def all_locks_def)
    have "q \<in> set (dk_resources dk) \<or> q = r\<lparr>rsb_locks := i # rsb_locks r\<rparr>" using q(1) by (auto simp: res s)
    then have "j = i \<and> rsb_name q = rsb_name r \<or> j < i \<and> lkb_rsb (lkb_at dk j) = Some (rsb_name q)"
      using q(2) old [of q] old [of r] r by auto
    then show "lkb_rsb (lkb_at ?dk j) = Some (rsb_name q)" using lkb [of j] by auto
  qed
  moreover have "distinct (all_locks ?dk)"
    using w lt unfolding al lkbs_wf_def by auto
  moreover have "\<forall>j\<in>set (all_locks ?dk). j < length (dk_lkbs ?dk)"
    using lt unfolding al len by (auto simp: less_Suc_eq)
  moreover have "map rsb_name (dk_resources ?dk) = map rsb_name (dk_resources dk)" by (simp add: res s)
  ultimately show ?thesis using w by (simp add: lkbs_wf_def)
qed

lemma fill_lkb_rsb [simp]: "lkb_rsb (fill_lkb n l k) = lkb_rsb k"
  by (simp add: fill_lkb_def)

lemma create_lkb_cases:
  "create_lkb d dk = (d', dk', res) \<Longrightarrow> res = None \<and> dk' = dk \<or>
     res = Some (length (dk_lkbs dk)) \<and> dk' = dk\<lparr>dk_lkbs := dk_lkbs dk @ [lkb_zero]\<rparr>"
  by (auto simp: create_lkb_def split: option.splits prod.splits)

lemma get_lkb_cases:
  assumes "get_lkb d dk r l = (d', dk', res)"
  shows "dk' = dk \<and> (\<forall>i. res \<noteq> Some (i, True)) \<or>
     res = Some (length (dk_lkbs dk), True) \<and> dk' = dk\<lparr>dk_lkbs := dk_lkbs dk @ [lkb_zero]\<rparr>"
proof -
  obtain d1 dk1 c where c: "create_lkb d dk = (d1, dk1, c)" by (cases "create_lkb d dk") auto
  show ?thesis
    using assms create_lkb_cases [OF c] unfolding get_lkb_def c by (auto split: option.splits)
qed

lemma dk_add_lock_wf:
  assumes w: "lkbs_wf dk" and a: "dk_add_lock d dk name n l = (d', dk')"
  shows "lkbs_wf dk'"
proof (cases "get_rsb dk name")
  case (Some r)
  then have r: "r \<in> set (dk_resources dk)" by (auto simp: get_rsb_def find_Some_iff)
  obtain d1 dk1 res where g: "get_lkb d dk r l = (d1, dk1, res)" by (cases "get_lkb d dk r l") auto
  show ?thesis
  proof (cases res)
    case None
    then show ?thesis using a w Some g get_lkb_cases [OF g] by (simp add: dk_add_lock_def)
  next
    case res: (Some ib)
    obtain i b where ib: "ib = (i, b)" by force
    show ?thesis using a w Some g get_lkb_cases [OF g] upd_lkb_wf [OF w] add_lkb_wf [OF w r refl]
      unfolding res ib by (cases b) (auto simp: dk_add_lock_def Let_def)
  qed
qed (use assms in \<open>simp add: dk_add_lock_def\<close>)

subsection \<open>Reading locks\<close>

lemma lkbs_wf_fields [simp]:
  "lkbs_wf (dk\<lparr>dk_nodes := ns\<rparr>) = lkbs_wf dk" "lkbs_wf (dk\<lparr>dk_ckpt_handle := h\<rparr>) = lkbs_wf dk"
  "lkbs_wf (dk\<lparr>dk_cycle_running := b\<rparr>) = lkbs_wf dk" "lkbs_wf (dk\<lparr>dk_all_checkpoints_ready := b\<rparr>) = lkbs_wf dk"
  "lkbs_wf (dk\<lparr>dk_low_nodeid := n\<rparr>) = lkbs_wf dk" "lkbs_wf (dk\<lparr>dk_cycle_start_time := t\<rparr>) = lkbs_wf dk"
  "lkbs_wf (dk\<lparr>dk_cycle_end_time := t\<rparr>) = lkbs_wf dk" "lkbs_wf (dk\<lparr>dk_confchg_init := b\<rparr>) = lkbs_wf dk"
  by (simp_all add: lkbs_wf_def all_locks_def lkb_at_def)

lemma read_lock_lines_wf:
  "lkbs_wf dk \<Longrightarrow> read_lock_lines d dk lines = Some (d', dk') \<Longrightarrow> lkbs_wf dk'"
proof (induction lines arbitrary: d dk)
  case (Cons line lines)
  let ?f = "scan_fields lock_format line"
  show ?case
  proof (cases "length ?f \<noteq> 13")
    case True
    then show ?thesis using Cons.prems by (simp add: Let_def)
  next
    case False
    then obtain r_name where p: "\<not> sint (int_value (?f ! 12)) < 0" "parse_r_name line = Some r_name"
      using Cons.prems(2) by (auto simp: Let_def split: if_splits option.splits)
    let ?name = "take (nat (sint (int_value (?f ! 12)))) (r_name @ replicate 65 CHR 0x00)"
    obtain d1 dk1 b where g: "get_resource d dk ?name = Some (d1, dk1, b)"
      using Cons.prems(2) False p by (cases "get_resource d dk ?name") (auto simp: Let_def)
    have w1: "lkbs_wf dk1" by (rule get_resource_wf [OF Cons.prems(1) g])
    obtain d2 dk2 where a: "dk_add_lock d1 dk1 ?name (our_nodeid d1) (set_copy d1 (parse_lock ?f)) = (d2, dk2)" by force
    show ?thesis using Cons.prems(2) Cons.IH [OF dk_add_lock_wf [OF w1 a]] False p g a w1
      by (cases b) (auto simp: Let_def)
  qed
qed simp

lemma read_debugfs_wf:
  "lkbs_wf (ls_deadlk ls) \<Longrightarrow> read_debugfs_locks d ls = Some (d', ls', rv) \<Longrightarrow> lkbs_wf (ls_deadlk ls')"
  by (auto simp: read_debugfs_locks_def split: option.splits list.splits dest: read_lock_lines_wf)

lemma read_packed_wf: "lkbs_wf dk \<Longrightarrow> read_packed_locks d dk name n ls = (d', dk') \<Longrightarrow> lkbs_wf dk'"
proof (induction ls arbitrary: d dk)
  case (Cons l ls)
  obtain d1 dk1 where a: "dk_add_lock d dk name n (lock_in (big_endian d) l) = (d1, dk1)" by force
  show ?case using Cons.prems(2) Cons.IH [OF dk_add_lock_wf [OF Cons.prems(1) a]] a by simp
qed simp

lemma read_checkpoint_locks_wf:
  assumes "lkbs_wf dk" "read_checkpoint_locks d dk n name ls = Some (d', dk', rv)"
  shows "lkbs_wf dk'"
proof -
  obtain d1 dk1 b where g: "get_resource d dk name = Some (d1, dk1, b)"
    using assms(2) by (cases "get_resource d dk name") (auto simp: read_checkpoint_locks_def)
  obtain d2 dk2 where p: "read_packed_locks d1 dk1 name n ls = (d2, dk2)" by force
  have "lkbs_wf dk1" by (rule get_resource_wf [OF assms(1) g])
  then show ?thesis using assms(2) g p read_packed_wf [OF _ p] by (cases b) (auto simp: read_checkpoint_locks_def)
qed

lemma read_sections_wf: "lkbs_wf dk \<Longrightarrow> read_sections d dk n h = Some (d', dk') \<Longrightarrow> lkbs_wf dk'"
proof (induction d dk n h rule: read_sections.induct)
  case (1 d dk n h)
  obtain a d1 where i: "ckpt_try sa_end d Ckpt_iter_next = (a, d1)" by force
  obtain b d2 where r: "ckpt_try sa_ok d1 (Ckpt_read h (sa_id a)) = (b, d2)" by force
  show ?case
  proof (cases "sa_err a = SA_AIS_OK \<and> sa_extra a \<noteq> 0 \<and> sa_err b = SA_AIS_OK \<and>
      \<not> 40 * length (sa_locks b) + sa_extra b > 10485760 \<and>
      40 * length (sa_locks b) + sa_extra b \<noteq> 0 \<and> (40 * length (sa_locks b) + sa_extra b) mod 40 = 0")
    case True
    then obtain d3 dk3 rv where c: "read_checkpoint_locks d2 dk n (sa_id a) (sa_locks b) = Some (d3, dk3, rv)"
      "read_sections d3 dk3 n h = Some (d', dk')"
      using 1(5) i r unfolding read_sections.simps [of d] by (auto simp: Let_def split: option.splits)
    show ?thesis by (rule 1(3) [OF i [symmetric] _ _ r [symmetric] _ refl _ _ c(1) refl refl read_checkpoint_locks_wf [OF 1(4) c(1)] c(2)])
        (use True in auto)
  next
    case False
    then show ?thesis using 1(1,2,4,5) i r unfolding read_sections.simps [of d]
      by (auto simp: Let_def split: if_splits)
  qed
qed

lemma read_checkpoint_wf:
  "lkbs_wf (ls_deadlk ls) \<Longrightarrow> read_checkpoint d ls n = Some (d', ls') \<Longrightarrow> lkbs_wf (ls_deadlk ls')"
  by (auto simp: read_checkpoint_def Let_def split: if_splits prod.splits option.splits dest: read_sections_wf)

subsection \<open>The other operations\<close>

text \<open>Two states with the same resources and locks.\<close>

definition dk_lists :: "lockspace \<Rightarrow> dlm_rsb list \<times> dlm_lkb list" where
  "dk_lists ls = (dk_resources (ls_deadlk ls), dk_lkbs (ls_deadlk ls))"

lemma lists_wf: "dk_lists ls' = dk_lists ls \<Longrightarrow> lkbs_wf (ls_deadlk ls) \<Longrightarrow> lkbs_wf (ls_deadlk ls')"
  by (simp add: dk_lists_def lkbs_wf_def all_locks_def lkb_at_def)

lemma dk_unlink_lists: "dk_unlink d ls name = (d', ls', rv) \<Longrightarrow> dk_lists ls' = dk_lists ls"
  by (auto simp: dk_unlink_def dk_lists_def set_dk_def Let_def split: prod.splits if_splits)

lemma set_handle_lists [simp]: "dk_lists (set_dk (\<lambda>dk. dk\<lparr>dk_ckpt_handle := h\<rparr>) ls) = dk_lists ls"
  by (simp add: dk_lists_def set_dk_def)

lemma write_open_lists: "write_open d ls sz = Some (d', ls') \<Longrightarrow> dk_lists ls' = dk_lists ls"
proof (induction d ls sz rule: write_open.induct)
  case (1 d ls n t m)
  obtain a d1 where o: "ckpt_do sa_ok d (Ckpt_create (dk_ckpt_name ls (our_nodeid d)) t (n + 1) m) = (a, d1)" by force
  show ?case
  proof (cases "sa_err a = SA_AIS_OK")
    case True
    obtain d2 ex where w: "write_sections d1 (ls_deadlk ls) (sa_handle a) (dk_resources (ls_deadlk ls)) = Some (d2, ex)"
      using 1(2) o True unfolding write_open.simps [of d] by (auto split: option.splits)
    let ?ls = "set_dk (\<lambda>dk. dk\<lparr>dk_ckpt_handle := sa_handle a\<rparr>) ls"
    obtain d3 ls3 v where u: "dk_unlink (ckpt_once d2 (Ckpt_close (sa_handle a))) ?ls (dk_ckpt_name ls (our_nodeid d)) = (d3, ls3, v)"
      by (cases "dk_unlink (ckpt_once d2 (Ckpt_close (sa_handle a))) ?ls (dk_ckpt_name ls (our_nodeid d))") auto
    show ?thesis
    proof (cases ex)
      case False
      then show ?thesis using 1(2) o True w unfolding write_open.simps [of d] by auto
    next
      case ex: True
      then have "write_open d3 ls3 (n, t, m) = Some (d', ls')"
        using 1(2) o True w u unfolding write_open.simps [of d] by simp
      then have "dk_lists ls' = dk_lists ls3"
        using "1.IH" [OF o [symmetric] _ w refl _ u [symmetric] refl] True ex by simp
      then show ?thesis using dk_unlink_lists [OF u] by simp
    qed
  qed (use 1(2) o in \<open>simp add: write_open.simps [of d]\<close>)
qed

lemma write_checkpoint_lists: "write_checkpoint d ls = Some (d', ls') \<Longrightarrow> dk_lists ls' = dk_lists ls"
  by (auto simp: write_checkpoint_def Let_def split: if_splits prod.splits dest!: write_open_lists dk_unlink_lists)

lemma trans_locks_same: "trans_locks d dk is = (d', dk') \<Longrightarrow> same_locks dk dk'"
proof (induction "is" arbitrary: d dk)
  case (Cons i "is")
  obtain d1 dk1 b where g: "get_trans d dk (pl_xid (lkb_lock (lkb_at dk i))) = (d1, dk1, b)"
    by (cases "get_trans d dk (pl_xid (lkb_lock (lkb_at dk i)))") auto
  have s: "same_locks dk dk1" using g by (auto simp: get_trans_def split: option.splits prod.splits)
  let ?dk = "add_lkb_trans (pl_xid (lkb_lock (lkb_at dk1 i))) i dk1"
  let ?trs = "upd_tr (\<lambda>t. t\<lparr>tr_locks := i # tr_locks t\<rparr>) (pl_xid (lkb_lock (lkb_at dk1 i))) (dk_transactions dk1)"
  have "same_locks (dk1\<lparr>dk_transactions := ?trs\<rparr>) ?dk"
    unfolding add_lkb_trans_def by (rule same_locks_upd_lkb) (simp add: lkb_core_def)
  then have a: "same_locks dk ?dk" using same_locks_trans [OF s] by simp
  show ?case using Cons.prems Cons.IH [of d1 ?dk] g s same_locks_trans [OF a] by (cases b) auto
qed simp

lemma add_waitfor_same:
  assumes "add_waitfor d dk w g = Some (d', dk')"
  shows "same_locks dk dk'"
proof -
  have "same_locks dk (upd_lkb (\<lambda>lkb. lkb\<lparr>lkb_waitfor_trans := y\<rparr>) w (dk\<lparr>dk_transactions := trs\<rparr>))" for y trs
    using same_locks_upd_lkb [of "\<lambda>lkb. lkb\<lparr>lkb_waitfor_trans := y\<rparr>" "dk\<lparr>dk_transactions := trs\<rparr>" w]
    by (simp add: lkb_core_def)
  then show ?thesis using assms
    by (auto simp: add_waitfor_def split: option.splits bool.splits if_splits prod.splits)
qed

lemma waitfor_granted_same: "waitfor_granted d dk w gs = Some (d', dk') \<Longrightarrow> same_locks dk dk'"
proof (induction gs arbitrary: d dk)
  case (Cons g gs)
  then show ?case using add_waitfor_same same_locks_trans
    by (fastforce split: if_splits option.splits prod.splits)
qed simp

lemma waitfor_waiting_same: "waitfor_waiting d dk ws = Some (d', dk') \<Longrightarrow> same_locks dk dk'"
proof (induction ws arbitrary: d dk)
  case (Cons w ws)
  show ?case
  proof (cases "pl_status (lkb_lock (lkb_at dk w)) = DLM_LKSTS_GRANTED")
    case False
    then obtain r d1 dk1 where "Option.bind (lkb_rsb (lkb_at dk w)) (get_rsb dk) = Some r"
      "waitfor_granted d dk w (rsb_locks r) = Some (d1, dk1)" "waitfor_waiting d1 dk1 ws = Some (d', dk')"
      using Cons.prems by (auto split: option.splits)
    then show ?thesis using Cons.IH waitfor_granted_same same_locks_trans by blast
  qed (use Cons in simp)
qed simp

lemma set_trs_wf [simp]: "lkbs_wf (ls_deadlk (set_dk (\<lambda>dk. dk\<lparr>dk_transactions := f dk\<rparr>) ls)) = lkbs_wf (ls_deadlk ls)"
  by (simp add: set_dk_def)

lemma cancel_trans_wf: "lkbs_wf (ls_deadlk ls) \<Longrightarrow> cancel_trans d ls = (d', ls') \<Longrightarrow> lkbs_wf (ls_deadlk ls')"
  by (auto simp: cancel_trans_def split: option.splits prod.splits)

lemma find_deadlock_wf:
  assumes w: "lkbs_wf (ls_deadlk ls)" and f: "find_deadlock d ls = Some (d', ls')"
  shows "lkbs_wf (ls_deadlk ls')"
proof (cases "dk_resources (ls_deadlk ls) = [] \<or> dk_transactions (ls_deadlk ls) \<noteq> []")
  case False
  obtain d1 dk1 where c: "create_trans_list d (ls_deadlk ls) = (d1, dk1)" by force
  obtain d2 dk2 where g: "create_waitfor_graph d1 dk1 = Some (d2, dk2)"
    using f False c by (cases "create_waitfor_graph d1 dk1") (auto simp: find_deadlock_def)
  have "same_locks (ls_deadlk ls) dk2"
    using c g trans_locks_same waitfor_waiting_same same_locks_trans
    unfolding create_trans_list_def create_waitfor_graph_def by blast
  then have "lkbs_wf dk2" using lkbs_wf_same w by blast
  moreover obtain d3 ls3 where t: "cancel_trans d2 (ls\<lparr>ls_deadlk := dk2\<lparr>dk_transactions :=
      reduce_waitfor_graph_loop (dk_transactions dk2)\<rparr>\<rparr>) = (d3, ls3)" by force
  ultimately show ?thesis using f False c g cancel_trans_wf [OF _ t]
    by (auto simp: find_deadlock_def Let_def split: if_splits)
qed (use assms in \<open>auto simp: find_deadlock_def\<close>)

lemma run_deadlock_wf:
  "lkbs_wf (ls_deadlk ls) \<Longrightarrow> run_deadlock d ls = Some (d', ls') \<Longrightarrow> lkbs_wf (ls_deadlk ls')"
  by (auto simp: run_deadlock_def Let_def set_dk_def split: if_splits dest!: find_deadlock_wf [rotated])

lemma nodes_joined_lists:
  "nodes_joined d dk ns = (d', dk') \<Longrightarrow> dk_resources dk' = dk_resources dk \<and> dk_lkbs dk' = dk_lkbs dk"
proof (induction ns arbitrary: d dk)
  case (Cons n ns)
  then show ?case by (fastforce simp: dk_node_joined_def split: prod.splits option.splits)
qed simp

lemma purge_locks_wf: "lkbs_wf dk \<Longrightarrow> lkbs_wf (purge_locks n dk)"
proof -
  assume w: "lkbs_wf dk"
  have "concat (map (\<lambda>r. filter P (rsb_locks r)) rs) = filter P (concat (map rsb_locks rs))" for P rs
    by (induction rs) auto
  then have "all_locks (purge_locks n dk) = filter (\<lambda>i. lkb_home (lkb_at dk i) \<noteq> n) (all_locks dk)"
    by (simp add: all_locks_def purge_locks_def o_def)
  then show ?thesis using w by (auto simp: lkbs_wf_def purge_locks_def lkb_at_def o_def)
qed

subsection \<open>The handlers\<close>

text \<open>
  The messages and membership changes a daemon handles for a lockspace; between two of them time passes, other
  handlers run and the environment of the daemon changes.
\<close>

inductive dk_step :: "daemon \<times> lockspace \<Rightarrow> daemon \<times> lockspace \<Rightarrow> bool" where
  start: "receive_cycle_start d ls h = Some s \<Longrightarrow> dk_step (d, ls) s"
| ready: "receive_checkpoint_ready d ls h = Some s \<Longrightarrow> dk_step (d, ls) s"
| finish: "receive_cycle_end d ls h = s \<Longrightarrow> dk_step (d, ls) s"
| cancel: "dk_step (d, ls) (receive_cancel_lock d ls h, ls)"
| confchg: "deadlk_confchg d ls members left joined = Some s \<Longrightarrow> dk_step (d, ls) s"
| other: "ls_deadlk ls' = ls_deadlk ls \<Longrightarrow> dk_step (d, ls) (d', ls')"

definition dk_inv :: "daemon \<times> lockspace \<Rightarrow> bool" where
  "dk_inv s = lkbs_wf (ls_deadlk (snd s))"

lemma receive_cycle_start_wf:
  assumes w: "lkbs_wf (ls_deadlk ls)" and r: "receive_cycle_start d ls h = Some (d', ls')"
  shows "lkbs_wf (ls_deadlk ls')"
proof (cases "dk_cycle_running (ls_deadlk ls)")
  case False
  let ?ls = "set_dk (\<lambda>dk. dk\<lparr>dk_cycle_running := True, dk_cycle_start_time := now d,
    dk_nodes := map (\<lambda>n. n\<lparr>dn_in_cycle := True\<rparr>) (dk_nodes dk)\<rparr>) ls"
  obtain d1 ls1 rv where b: "read_debugfs_locks d ?ls = Some (d1, ls1, rv)"
    using r False by (cases "read_debugfs_locks d ?ls") (auto simp: receive_cycle_start_def)
  have w1: "lkbs_wf (ls_deadlk ls1)" by (rule read_debugfs_wf [OF _ b]) (use w in \<open>simp add: set_dk_def\<close>)
  then show ?thesis using r False b lists_wf [OF write_checkpoint_lists w1]
    by (auto simp: receive_cycle_start_def split: if_splits option.splits)
qed (use assms in \<open>simp add: receive_cycle_start_def\<close>)

lemma receive_ready_wf:
  assumes w: "lkbs_wf (ls_deadlk ls)" and r: "receive_checkpoint_ready d ls h = Some (d', ls')"
  shows "lkbs_wf (ls_deadlk ls')"
proof -
  obtain d1 ls1 where c: "read_checkpoint d ls (hd_nodeid h) = Some (d1, ls1)"
    using r by (cases "read_checkpoint d ls (hd_nodeid h)") (auto simp: receive_checkpoint_ready_def)
  have w1: "lkbs_wf (ls_deadlk ls1)" by (rule read_checkpoint_wf [OF w c])
  have "run_deadlock d1 (set_dk (\<lambda>dk. dk\<lparr>dk_nodes := map_first (\<lambda>n. dn_nodeid n = hd_nodeid h)
      (\<lambda>n. n\<lparr>dn_checkpoint_ready := True\<rparr>) (dk_nodes dk)\<rparr>) ls1) = Some (d', ls')"
    using r c by (simp add: receive_checkpoint_ready_def)
  then show ?thesis by (rule run_deadlock_wf [rotated]) (use w1 in \<open>simp add: set_dk_def\<close>)
qed

lemma receive_cycle_end_wf:
  assumes "lkbs_wf (ls_deadlk ls)" "receive_cycle_end d ls h = (d', ls')"
  shows "lkbs_wf (ls_deadlk ls')"
proof (cases "dk_cycle_running (ls_deadlk ls)")
  case True
  have "dk_resources (ls_deadlk ls') = []"
    using assms(2) True unfolding receive_cycle_end_def dk_unlink_checkpoint_def
    by (auto simp: Let_def set_dk_def free_transactions_def free_resources_def dk_lists_def
        split: prod.splits dest!: dk_unlink_lists)
  then show ?thesis by (simp add: lkbs_wf_def all_locks_def)
qed (use assms in \<open>simp add: receive_cycle_end_def\<close>)

lemma deadlk_confchg_wf:
  assumes w: "lkbs_wf (ls_deadlk ls)" and r: "deadlk_confchg d ls ms left joined = Some (d', ls')"
  shows "lkbs_wf (ls_deadlk ls')"
proof -
  have j: "lkbs_wf dk'" if "nodes_joined d dk ns = (d1, dk')" "lkbs_wf dk" for dk ns d1 dk'
    using that nodes_joined_lists [OF that(1)] by (simp add: lkbs_wf_def all_locks_def lkb_at_def)
  have l: "lkbs_wf (fold dk_node_left ns dk)" if "lkbs_wf dk" for ns dk
    using that by (induction ns arbitrary: dk) (auto simp: dk_node_left_def)
  have p: "lkbs_wf (fold purge_locks ns dk)" if "lkbs_wf dk" for ns dk
    using that by (induction ns arbitrary: dk) (auto intro: purge_locks_wf)
  show ?thesis
  proof (cases "dk_confchg_init (ls_deadlk ls)")
    case False
    obtain d1 dk1 where n: "nodes_joined d (ls_deadlk ls\<lparr>dk_confchg_init := True\<rparr>) ms = (d1, dk1)" by force
    have "lkbs_wf dk1" by (rule j [OF n]) (use w in simp)
    then show ?thesis using r w n False by (auto simp: deadlk_confchg_def split: if_splits)
  next
    case True
    obtain d1 dk1 where n: "nodes_joined d (ls_deadlk ls) joined = (d1, dk1)" by force
    have "lkbs_wf dk1" by (rule j [OF n w])
    then have "lkbs_wf (fold dk_node_left left dk1)" "lkbs_wf (fold purge_locks left (fold dk_node_left left dk1))"
      using l p by auto
    then show ?thesis using r w n True run_deadlock_wf [of "ls\<lparr>ls_deadlk := fold dk_node_left left dk1\<rparr>" d1 d' ls']
        run_deadlock_wf [of "ls\<lparr>ls_deadlk := fold purge_locks left (fold dk_node_left left dk1)\<rparr>" d1 d' ls']
      by (auto simp: deadlk_confchg_def Let_def set_dk_def split: if_splits)
  qed
qed

lemma dk_step_inv:
  assumes "dk_inv s" "dk_step s s'"
  shows "dk_inv s'"
  using assms(2,1)
proof cases
  case (start d ls h)
  then show ?thesis using assms(1) receive_cycle_start_wf by (cases s') (auto simp: dk_inv_def)
next
  case (ready d ls h)
  then show ?thesis using assms(1) receive_ready_wf by (cases s') (auto simp: dk_inv_def)
next
  case (finish d ls h)
  then show ?thesis using assms(1) receive_cycle_end_wf by (cases s') (auto simp: dk_inv_def)
next
  case (confchg d ls ms left joined)
  then show ?thesis using assms(1) deadlk_confchg_wf by (cases s') (auto simp: dk_inv_def)
qed (use assms(1) in \<open>auto simp: dk_inv_def\<close>)

interpretation dk_sys: invariant_system "\<lambda>s. dk_resources (ls_deadlk (snd s)) = []" dk_step dk_inv
  by unfold_locales (simp add: dk_inv_def lkbs_wf_def all_locks_def, rule dk_step_inv)

text \<open>
  C21. In every state the deadlock handlers reach from one without resources, the lists are consistent: a lock is
  on the list of exactly one resource, the one it points to, and no two resources have the same name.
\<close>

theorem deadlk_lists_consistent:
  assumes "dk_resources (ls_deadlk ls) = []" "dk_step\<^sup>*\<^sup>* (d, ls) (d', ls')"
  shows "lkbs_wf (ls_deadlk ls')"
  using dk_sys.reachable_inv [of "(d, ls)" "(d', ls')"] assms by (simp add: dk_inv_def)

definition ex_debugfs :: daemon where
  "ex_debugfs = (ex_daemon 1 False)\<lparr>ckpt_answers := [sa_ok\<lparr>sa_err := SA_AIS_ERR_EXIST\<rparr>], debugfs_locks := (\<lambda>_. Some [''id'',
     ''2 0 0 9 7 0 0 2 5 -1 0 0 1 '' @ [CHR 0x22] @ ''a'' @ [CHR 0x22],
     ''3 0 0 9 8 0 0 1 -1 5 0 0 1 '' @ [CHR 0x22] @ ''a'' @ [CHR 0x22]])\<rparr>"

theorem deadlk_lists_consistent_witness:
  "case receive_cycle_start ex_debugfs (ex_ls []) hd_zero of
     None \<Rightarrow> False
   | Some (d', ls') \<Rightarrow> all_locks (ls_deadlk ls') = [1, 0] \<and> lkbs_wf (ls_deadlk ls')"
proof -
  have "case receive_cycle_start ex_debugfs (ex_ls []) hd_zero of
     None \<Rightarrow> False
   | Some (d', ls') \<Rightarrow> all_locks (ls_deadlk ls') = [1, 0]" by code_simp
  then obtain d' ls' where r: "receive_cycle_start ex_debugfs (ex_ls []) hd_zero = Some (d', ls')"
    "all_locks (ls_deadlk ls') = [1, 0]" by (auto split: option.splits)
  have "dk_resources (ls_deadlk (ex_ls [])) = []" by (simp add: state_defs dk_zero_def)
  moreover have "dk_step\<^sup>*\<^sup>* (ex_debugfs, ex_ls []) (d', ls')" using dk_step.start [OF r(1)] by blast
  ultimately have "lkbs_wf (ls_deadlk ls')" by (rule deadlk_lists_consistent)
  then show ?thesis using r by simp
qed

end
