(* ===== verification/Cpg_History.thy ===== *)
theory Cpg_History
  imports Plock_Ckpt
begin

text \<open>
  What a lockspace remembers of the nodes it has seen, and the conditions recovery waits for (\<^verbatim>\<open>cpg.c\<close>): failed
  nodes must be fenced after the time they were added, the quorum service must have seen them go, and the file
  system must have been told.  The cluster services behind these conditions are those of \<^verbatim>\<open>member_cman.c\<close>.
\<close>

subsection \<open>Cluster services\<close>

text \<open>
  What fenced answers for a node: a return value and the time the node was last fenced.  On an error the caller's
  variable keeps its value \<open>old\<close>.
\<close>

definition fence_node_time :: "daemon \<Rightarrow> nodeid \<Rightarrow> u64 \<Rightarrow> int \<times> u64" where
  "fence_node_time d nodeid old = (case fenced_node_info d nodeid of (rv, t) \<Rightarrow>
     if rv < 0 then (rv, old) else (0, t))"

text \<open>The number of nodes waiting to be fenced; the count is meaningful only with return value 0.\<close>

definition fence_in_progress :: "daemon \<Rightarrow> int \<times> s32" where
  "fence_in_progress d = (case fenced_domain_info d of (rv, count) \<Rightarrow>
     if rv < 0 then (rv, 0) else (0, count))"

definition is_member :: "nodeid list \<Rightarrow> nodeid \<Rightarrow> bool" where
  "is_member node_list nodeid = (nodeid \<in> set node_list)"

definition is_cluster_member :: "daemon \<Rightarrow> nodeid \<Rightarrow> bool" where
  "is_cluster_member d nodeid = is_member (quorum_nodes d) nodeid"

definition kernel_op :: "daemon \<Rightarrow> kernel_op \<Rightarrow> daemon" where
  "kernel_op d op = d\<lparr>kernel_ops := kernel_ops d @ [op]\<rparr>"

definition kick_node_from_cluster :: "daemon \<Rightarrow> nodeid \<Rightarrow> daemon" where
  "kick_node_from_cluster d nodeid =
     (if nodeid = 0 then kernel_op d Cfg_try_shutdown else kernel_op d (Cfg_kill_node nodeid))"

subsection \<open>Node history\<close>

definition find_memb :: "change \<Rightarrow> nodeid \<Rightarrow> member option" where
  "find_memb cg nodeid = find (\<lambda>m. mb_nodeid m = nodeid) (cg_members cg)"

definition get_node_history :: "lockspace \<Rightarrow> nodeid \<Rightarrow> node option" where
  "get_node_history ls nodeid = find (\<lambda>n. nd_nodeid n = nodeid) (ls_node_history ls)"

definition upd_history :: "(node \<Rightarrow> node) \<Rightarrow> nodeid \<Rightarrow> lockspace \<Rightarrow> lockspace" where
  "upd_history f nodeid ls = ls\<lparr>ls_node_history := map_first (\<lambda>n. nd_nodeid n = nodeid) f (ls_node_history ls)\<rparr>"

definition node_history_init :: "daemon \<Rightarrow> lockspace \<Rightarrow> nodeid \<Rightarrow> u32 \<Rightarrow> daemon \<times> lockspace" where
  "node_history_init d ls nodeid seq = (case get_node_history ls nodeid of
       Some _ \<Rightarrow> (d, upd_history (\<lambda>n. n\<lparr>nd_added_seq := seq\<rparr>) nodeid ls)
     | None \<Rightarrow> (case malloc (dmem d) of
         (None, m) \<Rightarrow> (d\<lparr>dmem := m\<rparr>, ls)
       | (Some _, m) \<Rightarrow> (d\<lparr>dmem := m\<rparr>, ls\<lparr>ls_node_history := ls_node_history ls @
           [node_zero\<lparr>nd_nodeid := nodeid, nd_added_seq := seq\<rparr>]\<rparr>)))"

definition node_history_start :: "daemon \<Rightarrow> lockspace \<Rightarrow> nodeid \<Rightarrow> lockspace" where
  "node_history_start d ls nodeid = upd_history (\<lambda>n. n\<lparr>nd_add_time := word_of_int (time_now d)\<rparr>) nodeid ls"

definition node_history_left :: "lockspace \<Rightarrow> nodeid \<Rightarrow> u32 \<Rightarrow> lockspace" where
  "node_history_left ls nodeid seq = upd_history (\<lambda>n. n\<lparr>nd_add_time := 0, nd_removed_seq := seq\<rparr>) nodeid ls"

definition fail_node :: "daemon \<Rightarrow> bool \<Rightarrow> u32 \<Rightarrow> int \<Rightarrow> node \<Rightarrow> node" where
  "fail_node d fs_registered seq reason n =
     (let n = (if cfgd_enable_fencing d \<and> nd_add_time n \<noteq> 0
               then n\<lparr>nd_check_fencing := True, nd_fence_time := 0, nd_fence_queries := 0\<rparr> else n);
          n = (if cfgd_enable_quorum d \<and> \<not> cfgd_enable_fencing d then n\<lparr>nd_check_quorum := True\<rparr> else n);
          n = (if fs_registered then n\<lparr>nd_check_fs := True\<rparr> else n)
      in n\<lparr>nd_removed_seq := seq, nd_failed_reason := reason\<rparr>)"

definition node_history_fail :: "daemon \<Rightarrow> lockspace \<Rightarrow> nodeid \<Rightarrow> u32 \<Rightarrow> int \<Rightarrow> lockspace" where
  "node_history_fail d ls nodeid seq reason = upd_history (fail_node d (ls_fs_registered ls) seq reason) nodeid ls"

subsection \<open>The conditions\<close>

text \<open>
  The loop over the history.  \<open>old\<close> is the variable \<^verbatim>\<open>last_fenced_time\<close>, which is not initialised and keeps its
  value when fenced answers with an error.  The result counts the nodes that are not fenced yet.
\<close>

fun check_fencing_loop :: "daemon \<Rightarrow> u64 \<Rightarrow> node list \<Rightarrow> node list \<times> nat" where
  "check_fencing_loop d old [] = ([], 0)"
| "check_fencing_loop d old (n # ns) =
     (if \<not> nd_check_fencing n then (case check_fencing_loop d old ns of (ns', w) \<Rightarrow> (n # ns', w))
      else (case fence_node_time d (nd_nodeid n) old of (_, old) \<Rightarrow>
        if old > nd_add_time n then
          (case check_fencing_loop d old ns of (ns', w) \<Rightarrow>
             (n\<lparr>nd_check_fencing := False, nd_add_time := 0, nd_fence_time := old\<rparr> # ns', w))
        else
          (case check_fencing_loop d old ns of (ns', w) \<Rightarrow>
             ((if nd_fence_queries n = 0 \<or> nd_fence_time n \<noteq> old
               then n\<lparr>nd_fence_queries := nd_fence_queries n + 1, nd_fence_time := old\<rparr> else n) # ns', w + 1))))"

definition check_fencing_done :: "daemon \<Rightarrow> lockspace \<Rightarrow> lockspace \<times> bool" where
  "check_fencing_done d ls =
     (if \<not> cfgd_enable_fencing d then (ls, True)
      else (case check_fencing_loop d (fence_stack d) (ls_node_history ls) of (ns, wait_count) \<Rightarrow>
        let ls = ls\<lparr>ls_node_history := ns\<rparr> in
        if wait_count \<noteq> 0 then (ls, False)
        else (case fence_in_progress d of (rv, in_progress) \<Rightarrow> (ls, \<not> (rv < 0) \<and> in_progress = 0))))"

definition clear_quorum :: "daemon \<Rightarrow> node \<Rightarrow> node" where
  "clear_quorum d n =
     (if nd_check_quorum n \<and> \<not> is_cluster_member d (nd_nodeid n) then n\<lparr>nd_check_quorum := False\<rparr> else n)"

definition check_quorum_done :: "daemon \<Rightarrow> lockspace \<Rightarrow> lockspace \<times> bool" where
  "check_quorum_done d ls =
     (if \<not> cfgd_enable_quorum d then (ls, True)
      else let ns = map (clear_quorum d) (ls_node_history ls);
               ls = ls\<lparr>ls_node_history := ns\<rparr>
           in (ls, \<not> (\<exists>n\<in>set ns. nd_check_quorum n) \<and> cluster_quorate d))"

definition clear_fs :: "node \<Rightarrow> node" where
  "clear_fs n = (if nd_check_fs n \<and> nd_fs_notified n then n\<lparr>nd_check_fs := False\<rparr> else n)"

definition check_fs_done :: "lockspace \<Rightarrow> lockspace \<times> bool" where
  "check_fs_done ls =
     (if \<not> ls_fs_registered ls then (ls, True)
      else let ns = map clear_fs (ls_node_history ls)
           in (ls\<lparr>ls_node_history := ns\<rparr>, \<not> (\<exists>n\<in>set ns. nd_check_fs n)))"

definition wait_conditions_done :: "daemon \<Rightarrow> lockspace \<Rightarrow> daemon \<times> lockspace \<times> bool" where
  "wait_conditions_done d ls = (case check_fencing_done d ls of (ls, fencing) \<Rightarrow>
     if \<not> fencing then (d\<lparr>poll_fencing := True\<rparr>, ls, False)
     else let d = d\<lparr>poll_fencing := False\<rparr> in case check_quorum_done d ls of (ls, quorum) \<Rightarrow>
       if \<not> quorum then (d\<lparr>poll_quorum := True\<rparr>, ls, False)
       else let d = d\<lparr>poll_quorum := False\<rparr> in case check_fs_done ls of (ls, fs) \<Rightarrow>
         if \<not> fs then (d\<lparr>poll_fs := True\<rparr>, ls, False)
         else (d\<lparr>poll_fs := False\<rparr>, ls, True))"

subsection \<open>The kernel\<close>

text \<open>\<^verbatim>\<open>MAX_NODES\<close>, the size of the arrays \<^verbatim>\<open>member_ids\<close> and \<^verbatim>\<open>renew_ids\<close>.\<close>

abbreviation (input) MAX_NODES :: nat where "MAX_NODES \<equiv> 128"

definition format_member_ids :: "change \<Rightarrow> nodeid list" where
  "format_member_ids cg = map mb_nodeid (cg_members cg)"

text \<open>One entry for every removal of a current member in an older change.\<close>

definition format_renew_ids :: "change \<Rightarrow> change list \<Rightarrow> nodeid list" where
  "format_renew_ids startcg older =
     concat (map (\<lambda>memb. concat (map (\<lambda>cg.
       map (\<lambda>left. mb_nodeid memb) (filter (\<lambda>left. mb_nodeid memb = mb_nodeid left) (cg_removed cg))) older))
       (cg_members startcg))"

definition stop_kernel :: "daemon \<Rightarrow> lockspace \<Rightarrow> daemon \<times> lockspace" where
  "stop_kernel d ls =
     (if ls_kernel_stopped ls then (d, ls)
      else (kernel_op d (Set_sysfs_control (ls_name ls) 0), ls\<lparr>ls_kernel_stopped := True\<rparr>))"

text \<open>Called with a pending change.  \<open>None\<close>: the ids do not fit the arrays.\<close>

definition start_kernel :: "daemon \<Rightarrow> lockspace \<Rightarrow> (daemon \<times> lockspace) option" where
  "start_kernel d ls = (case ls_changes ls of
       [] \<Rightarrow> None
     | cg # older \<Rightarrow>
         if \<not> ls_kernel_stopped ls then Some (d, ls)
         else let d = (if ls_joining ls then kernel_op d (Set_sysfs_id (ls_name ls) (ls_global_id ls)) else d);
                  member_ids = format_member_ids cg;
                  renew_ids = format_renew_ids cg older
              in if length member_ids > MAX_NODES \<or> length renew_ids > MAX_NODES then None
                 else let d = kernel_op d (Set_configfs_members (ls_name ls) member_ids renew_ids);
                          d = kernel_op d (Set_sysfs_control (ls_name ls) 1);
                          ls' = ls\<lparr>ls_kernel_stopped := False\<rparr>
                      in if ls_joining ls then
                           Some (kernel_op d (Set_sysfs_event_done (ls_name ls) 0), ls'\<lparr>ls_joining := False\<rparr>)
                         else Some (d, ls'))"

end
