(* ===== verification/Cpg_Change.thy ===== *)
theory Cpg_Change
  imports Cpg_History Deadlock_Cycle
begin

text \<open>
  Lockspace membership (\<^verbatim>\<open>cpg.c\<close>).  Every configuration change of a lockspace's process group becomes a
  \<open>change\<close>; the newest is the first of \<open>ls_changes\<close>.  It waits for the conditions of \<open>Cpg_History\<close>, then for a
  start message from every member, then starts the kernel and arranges the transfer of the plock state.  The
  handlers return \<open>None\<close> where the C code has undefined behaviour: arrays overrun by too many ids, a message body
  shorter than its count says, a failed allocation that is dereferenced.
\<close>

subsection \<open>Applying a change\<close>

definition wait_messages_done :: "change \<Rightarrow> bool" where
  "wait_messages_done cg = (\<forall>memb\<in>set (cg_members cg). mb_start memb)"

text \<open>Sequence numbers and start counts skip 0 when they wrap.\<close>

definition next_seq :: "u32 \<Rightarrow> u32" where
  "next_seq n = (let n = n + 1 in if n = 0 then n + 1 else n)"

text \<open>The loop over the older changes; the last one gives the combined sequence number.\<close>

definition cleanup_changes :: "lockspace \<Rightarrow> lockspace" where
  "cleanup_changes ls = (case ls_changes ls of
       [] \<Rightarrow> ls
     | cg # older \<Rightarrow>
         let cg = cg\<lparr>cg_combined_seq := cg_seq cg\<rparr>
         in ls\<lparr>ls_changes := [], ls_started_count := next_seq (ls_started_count ls),
               ls_started_change := Some (fold (\<lambda>c cg. cg\<lparr>cg_combined_seq := cg_seq c\<rparr>) older cg)\<rparr>)"

fun low_plock_node :: "member list \<Rightarrow> nodeid \<Rightarrow> nodeid" where
  "low_plock_node [] low = low"
| "low_plock_node (memb # ms) low = low_plock_node ms
     (if and (mb_start_flags memb) DLM_MFLG_HAVEPLOCK = 0 then low
      else if low = 0 \<or> mb_nodeid memb <s low then mb_nodeid memb else low)"

definition set_plock_ckpt_node :: "daemon \<Rightarrow> lockspace \<Rightarrow> change \<Rightarrow> daemon \<times> lockspace" where
  "set_plock_ckpt_node d ls cg =
     (let low = low_plock_node (cg_members cg) 0;
          (d, ls) = (if ls_plock_ckpt_node ls = our_nodeid d \<and> low \<noteq> our_nodeid d
                     then close_plock_checkpoint d ls else (d, ls))
      in (d, ls\<lparr>ls_plock_ckpt_node := low\<rparr>))"

definition info_flags :: "lockspace \<Rightarrow> u32" where
  "info_flags ls = or (if ls_joining ls then DLM_MFLG_JOINING else 0)
                      (if ls_need_plocks ls then 0 else DLM_MFLG_HAVEPLOCK)"

text \<open>
  \<^verbatim>\<open>send_info\<close> for the first change.  The buffer has room for \<^verbatim>\<open>member_count\<close> ids, zeroed; \<open>None\<close> when there are
  more members.
\<close>

definition send_info :: "daemon \<Rightarrow> lockspace \<Rightarrow> u16 \<Rightarrow> daemon option" where
  "send_info d ls type = (case ls_changes ls of
       [] \<Rightarrow> None
     | cg # _ \<Rightarrow> (case malloc (dmem d) of
         (None, m) \<Rightarrow> Some (d\<lparr>dmem := m\<rparr>)
       | (Some _, m) \<Rightarrow>
           if length (cg_members cg) > unat (cg_member_count cg) then None
           else let li = \<lparr>li_ls_info_size = 32, li_id_info_size = 4, li_id_info_count = cg_member_count cg,
                          li_started_count = ls_started_count ls, li_member_count = cg_member_count cg,
                          li_joined_count = cg_joined_count cg, li_remove_count = cg_remove_count cg,
                          li_failed_count = cg_failed_count cg\<rparr>;
                    ids = map (cpu_to_le32 (big_endian d)) (format_member_ids cg) @
                          replicate (unat (cg_member_count cg) - length (cg_members cg)) 0
                in Some (dlm_send_message (d\<lparr>dmem := m\<rparr>) ls
                     (hd_zero\<lparr>hd_type := type, hd_msgdata := cg_seq cg, hd_flags := info_flags ls\<rparr>)
                     (Body_ls_info (ls_info_out (big_endian d) li) ids))))"

definition send_start :: "daemon \<Rightarrow> lockspace \<Rightarrow> daemon option" where
  "send_start d ls = send_info d ls DLM_MSG_START"

definition send_plocks_stored :: "daemon \<Rightarrow> lockspace \<Rightarrow> daemon option" where
  "send_plocks_stored d ls = send_info d ls DLM_MSG_PLOCKS_STORED"

definition nodes_added :: "lockspace \<Rightarrow> bool" where
  "nodes_added ls = (\<exists>cg\<in>set (ls_changes ls). cg_joined_count cg \<noteq> 0)"

text \<open>The end of \<^verbatim>\<open>prepare_plocks\<close>: this node is the checkpoint node.\<close>

definition publish_plocks :: "daemon \<Rightarrow> lockspace \<Rightarrow> (daemon \<times> lockspace) option" where
  "publish_plocks d ls =
     (case (if nodes_added ls then store_plocks d ls else Some (d, ls)) of
        None \<Rightarrow> None
      | Some (d, ls) \<Rightarrow> map_option (\<lambda>d. (d, ls)) (send_plocks_stored d ls))"

definition prepare_plocks :: "daemon \<Rightarrow> lockspace \<Rightarrow> (daemon \<times> lockspace) option" where
  "prepare_plocks d ls = (case ls_changes ls of
       [] \<Rightarrow> None
     | cg # _ \<Rightarrow>
         if \<not> cfgd_enable_plock d then Some (d, ls)
         else if cg_member_count cg = 1 then
           Some (d, ls\<lparr>ls_plock_ckpt_node := our_nodeid d, ls_need_plocks := False\<rparr>)
         else (case set_plock_ckpt_node d ls cg of (d, ls) \<Rightarrow>
           if ls_plock_ckpt_node ls = 0 then Some (d, ls\<lparr>ls_need_plocks := False, ls_save_plocks := False\<rparr>)
           else if ls_need_plocks ls then Some (d, ls\<lparr>ls_save_plocks := True\<rparr>)
           else if ls_plock_ckpt_node ls \<noteq> our_nodeid d then Some (d, ls)
           else publish_plocks d ls))"

definition set_cg_state :: "cg_state \<Rightarrow> lockspace \<Rightarrow> lockspace" where
  "set_cg_state st ls = ls\<lparr>ls_changes := (case ls_changes ls of
     [] \<Rightarrow> [] | cg # older \<Rightarrow> cg\<lparr>cg_state := st\<rparr> # older)\<rparr>"

definition apply_changes :: "daemon \<Rightarrow> lockspace \<Rightarrow> (daemon \<times> lockspace) option" where
  "apply_changes d ls = (case ls_changes ls of
       [] \<Rightarrow> Some (d, ls)
     | cg # _ \<Rightarrow> (case cg_state cg of
         CGST_WAIT_CONDITIONS \<Rightarrow> (case wait_conditions_done d ls of (d, ls, ok) \<Rightarrow>
           if ok then map_option (\<lambda>d. (d, set_cg_state CGST_WAIT_MESSAGES ls)) (send_start d ls)
           else Some (d, ls))
       | CGST_WAIT_MESSAGES \<Rightarrow>
           if wait_messages_done cg then (case start_kernel d ls of
               None \<Rightarrow> None
             | Some (d, ls) \<Rightarrow> (case prepare_plocks d ls of
                 None \<Rightarrow> None
               | Some (d, ls) \<Rightarrow> Some (d, cleanup_changes ls)))
           else Some (d, ls)))"

fun process_lockspace_changes :: "daemon \<Rightarrow> lockspace list \<Rightarrow> (daemon \<times> lockspace list) option" where
  "process_lockspace_changes d [] = Some (d, [])"
| "process_lockspace_changes d (ls # lss) = (case apply_changes d ls of
       None \<Rightarrow> None
     | Some (d, ls) \<Rightarrow> map_option (\<lambda>(d, lss). (d, ls # lss)) (process_lockspace_changes d lss))"

subsection \<open>Start messages\<close>

definition get_id_struct :: "nodeid list \<Rightarrow> nodeid \<Rightarrow> bool" where
  "get_id_struct ids nodeid = (nodeid \<in> set ids)"

definition match_change :: "daemon \<Rightarrow> change \<Rightarrow> dlm_header \<Rightarrow> ls_info \<Rightarrow> nodeid list \<Rightarrow> bool" where
  "match_change d cg h li ids =
     (if \<not> get_id_struct ids (our_nodeid d) then False
      else if find_memb cg (hd_nodeid h) = None then False
      else if li_member_count li \<noteq> cg_member_count cg \<or> li_joined_count li \<noteq> cg_joined_count cg \<or>
              li_remove_count li \<noteq> cg_remove_count cg \<or> li_failed_count li \<noteq> cg_failed_count cg then False
      else \<forall>id\<in>set ids. find_memb cg id \<noteq> None)"

text \<open>The position of the oldest change that matches; the changes are stored newest first.\<close>

definition find_change :: "daemon \<Rightarrow> lockspace \<Rightarrow> dlm_header \<Rightarrow> ls_info \<Rightarrow> nodeid list \<Rightarrow> nat option" where
  "find_change d ls h li ids =
     find (\<lambda>i. match_change d (ls_changes ls ! i) h li ids) (rev [0..<length (ls_changes ls)])"

definition is_added :: "lockspace \<Rightarrow> nodeid \<Rightarrow> bool" where
  "is_added ls nodeid = (\<exists>cg\<in>set (ls_changes ls). case find_memb cg nodeid of
     None \<Rightarrow> False | Some memb \<Rightarrow> mb_added memb)"

text \<open>
  The body of a start or plocks-stored message after conversion.  \<open>None\<close>: the ids are not laid out as the
  code walks them, or there are fewer than the count says.
\<close>

definition read_ls_info :: "daemon \<Rightarrow> body \<Rightarrow> (ls_info \<times> nodeid list) option" where
  "read_ls_info d b = (case body_ls_info b of (li, ids) \<Rightarrow>
     let li = ls_info_in (big_endian d) li; n = unat (li_id_info_count li) in
     if n \<noteq> 0 \<and> li_id_info_size li \<noteq> 4 \<or> n > length ids then None
     else Some (li, take n (ids_in (big_endian d) li ids)))"

definition upd_memb :: "(member \<Rightarrow> member) \<Rightarrow> nodeid \<Rightarrow> change \<Rightarrow> change" where
  "upd_memb f nodeid cg = cg\<lparr>cg_members := map_first (\<lambda>m. mb_nodeid m = nodeid) f (cg_members cg)\<rparr>"

definition upd_change :: "nat \<Rightarrow> (change \<Rightarrow> change) \<Rightarrow> lockspace \<Rightarrow> lockspace" where
  "upd_change i f ls = ls\<lparr>ls_changes := (ls_changes ls)[i := f (ls_changes ls ! i)]\<rparr>"

definition receive_start :: "daemon \<Rightarrow> lockspace \<Rightarrow> dlm_header \<Rightarrow> body \<Rightarrow> (daemon \<times> lockspace) option" where
  "receive_start d ls h b = (case read_ls_info d b of
       None \<Rightarrow> None
     | Some (li, ids) \<Rightarrow> Some (d, case find_change d ls h li ids of
         None \<Rightarrow> ls
       | Some i \<Rightarrow>
           let nodeid = hd_nodeid h;
               ls = upd_change i (upd_memb (\<lambda>m. m\<lparr>mb_start_flags := hd_flags h\<rparr>) nodeid) ls
           in if is_added ls nodeid \<and> li_started_count li \<noteq> 0
              then upd_change i (upd_memb (\<lambda>m. m\<lparr>mb_disallowed := True\<rparr>) nodeid) ls
              else upd_change i (upd_memb (\<lambda>m. m\<lparr>mb_start := True\<rparr>) nodeid) (node_history_start d ls nodeid)))"

definition receive_plocks_stored ::
  "daemon \<Rightarrow> lockspace \<Rightarrow> dlm_header \<Rightarrow> body \<Rightarrow> (daemon \<times> lockspace) option"
where
  "receive_plocks_stored d ls h b =
     (if \<not> ls_need_plocks ls then Some (d, ls)
      else case ls_started_change ls of
        None \<Rightarrow> Some (d, ls)
      | Some cg \<Rightarrow>
          if ls_changes ls \<noteq> [] then Some (d, ls)
          else (case read_ls_info d b of
              None \<Rightarrow> None
            | Some (li, ids) \<Rightarrow>
                if \<not> match_change d cg h li ids then Some (d, ls)
                else (case retrieve_plocks d ls of
                    None \<Rightarrow> None
                  | Some (d, ls) \<Rightarrow> (case process_saved_plocks d ls of (d, ls) \<Rightarrow>
                      Some (d, ls\<lparr>ls_need_plocks := False, ls_save_plocks := False\<rparr>)))))"

subsection \<open>Configuration changes\<close>

text \<open>Why a process left the group (\<^verbatim>\<open>cpg_reason_t\<close> of corosync).\<close>

abbreviation (input) CPG_REASON_JOIN :: int where "CPG_REASON_JOIN \<equiv> 1"
abbreviation (input) CPG_REASON_LEAVE :: int where "CPG_REASON_LEAVE \<equiv> 2"
abbreviation (input) CPG_REASON_NODEDOWN :: int where "CPG_REASON_NODEDOWN \<equiv> 3"
abbreviation (input) CPG_REASON_NODEUP :: int where "CPG_REASON_NODEUP \<equiv> 4"
abbreviation (input) CPG_REASON_PROCDOWN :: int where "CPG_REASON_PROCDOWN \<equiv> 5"

text \<open>The three loops of \<^verbatim>\<open>add_change\<close>; the flag in the result tells that the loop ran to its end.\<close>

fun add_members :: "daemon \<Rightarrow> change \<Rightarrow> nodeid list \<Rightarrow> daemon \<times> change \<times> bool" where
  "add_members d cg [] = (d, cg, True)"
| "add_members d cg (n # ns) = (case malloc (dmem d) of
       (None, m) \<Rightarrow> (d\<lparr>dmem := m\<rparr>, cg, False)
     | (Some _, m) \<Rightarrow>
         add_members (d\<lparr>dmem := m\<rparr>) (cg\<lparr>cg_members := cg_members cg @ [memb_zero\<lparr>mb_nodeid := n\<rparr>]\<rparr>) ns)"

fun add_removed ::
  "daemon \<Rightarrow> lockspace \<Rightarrow> change \<Rightarrow> (nodeid \<times> int) list \<Rightarrow> daemon \<times> lockspace \<times> change \<times> bool"
where
  "add_removed d ls cg [] = (d, ls, cg, True)"
| "add_removed d ls cg ((n, reason) # ns) = (case malloc (dmem d) of
       (None, m) \<Rightarrow> (d\<lparr>dmem := m\<rparr>, ls, cg, False)
     | (Some _, m) \<Rightarrow>
         let d = d\<lparr>dmem := m\<rparr>;
             failed = (reason = CPG_REASON_NODEDOWN \<or> reason = CPG_REASON_PROCDOWN);
             cg = (if failed then cg\<lparr>cg_failed_count := cg_failed_count cg + 1\<rparr> else cg);
             cg = cg\<lparr>cg_removed := cg_removed cg @ [memb_zero\<lparr>mb_nodeid := n, mb_failed := failed\<rparr>]\<rparr>;
             ls = (if failed then node_history_fail d ls n (cg_seq cg) reason else node_history_left ls n (cg_seq cg));
             d = (if reason = CPG_REASON_PROCDOWN then kick_node_from_cluster d n else d)
         in add_removed d ls cg ns)"

fun add_joined ::
  "daemon \<Rightarrow> lockspace \<Rightarrow> change \<Rightarrow> nodeid list \<Rightarrow> daemon \<times> lockspace \<times> change \<times> bool"
where
  "add_joined d ls cg [] = (d, ls, cg, True)"
| "add_joined d ls cg (n # ns) =
     (if find_memb cg n = None then (d, ls, cg, False)
      else let cg = upd_memb (\<lambda>m. m\<lparr>mb_added := True\<rparr>) n cg in
        if n = our_nodeid d then add_joined d ls (cg\<lparr>cg_we_joined := True\<rparr>) ns
        else (case node_history_init d ls n (cg_seq cg) of (d, ls) \<Rightarrow> add_joined d ls cg ns))"

fun init_members :: "daemon \<Rightarrow> lockspace \<Rightarrow> u32 \<Rightarrow> member list \<Rightarrow> daemon \<times> lockspace" where
  "init_members d ls seq [] = (d, ls)"
| "init_members d ls seq (memb # ms) = (case node_history_init d ls (mb_nodeid memb) seq of (d, ls) \<Rightarrow>
     init_members d ls seq ms)"

definition change_zero :: change where
  "change_zero = \<lparr>cg_members = [], cg_removed = [], cg_member_count = 0, cg_joined_count = 0, cg_remove_count = 0,
     cg_failed_count = 0, cg_state = CGST_WAIT_CONDITIONS, cg_we_joined = False, cg_seq = 0, cg_combined_seq = 0\<rparr>"

text \<open>
  The result carries the new change, or the error.  \<open>None\<close>: without memory for the change itself the failure
  path frees the members of a null pointer.
\<close>

definition add_change ::
  "daemon \<Rightarrow> lockspace \<Rightarrow> nodeid list \<Rightarrow> (nodeid \<times> int) list \<Rightarrow> nodeid list \<Rightarrow>
    (daemon \<times> lockspace \<times> (int + change)) option"
where
  "add_change d ls member_list left_list joined_list = (case malloc (dmem d) of
       (None, m) \<Rightarrow> None
     | (Some _, m) \<Rightarrow>
         let d = d\<lparr>dmem := m\<rparr>;
             seq = next_seq (ls_change_seq ls);
             ls = ls\<lparr>ls_change_seq := seq\<rparr>;
             cg = change_zero\<lparr>cg_seq := seq, cg_member_count := of_nat (length member_list),
                    cg_joined_count := of_nat (length joined_list), cg_remove_count := of_nat (length left_list)\<rparr>
         in case add_members d cg member_list of (d, cg, ok) \<Rightarrow>
              if \<not> ok then Some (d, ls, Inl (- ENOMEM))
              else case add_removed d ls cg left_list of (d, ls, cg, ok) \<Rightarrow>
                if \<not> ok then Some (d, ls, Inl (- ENOMEM))
                else case add_joined d ls cg joined_list of (d, ls, cg, ok) \<Rightarrow>
                  if \<not> ok then Some (d, ls, Inl (- ENOENT))
                  else case (if cg_we_joined cg then init_members d ls (cg_seq cg) (cg_members cg) else (d, ls)) of
                    (d, ls) \<Rightarrow> Some (d, ls\<lparr>ls_changes := cg # ls_changes ls\<rparr>, Inr cg))"

definition we_left :: "daemon \<Rightarrow> (nodeid \<times> int) list \<Rightarrow> bool" where
  "we_left d left_list = (our_nodeid d \<in> fst ` set left_list)"

text \<open>The final callback of a lockspace; the lockspace is freed afterwards.\<close>

definition confchg_leave :: "daemon \<Rightarrow> lockspace \<Rightarrow> daemon" where
  "confchg_leave d ls = (case stop_kernel d ls of (d, ls) \<Rightarrow>
     let d = kernel_op d (Set_configfs_members (ls_name ls) [] []);
         d = kernel_op d (Set_sysfs_event_done (ls_name ls) 0);
         d = kernel_op d (Cpg_finalize (ls_cpg_handle ls));
         d = kernel_op d (Client_dead (ls_cpg_client ls))
     in fst (purge_plocks d ls (our_nodeid d) True))"

fun purge_removed :: "daemon \<Rightarrow> lockspace \<Rightarrow> member list \<Rightarrow> daemon \<times> lockspace" where
  "purge_removed d ls [] = (d, ls)"
| "purge_removed d ls (memb # ms) = (case purge_plocks d ls (mb_nodeid memb) False of (d, ls) \<Rightarrow>
     purge_removed d ls ms)"

text \<open>\<^verbatim>\<open>confchg_cb\<close> on the lockspace it is for; the lockspace is \<open>None\<close> when it was freed.\<close>

definition confchg_ls ::
  "daemon \<Rightarrow> lockspace \<Rightarrow> nodeid list \<Rightarrow> (nodeid \<times> int) list \<Rightarrow> nodeid list \<Rightarrow> (daemon \<times> lockspace option) option"
where
  "confchg_ls d ls member_list left_list joined_list =
     (if ls_leaving ls \<and> we_left d left_list then Some (confchg_leave d ls, None)
      else (case add_change d ls member_list left_list joined_list of
          None \<Rightarrow> None
        | Some (d, ls, Inl rv) \<Rightarrow> Some (d, Some ls)
        | Some (d, ls, Inr cg) \<Rightarrow> (case stop_kernel d ls of (d, ls) \<Rightarrow>
            case purge_removed d ls (cg_removed cg) of (d, ls) \<Rightarrow>
              case apply_changes d ls of
                None \<Rightarrow> None
              | Some (d, ls) \<Rightarrow>
                  map_option (\<lambda>(d, ls). (d, Some ls))
                    (deadlk_confchg d ls member_list (map fst left_list) joined_list))))"

definition find_ls_handle :: "u64 \<Rightarrow> lockspace list \<Rightarrow> lockspace option" where
  "find_ls_handle h lss = find (\<lambda>ls. ls_cpg_handle ls = h) lss"

text \<open>Running a handler on the first lockspace with a given handle.\<close>

fun on_handle ::
  "u64 \<Rightarrow> (lockspace \<Rightarrow> (daemon \<times> lockspace option) option) \<Rightarrow> daemon \<Rightarrow> lockspace list \<Rightarrow>
    (daemon \<times> lockspace list) option"
where
  "on_handle h f d [] = Some (d, [])"
| "on_handle h f d (ls # lss) =
     (if ls_cpg_handle ls = h then
        map_option (\<lambda>(d, lso). (d, case lso of None \<Rightarrow> lss | Some ls \<Rightarrow> ls # lss)) (f ls)
      else map_option (\<lambda>(d, lss). (d, ls # lss)) (on_handle h f d lss))"

definition confchg_cb ::
  "daemon \<Rightarrow> lockspace list \<Rightarrow> u64 \<Rightarrow> nodeid list \<Rightarrow> (nodeid \<times> int) list \<Rightarrow> nodeid list \<Rightarrow>
    (daemon \<times> lockspace list) option"
where
  "confchg_cb d lss handle member_list left_list joined_list =
     on_handle handle (\<lambda>ls. confchg_ls d ls member_list left_list joined_list) d lss"

subsection \<open>Messages\<close>

definition deliver_type :: "daemon \<Rightarrow> lockspace \<Rightarrow> dlm_header \<Rightarrow> body \<Rightarrow> (daemon \<times> lockspace) option" where
  "deliver_type d ls h b =
     (let t = hd_type h in
      if t = DLM_MSG_START then receive_start d ls h b
      else if t = DLM_MSG_PLOCK then Some (receive_plock d ls h b)
      else if t = DLM_MSG_PLOCK_OWN then Some (receive_own d ls h b)
      else if t = DLM_MSG_PLOCK_DROP then Some (receive_drop d ls h b)
      else if t = DLM_MSG_PLOCK_SYNC_LOCK \<or> t = DLM_MSG_PLOCK_SYNC_WAITER then Some (receive_sync d ls h b)
      else if t = DLM_MSG_PLOCKS_STORED then receive_plocks_stored d ls h b
      else if t = DLM_MSG_DEADLK_CYCLE_START then receive_cycle_start d ls h
      else if t = DLM_MSG_DEADLK_CYCLE_END then Some (receive_cycle_end d ls h)
      else if t = DLM_MSG_DEADLK_CHECKPOINT_READY then receive_checkpoint_ready d ls h
      else if t = DLM_MSG_DEADLK_CANCEL_LOCK then Some (receive_cancel_lock d ls h, ls)
      else Some (d, ls))"

text \<open>A message \<open>None\<close> is shorter than a header.\<close>

definition deliver_ls :: "daemon \<Rightarrow> lockspace \<Rightarrow> nodeid \<Rightarrow> (dlm_header \<times> body) option \<Rightarrow> (daemon \<times> lockspace) option" where
  "deliver_ls d ls nodeid data = (case data of
       None \<Rightarrow> Some (d, ls)
     | Some (h, b) \<Rightarrow>
         let h = dlm_header_in (big_endian d) h in
         if fst (hd_version h) \<noteq> fst (daemon_run d) \<or> fst (snd (hd_version h)) \<noteq> fst (snd (daemon_run d))
         then Some (d, ls)
         else if hd_nodeid h \<noteq> nodeid then Some (d, ls)
         else (case deliver_type d ls h b of
             None \<Rightarrow> None
           | Some (d, ls) \<Rightarrow> apply_changes d ls))"

definition deliver_cb ::
  "daemon \<Rightarrow> lockspace list \<Rightarrow> u64 \<Rightarrow> nodeid \<Rightarrow> (dlm_header \<times> body) option \<Rightarrow> (daemon \<times> lockspace list) option"
where
  "deliver_cb d lss handle nodeid data =
     on_handle handle (\<lambda>ls. map_option (\<lambda>(d, ls). (d, Some ls)) (deliver_ls d ls nodeid data)) d lss"

end
