(* ===== verification/Cpg_Join.thy ===== *)
theory Cpg_Join
  imports Cpg_Change Dlm_Crc
begin

text \<open>
  Joining and leaving a lockspace's process group, and dispatching its callbacks (\<^verbatim>\<open>cpg.c\<close>).  The answers of the
  cpg library are parameters: what \<^verbatim>\<open>cpg_initialize\<close> returns, the handle, the poll index of its descriptor, the
  answers of the coming \<^verbatim>\<open>cpg_join\<close> calls (\<open>[]\<close>: success) and the events \<^verbatim>\<open>cpg_dispatch\<close> delivers.
\<close>

text \<open>A call that is repeated while the answer is \<^verbatim>\<open>CPG_ERR_TRY_AGAIN\<close>.\<close>

fun cpg_retry :: "cpg_error list \<Rightarrow> cpg_error" where
  "cpg_retry [] = CPG_OK"
| "cpg_retry (e # es) = (if e = CPG_ERR_TRY_AGAIN then cpg_retry es else e)"

definition cpg_bytes :: "string \<Rightarrow> 8 word list" where
  "cpg_bytes s = map of_char s @ [0]"

definition ls_cpg_name :: "string \<Rightarrow> string" where
  "ls_cpg_name name = ''dlm:ls:'' @ name"

text \<open>The failure paths of \<^verbatim>\<open>dlm_join_lockspace\<close>: after a failed join the handle is finalized twice.\<close>

definition join_fail :: "daemon \<Rightarrow> lockspace \<Rightarrow> int \<Rightarrow> daemon" where
  "join_fail d ls rv = kernel_op d (Set_sysfs_event_done (ls_name ls) rv)"

definition dlm_join_lockspace ::
  "daemon \<Rightarrow> lockspace list \<Rightarrow> lockspace \<Rightarrow> cpg_error \<times> u64 \<Rightarrow> int \<Rightarrow> cpg_error list \<Rightarrow> daemon \<times> lockspace list \<times> int"
where
  "dlm_join_lockspace d lss ls init ci joins =
     (if cfgd_enable_fencing d \<and> fst (fence_in_progress d) < 0 then (join_fail d ls (- 1), lss, - 1)
      else (case init of (error, h) \<Rightarrow>
        if error \<noteq> CPG_OK then (join_fail d ls (- 1), lss, - 1)
        else let ls = ls\<lparr>ls_cpg_handle := h, ls_cpg_client := ci, ls_kernel_stopped := True,
                         ls_need_plocks := True, ls_joining := True,
                         ls_global_id := cpgname_to_crc (cpg_bytes (ls_cpg_name (ls_name ls)))\<rparr>;
                 d = kernel_op d (Cpg_join h (ls_cpg_name (ls_name ls)))
             in if cpg_retry joins = CPG_OK then (d, ls # lss, 0)
                else let d = kernel_op d (Cpg_finalize h);
                         d = kernel_op d (Client_dead ci);
                         d = kernel_op d (Cpg_finalize h)
                     in (join_fail d ls (- 1), lss, - 1)))"

text \<open>An error of \<^verbatim>\<open>cpg_leave\<close> is only logged.\<close>

definition dlm_leave_lockspace :: "daemon \<Rightarrow> lockspace \<Rightarrow> daemon \<times> lockspace \<times> int" where
  "dlm_leave_lockspace d ls =
     (kernel_op d (Cpg_leave (ls_cpg_handle ls) (ls_cpg_name (ls_name ls))), ls\<lparr>ls_leaving := True\<rparr>, 0)"

text \<open>Lockspaces by the poll index of their group's descriptor.\<close>

definition find_ls_ci :: "int \<Rightarrow> lockspace list \<Rightarrow> lockspace option" where
  "find_ls_ci ci lss = find (\<lambda>ls. ls_cpg_client ls = ci) lss"

datatype cpg_event =
    Ev_confchg "nodeid list" "(nodeid \<times> int) list" "nodeid list"
  | Ev_deliver nodeid "(dlm_header \<times> body) option"

fun cpg_event_cb :: "u64 \<Rightarrow> cpg_event \<Rightarrow> daemon \<times> lockspace list \<Rightarrow> (daemon \<times> lockspace list) option" where
  "cpg_event_cb h (Ev_confchg m l j) (d, lss) = confchg_cb d lss h m l j"
| "cpg_event_cb h (Ev_deliver n data) (d, lss) = deliver_cb d lss h n data"

fun cpg_dispatch_ls :: "u64 \<Rightarrow> cpg_event list \<Rightarrow> daemon \<times> lockspace list \<Rightarrow> (daemon \<times> lockspace list) option" where
  "cpg_dispatch_ls h [] s = Some s"
| "cpg_dispatch_ls h (e # es) s = (case cpg_event_cb h e s of
       None \<Rightarrow> None
     | Some s \<Rightarrow> cpg_dispatch_ls h es s)"

definition process_lockspace_cpg ::
  "cpg_error \<Rightarrow> cpg_event list \<Rightarrow> bool option \<Rightarrow> int \<Rightarrow> daemon \<times> lockspace list \<Rightarrow> (daemon \<times> lockspace list) option"
where
  "process_lockspace_cpg error events flow ci s = (case find_ls_ci ci (snd s) of
       None \<Rightarrow> Some s
     | Some ls \<Rightarrow> (case cpg_dispatch_ls (ls_cpg_handle ls) events s of
         None \<Rightarrow> None
       | Some (d, lss) \<Rightarrow>
           if error \<noteq> CPG_OK then Some (d, lss) else Some (update_flow_control_status flow d, lss)))"

end
