(* ===== verification/Cpg_Proto.thy ===== *)
theory Cpg_Proto
  imports Cpg_Join "HOL-Library.Product_Lexorder"
begin

text \<open>
  The group of the daemons themselves (\<^verbatim>\<open>cpg.c\<close>, from \<^verbatim>\<open>get_node_daemon\<close> to \<^verbatim>\<open>close_cpg\<close>): every daemon announces the
  newest protocol it supports, one of them proposes the least of these, and all run the first proposal that is
  delivered.  Messages of this group consist of a header and a \<^verbatim>\<open>struct protocol\<close>.  The answers of \<^verbatim>\<open>poll\<close> with the
  events that are dispatched after it are a list.
\<close>

subsection \<open>Members and their protocols\<close>

definition get_node_daemon :: "daemon \<Rightarrow> nodeid \<Rightarrow> node option" where
  "get_node_daemon d nodeid = find (\<lambda>n. nd_nodeid n = nodeid) (daemon_nodes d)"

definition add_node_daemon :: "daemon \<Rightarrow> nodeid \<Rightarrow> daemon" where
  "add_node_daemon d nodeid =
     (if get_node_daemon d nodeid \<noteq> None then d
      else case malloc (dmem d) of
          (None, m) \<Rightarrow> d\<lparr>dmem := m\<rparr>
        | (Some _, m) \<Rightarrow> d\<lparr>dmem := m, daemon_nodes := daemon_nodes d @ [node_zero\<lparr>nd_nodeid := nodeid\<rparr>]\<rparr>)"

definition all_protocol_messages :: "daemon \<Rightarrow> bool" where
  "all_protocol_messages d \<longleftrightarrow> daemon_member d \<noteq> [] \<and>
     list_all (\<lambda>n. case get_node_daemon d n of
         None \<Rightarrow> False | Some node \<Rightarrow> pv_major (dm_ver (nd_proto node)) \<noteq> 0) (daemon_member d)"

text \<open>One component of \<^verbatim>\<open>mind\<close> or \<^verbatim>\<open>mink\<close>: zero stands for not chosen yet.\<close>

definition pick_min_field :: "u16 list \<Rightarrow> u16" where
  "pick_min_field vs = foldl (\<lambda>m v. if m = 0 \<or> v < m then v else m) 0 vs"

definition pick_min_version :: "protocol_version list \<Rightarrow> protocol_version option" where
  "pick_min_version vs =
     (let a = pick_min_field (map pv_major vs);
          vs1 = filter (\<lambda>v. pv_major v = a) vs;
          b = pick_min_field (map pv_minor vs1);
          vs2 = filter (\<lambda>v. pv_minor v = b) vs1;
          c = pick_min_field (map pv_patch vs2)
      in if a = 0 \<or> b = 0 \<or> c = 0 then None
         else Some \<lparr>pv_major = a, pv_minor = b, pv_patch = c, pv_flags = 0\<rparr>)"

definition pick_min_protocol :: "daemon \<Rightarrow> protocol \<Rightarrow> protocol option" where
  "pick_min_protocol d proto =
     (let nodes = map (get_node_daemon d) (daemon_member d) in
      if None \<in> set nodes then None
      else let ps = map (nd_proto \<circ> the) nodes in
        case (pick_min_version (map dm_ver ps), pick_min_version (map km_ver ps)) of
          (Some mind, Some mink) \<Rightarrow> Some (proto\<lparr>dr_ver := mind, kr_ver := mink\<rparr>)
        | _ \<Rightarrow> None)"

subsection \<open>Protocol messages\<close>

definition pv_set :: "protocol_version \<Rightarrow> bool" where
  "pv_set v \<longleftrightarrow> pv_major v \<noteq> 0 \<and> pv_minor v \<noteq> 0 \<and> pv_patch v \<noteq> 0"

text \<open>
  A message whose body is \<open>None\<close> is too short for a \<^verbatim>\<open>struct protocol\<close>; its conversion, which precedes the test of the
  length, writes past the message, and the result is \<open>None\<close>.
\<close>

definition receive_protocol :: "daemon \<Rightarrow> dlm_header \<Rightarrow> protocol option \<Rightarrow> daemon option" where
  "receive_protocol d h body = (case body of
       None \<Rightarrow> None
     | Some p \<Rightarrow>
         let p = protocol_in (big_endian d) p; ours = our_protocol d in
         if \<not> pv_set (dm_ver p) \<or> \<not> pv_set (km_ver p) then Some d
         else if pv_major (dr_ver p) \<noteq> 0 \<and>
             (pv_minor (dr_ver p) = 0 \<or> pv_patch (dr_ver p) = 0 \<or> \<not> pv_set (kr_ver p)) then Some d
         else if pv_major (dr_ver ours) \<noteq> 0 then Some d
         else if pv_major (dr_ver p) \<noteq> 0 then
           Some (d\<lparr>our_protocol := ours\<lparr>dr_ver := dr_ver p, kr_ver := kr_ver p\<rparr>\<rparr>)
         else Some (d\<lparr>daemon_nodes :=
           map_first (\<lambda>n. nd_nodeid n = hd_nodeid h) (\<lambda>n. n\<lparr>nd_proto := p\<rparr>) (daemon_nodes d)\<rparr>))"

definition send_protocol :: "daemon \<Rightarrow> protocol \<Rightarrow> daemon" where
  "send_protocol d proto = (case malloc (dmem d) of
       (None, m) \<Rightarrow> d\<lparr>dmem := m\<rparr>
     | (Some _, m) \<Rightarrow> fst (send_message (d\<lparr>dmem := m\<rparr>)
         \<lparr>m_handle = daemon_cpg_handle d,
          m_hd = hd_zero\<lparr>hd_type := cpu_to_le16 (big_endian d) DLM_MSG_PROTOCOL,
                         hd_nodeid := cpu_to_le32 (big_endian d) (our_nodeid d)\<rparr>,
          m_body = Body_protocol (protocol_out (big_endian d) proto)\<rparr>))"

definition deliver_cb_daemon :: "daemon \<Rightarrow> (dlm_header \<times> protocol option) option \<Rightarrow> daemon option" where
  "deliver_cb_daemon d data = (case data of
       None \<Rightarrow> Some d
     | Some (h, b) \<Rightarrow>
         let h = dlm_header_in (big_endian d) h in
         if hd_type h = DLM_MSG_PROTOCOL then receive_protocol d h b else Some d)"

text \<open>\<open>None\<close>: more members than \<^verbatim>\<open>daemon_member\<close> holds.\<close>

definition confchg_cb_daemon :: "daemon \<Rightarrow> nodeid list \<Rightarrow> nodeid list \<Rightarrow> daemon option" where
  "confchg_cb_daemon d member_list joined_list =
     (let d = (if joined_list \<noteq> [] then send_protocol d (our_protocol d) else d) in
      if length member_list > MAX_NODES then None
      else Some (fold (\<lambda>n d. add_node_daemon d n) member_list (d\<lparr>daemon_member := member_list\<rparr>)))"

datatype daemon_event =
    Dm_confchg "nodeid list" "nodeid list"
  | Dm_deliver "(dlm_header \<times> protocol option) option"

fun daemon_event_cb :: "daemon_event \<Rightarrow> daemon \<Rightarrow> daemon option" where
  "daemon_event_cb (Dm_confchg members joined) d = confchg_cb_daemon d members joined"
| "daemon_event_cb (Dm_deliver data) d = deliver_cb_daemon d data"

fun process_cpg :: "daemon_event list \<Rightarrow> daemon \<Rightarrow> daemon option" where
  "process_cpg [] d = Some d"
| "process_cpg (e # es) d = (case daemon_event_cb e d of None \<Rightarrow> None | Some d \<Rightarrow> process_cpg es d)"

subsection \<open>Agreeing on a protocol\<close>

text \<open>
  What \<^verbatim>\<open>poll\<close> answers: interrupted by a signal, after which the daemon may have to quit; another error; or ready,
  with the events to dispatch if there is input, and with or without an error condition.
\<close>

datatype poll_answer =
    Poll_eintr bool
  | Poll_errno
  | Poll_ready "daemon_event list option" bool

definition propose :: "bool \<Rightarrow> daemon \<Rightarrow> daemon \<times> bool \<times> int" where
  "propose sent_proposal d =
     (if \<not> sent_proposal \<and> all_protocol_messages d then
        (case pick_min_protocol d (our_protocol d) of
           None \<Rightarrow> (d, True, - 1)
         | Some proto \<Rightarrow> (send_protocol d proto, True, 0))
      else (d, sent_proposal, 0))"

text \<open>The loop of \<^verbatim>\<open>set_protocol\<close>; the return value is \<open>None\<close> while it waits in \<^verbatim>\<open>poll\<close> at the end of the answers.\<close>

fun set_protocol_loop :: "bool \<Rightarrow> poll_answer list \<Rightarrow> daemon \<Rightarrow> (daemon \<times> int option) option" where
  "set_protocol_loop sent_proposal polls d =
     (if pv_major (dr_ver (our_protocol d)) \<noteq> 0 then Some (d, Some 0)
      else case propose sent_proposal d of (d, sent_proposal, rv) \<Rightarrow>
        if rv < 0 then Some (d, Some rv)
        else case polls of
            [] \<Rightarrow> Some (d, None)
          | Poll_eintr quit # polls \<Rightarrow>
              if quit then Some (d, Some (- 1)) else set_protocol_loop sent_proposal polls d
          | Poll_errno # polls \<Rightarrow> Some (d, Some (- 1))
          | Poll_ready events hup # polls \<Rightarrow>
              (case (case events of None \<Rightarrow> Some d | Some es \<Rightarrow> process_cpg es d) of
                 None \<Rightarrow> None
               | Some d \<Rightarrow> if hup then Some (d, Some (- 1)) else set_protocol_loop sent_proposal polls d))"

declare set_protocol_loop.simps [simp del]

definition run_compatible :: "protocol \<Rightarrow> bool" where
  "run_compatible p \<longleftrightarrow>
     \<not> (pv_major (dr_ver p) \<noteq> pv_major (dm_ver p) \<or> pv_minor (dr_ver p) > pv_minor (dm_ver p)) \<and>
     \<not> (pv_major (kr_ver p) \<noteq> pv_major (km_ver p) \<or> pv_minor (kr_ver p) > pv_minor (km_ver p))"

definition set_protocol :: "poll_answer list \<Rightarrow> daemon \<Rightarrow> (daemon \<times> int option) option" where
  "set_protocol polls d = (case set_protocol_loop False polls d of
       Some (d, Some rv) \<Rightarrow>
         Some (d, Some (if rv < 0 then rv else if run_compatible (our_protocol d) then 0 else - 1))
     | r \<Rightarrow> r)"

subsection \<open>Joining and leaving the group\<close>

definition pv_111 :: protocol_version where
  "pv_111 = \<lparr>pv_major = 1, pv_minor = 1, pv_patch = 1, pv_flags = 0\<rparr>"

definition setup_cpg :: "daemon \<Rightarrow> cpg_error \<times> u64 \<Rightarrow> int \<Rightarrow> cpg_error list \<Rightarrow> daemon \<times> int" where
  "setup_cpg d init fd joins =
     (let d = d\<lparr>daemon_nodes := [], our_protocol := proto_zero\<lparr>dm_ver := pv_111, km_ver := pv_111\<rparr>\<rparr> in
      case init of (error, h) \<Rightarrow>
        if error \<noteq> CPG_OK then (d, - 1)
        else let d = kernel_op (d\<lparr>daemon_cpg_handle := h\<rparr>) (Cpg_join h ''dlm:controld'') in
          if cpg_retry joins = CPG_OK then (d, fd) else (kernel_op d (Cpg_finalize h), - 1))"

definition close_cpg :: "daemon \<Rightarrow> lockspace list \<Rightarrow> daemon" where
  "close_cpg d lss =
     (if daemon_cpg_handle d = 0 then d
      else let d = (if cluster_down d then d else kernel_op d (Cpg_leave (daemon_cpg_handle d) ''dlm:controld''));
               d = fold (\<lambda>ls d. if ls_cpg_handle ls \<noteq> 0 then kernel_op d (Cpg_finalize (ls_cpg_handle ls)) else d) lss d
           in kernel_op d (Cpg_finalize (daemon_cpg_handle d)))"

end
