(* ===== verification/Cpg_Agree.thy ===== *)
theory Cpg_Agree
  imports Cpg_Proto Plock_Queue
begin

text \<open>
  Correctness of the protocol negotiation of \<open>Cpg_Proto\<close>: what is proposed, that daemons which deliver the same
  messages run the same protocol, and that \<^verbatim>\<open>set_protocol\<close> returns once a proposal is delivered.
\<close>

subsection \<open>The least version\<close>

definition triple :: "protocol_version \<Rightarrow> u16 \<times> u16 \<times> u16" where
  "triple v = (pv_major v, pv_minor v, pv_patch v)"

lemma pick_min_from:
  assumes "m \<noteq> 0" "0 \<notin> set vs"
  shows "foldl (\<lambda>m v. if m = 0 \<or> v < m then v else m) m vs = Min (insert m (set vs))"
  using assms
proof (induction vs arbitrary: m)
  case (Cons v vs)
  have "Min (insert m (set (v # vs))) = Min (insert (min m v) (set vs))"
    by (cases "vs = []") (simp_all add: Min_insert ac_simps)
  moreover have "(if m = 0 \<or> v < m then v else m) = min m v" using Cons.prems by (auto simp: min_def)
  moreover have "min m v \<noteq> 0" using Cons.prems by (auto simp: min_def)
  ultimately show ?case using Cons by simp
qed simp

lemma pick_min_field_Min: "vs \<noteq> [] \<Longrightarrow> 0 \<notin> set vs \<Longrightarrow> pick_min_field vs = Min (set vs)"
  by (cases vs) (auto simp: pick_min_field_def pick_min_from)

lemma pick_min_field_filter:
  assumes "vs \<noteq> []" "\<forall>v\<in>set vs. f v \<noteq> (0 :: u16)"
  shows "pick_min_field (map f vs) \<noteq> 0" "filter (\<lambda>v. f v = pick_min_field (map f vs)) vs \<noteq> []"
    "\<forall>v\<in>set vs. pick_min_field (map f vs) \<le> f v"
proof -
  have m: "pick_min_field (map f vs) = Min (f ` set vs)"
    using assms pick_min_field_Min [of "map f vs"] by (auto simp: image_iff)
  have i: "Min (f ` set vs) \<in> f ` set vs" using assms by (intro Min_in) auto
  then show "pick_min_field (map f vs) \<noteq> 0" "filter (\<lambda>v. f v = pick_min_field (map f vs)) vs \<noteq> []"
    using assms(2) by (auto simp: m filter_empty_conv)
  show "\<forall>v\<in>set vs. pick_min_field (map f vs) \<le> f v" by (simp add: m)
qed

lemma pick_min_version_Min:
  assumes "vs \<noteq> []" "\<forall>v\<in>set vs. pv_set v"
  shows "\<exists>v. pick_min_version vs = Some v \<and> triple v = Min (triple ` set vs) \<and> pv_flags v = 0"
proof -
  define a where "a = pick_min_field (map pv_major vs)"
  define vs1 where "vs1 = filter (\<lambda>v. pv_major v = a) vs"
  define b where "b = pick_min_field (map pv_minor vs1)"
  define vs2 where "vs2 = filter (\<lambda>v. pv_minor v = b) vs1"
  define c where "c = pick_min_field (map pv_patch vs2)"
  have s: "\<forall>v\<in>set vs. pv_major v \<noteq> 0" "\<forall>v\<in>set vs1. pv_minor v \<noteq> 0" "\<forall>v\<in>set vs2. pv_patch v \<noteq> 0"
    using assms(2) by (auto simp: pv_set_def vs1_def vs2_def)
  note a = pick_min_field_filter [OF assms(1) s(1), folded a_def, folded vs1_def]
  note b = pick_min_field_filter [OF a(2) s(2), folded b_def, folded vs2_def]
  note c = pick_min_field_filter [OF b(2) s(3), folded c_def]
  obtain v where v: "v \<in> set vs2" "pv_patch v = c" using c(2) by (auto simp: filter_empty_conv)
  have "Min (triple ` set vs) = (a, b, c)"
  proof (rule Min_eqI)
    show "(a, b, c) \<in> triple ` set vs" using v by (auto simp: triple_def vs1_def vs2_def image_iff)
    show "(a, b, c) \<le> y" if y: "y \<in> triple ` set vs" for y
    proof -
      obtain w where w: "w \<in> set vs" "y = triple w" using y by (elim imageE) blast
      have "pv_major w = a \<Longrightarrow> w \<in> set vs1" "pv_major w = a \<Longrightarrow> pv_minor w = b \<Longrightarrow> w \<in> set vs2"
        using w(1) by (simp_all add: vs1_def vs2_def)
      then show ?thesis using w a(3) b(3) c(3) by (auto simp: triple_def less_le)
    qed
  qed simp
  then show ?thesis
    using a(1) b(1) c(1)
    by (simp add: pick_min_version_def triple_def Let_def del: filter_filter flip: a_def vs1_def b_def vs2_def c_def)
qed

lemma pick_min_protocol_eq:
  assumes "\<forall>n\<in>set (daemon_member d). map_option nd_proto (get_node_daemon d n) = Some (announced n)"
  shows "pick_min_protocol d proto =
    (case (pick_min_version (map (dm_ver \<circ> announced) (daemon_member d)),
           pick_min_version (map (km_ver \<circ> announced) (daemon_member d))) of
       (Some mind, Some mink) \<Rightarrow> Some (proto\<lparr>dr_ver := mind, kr_ver := mink\<rparr>)
     | _ \<Rightarrow> None)"
proof -
  have n: "None \<notin> set (map (get_node_daemon d) (daemon_member d))"
    and ps: "map (nd_proto \<circ> the) (map (get_node_daemon d) (daemon_member d)) = map announced (daemon_member d)"
    using assms by (auto simp: image_iff)
  show ?thesis unfolding pick_min_protocol_def Let_def ps using n by simp
qed

text \<open>
  C37. The protocol a daemon proposes is, for the daemon and for the kernel version, the lexicographically least of the
  versions that the members announced; the rest of the proposal is its own protocol.
\<close>

theorem pick_min_protocol_least:
  assumes "daemon_member d \<noteq> []"
    and "\<forall>n\<in>set (daemon_member d). \<exists>node. get_node_daemon d n = Some node \<and> nd_proto node = announced n \<and>
      pv_set (dm_ver (announced n)) \<and> pv_set (km_ver (announced n))"
  shows "\<exists>mind mink. pick_min_protocol d proto = Some (proto\<lparr>dr_ver := mind, kr_ver := mink\<rparr>) \<and>
    triple mind = Min ((\<lambda>n. triple (dm_ver (announced n))) ` set (daemon_member d)) \<and>
    triple mink = Min ((\<lambda>n. triple (km_ver (announced n))) ` set (daemon_member d))"
proof -
  let ?ms = "daemon_member d"
  have "map (dm_ver \<circ> announced) ?ms \<noteq> []" "map (km_ver \<circ> announced) ?ms \<noteq> []"
    "\<forall>v\<in>set (map (dm_ver \<circ> announced) ?ms). pv_set v" "\<forall>v\<in>set (map (km_ver \<circ> announced) ?ms). pv_set v"
    using assms by auto
  note pick_min_version_Min [OF this(1,3)] pick_min_version_Min [OF this(2,4)]
  then obtain mind mink where m: "pick_min_version (map (dm_ver \<circ> announced) ?ms) = Some mind"
      "triple mind = Min (triple ` set (map (dm_ver \<circ> announced) ?ms))"
      "pick_min_version (map (km_ver \<circ> announced) ?ms) = Some mink"
      "triple mink = Min (triple ` set (map (km_ver \<circ> announced) ?ms))" by blast
  have "\<forall>n\<in>set ?ms. map_option nd_proto (get_node_daemon d n) = Some (announced n)" using assms(2) by auto
  then show ?thesis
    using m by (intro exI [where x = mind] exI [where x = mink]) (simp add: pick_min_protocol_eq image_image)
qed

text \<open>A group of three daemons, of versions 1.3.2, 1.2.9 and 1.2.4.\<close>

definition ex_pv :: "u16 \<Rightarrow> u16 \<Rightarrow> protocol_version" where
  "ex_pv b c = \<lparr>pv_major = 1, pv_minor = b, pv_patch = c, pv_flags = 0\<rparr>"

definition ex_announced :: "nodeid \<Rightarrow> protocol" where
  "ex_announced n = proto_zero\<lparr>dm_ver := (if n = 1 then ex_pv 3 2 else if n = 2 then ex_pv 2 9 else ex_pv 2 4),
     km_ver := pv_111\<rparr>"

definition ex_group :: daemon where
  "ex_group = (ex_daemon 1 False)\<lparr>our_protocol := ex_announced 1, daemon_member := [1, 2, 3],
     daemon_nodes := map (\<lambda>n. node_zero\<lparr>nd_nodeid := n, nd_proto := ex_announced n\<rparr>) [3, 2, 1]\<rparr>"

theorem pick_min_protocol_least_witness:
  "\<exists>mink. pick_min_protocol ex_group (our_protocol ex_group) =
    Some ((our_protocol ex_group)\<lparr>dr_ver := ex_pv 2 4, kr_ver := mink\<rparr>)"
proof -
  have m: "daemon_member ex_group = [1, 2, 3]" by (simp add: ex_group_def)
  have a: "\<forall>n\<in>set (daemon_member ex_group). \<exists>node. get_node_daemon ex_group n = Some node \<and>
      nd_proto node = ex_announced n \<and> pv_set (dm_ver (ex_announced n)) \<and> pv_set (km_ver (ex_announced n))"
    unfolding m by (simp add: get_node_daemon_def ex_group_def ex_announced_def pv_set_def ex_pv_def pv_111_def)
  have "daemon_member ex_group \<noteq> []" by (simp add: m)
  from pick_min_protocol_least [OF this a]
  obtain mind mink where p: "pick_min_protocol ex_group (our_protocol ex_group) =
      Some ((our_protocol ex_group)\<lparr>dr_ver := mind, kr_ver := mink\<rparr>)"
    "triple mind = Min ((\<lambda>n. triple (dm_ver (ex_announced n))) ` {1, 2, 3})" unfolding m by force
  have f: "map_option (pv_flags \<circ> dr_ver) (pick_min_protocol ex_group (our_protocol ex_group)) = Some 0" by code_simp
  have "triple mind = (1, 2, 4)" using p(2) by (simp add: ex_announced_def triple_def ex_pv_def min_def)
  moreover have "pv_flags mind = 0" using f p(1) by simp
  ultimately have "mind = ex_pv 2 4" by (simp add: triple_def ex_pv_def)
  then show ?thesis using p(1) by blast
qed

subsection \<open>Agreement\<close>

definition run_of :: "daemon \<Rightarrow> protocol_version \<times> protocol_version" where
  "run_of d = (dr_ver (our_protocol d), kr_ver (our_protocol d))"

text \<open>The run versions that an event asks to adopt.\<close>

fun proposal :: "bool \<Rightarrow> daemon_event \<Rightarrow> (protocol_version \<times> protocol_version) option" where
  "proposal be (Dm_deliver (Some (h, Some p))) =
     (let p = protocol_in be p in
      if hd_type (dlm_header_in be h) = DLM_MSG_PROTOCOL \<and> pv_set (dm_ver p) \<and> pv_set (km_ver p) \<and>
         pv_set (dr_ver p) \<and> pv_set (kr_ver p)
      then Some (dr_ver p, kr_ver p) else None)"
| "proposal be _ = None"

lemma send_message_frame:
  "our_protocol (fst (send_message d m)) = our_protocol d" "big_endian (fst (send_message d m)) = big_endian d"
  "daemon_nodes (fst (send_message d m)) = daemon_nodes d"
  by (simp_all add: send_message_def split: prod.split)

lemma send_protocol_frame [simp]:
  "our_protocol (send_protocol d p) = our_protocol d" "big_endian (send_protocol d p) = big_endian d"
  "daemon_nodes (send_protocol d p) = daemon_nodes d"
  by (simp_all add: send_protocol_def send_message_frame split: prod.split option.split)

lemma add_node_daemon_frame [simp]:
  "our_protocol (add_node_daemon d n) = our_protocol d" "big_endian (add_node_daemon d n) = big_endian d"
  by (simp_all add: add_node_daemon_def split: prod.split option.split)

lemma add_nodes_frame [simp]:
  "our_protocol (fold (\<lambda>n d. add_node_daemon d n) ns d) = our_protocol d"
  "big_endian (fold (\<lambda>n d. add_node_daemon d n) ns d) = big_endian d"
  by (induction ns arbitrary: d) simp_all

lemma daemon_event_run:
  assumes "daemon_event_cb e d = Some d'"
  shows "big_endian d' = big_endian d" "dm_ver (our_protocol d') = dm_ver (our_protocol d)"
    "km_ver (our_protocol d') = km_ver (our_protocol d)"
    "run_of d' = (if pv_major (fst (run_of d)) \<noteq> 0 then run_of d
       else case proposal (big_endian d) e of None \<Rightarrow> run_of d | Some r \<Rightarrow> r)"
  using assms
  by (cases "(big_endian d, e)" rule: proposal.cases;
      auto simp: confchg_cb_daemon_def deliver_cb_daemon_def receive_protocol_def run_of_def Let_def pv_set_def
        split: if_splits option.splits)+

fun first_proposal :: "bool \<Rightarrow> daemon_event list \<Rightarrow> (protocol_version \<times> protocol_version) option" where
  "first_proposal be [] = None"
| "first_proposal be (e # es) = (case proposal be e of None \<Rightarrow> first_proposal be es | Some r \<Rightarrow> Some r)"

lemma proposal_set: "proposal be e = Some r \<Longrightarrow> pv_major (fst r) \<noteq> 0"
  by (cases "(be, e)" rule: proposal.cases) (auto simp: Let_def pv_set_def split: if_splits)

lemma first_proposal_set: "first_proposal be es = Some r \<Longrightarrow> pv_major (fst r) \<noteq> 0"
  by (induction es) (auto split: option.splits dest: proposal_set)

lemma first_proposal_append:
  "first_proposal be (es @ fs) = (case first_proposal be es of None \<Rightarrow> first_proposal be fs | Some r \<Rightarrow> Some r)"
  by (induction es) (auto split: option.split)

lemma process_cpg_run:
  assumes "process_cpg es d = Some d'"
  shows "big_endian d' = big_endian d \<and> dm_ver (our_protocol d') = dm_ver (our_protocol d) \<and>
    km_ver (our_protocol d') = km_ver (our_protocol d) \<and>
    run_of d' = (if pv_major (fst (run_of d)) \<noteq> 0 then run_of d
       else case first_proposal (big_endian d) es of None \<Rightarrow> run_of d | Some r \<Rightarrow> r)"
  using assms
proof (induction es arbitrary: d)
  case (Cons e es)
  then obtain d1 where d1: "daemon_event_cb e d = Some d1" "process_cpg es d1 = Some d'" by (auto split: option.splits)
  show ?case
    using Cons.IH [OF d1(2)] daemon_event_run [OF d1(1)] proposal_set [of "big_endian d" e]
    by (cases "proposal (big_endian d) e") (auto cong: option.case_cong)
qed simp

text \<open>An event with its message in the byte order of the network, as a machine of the given byte order loads it.\<close>

definition header_out :: "bool \<Rightarrow> dlm_header \<Rightarrow> dlm_header" where
  "header_out be h = (case hd_version h of (v0, v1, v2) \<Rightarrow>
     \<lparr>hd_version = (cpu_to_le16 be v0, cpu_to_le16 be v1, cpu_to_le16 be v2), hd_type = cpu_to_le16 be (hd_type h),
      hd_nodeid = cpu_to_le32 be (hd_nodeid h), hd_to_nodeid = cpu_to_le32 be (hd_to_nodeid h),
      hd_global_id = cpu_to_le32 be (hd_global_id h), hd_flags = cpu_to_le32 be (hd_flags h),
      hd_msgdata = cpu_to_le32 be (hd_msgdata h)\<rparr>)"

interpretation header: codec "header_out be" "dlm_header_in be"
  by unfold_locales (simp add: header_out_def dlm_header_in_def split: prod.split)

definition wire :: "bool \<Rightarrow> daemon_event \<Rightarrow> daemon_event" where
  "wire be e = (case e of
       Dm_deliver (Some (h, b)) \<Rightarrow> Dm_deliver (Some (header_out be h, map_option (protocol_out be) b))
     | _ \<Rightarrow> e)"

lemma protocol_out_False: "protocol_out False = (\<lambda>p. p)"
  by (rule ext) (simp add: protocol_out_def pv_out_def cpu_to_le16_def)

lemma wire_False [simp]: "wire False e = e"
  by (auto simp: wire_def header_out_def protocol_out_False cpu_to_le16_def cpu_to_le32_def option.map_ident
      split: daemon_event.split option.split prod.split)

lemma proposal_wire: "proposal be (wire be e) = proposal False e"
proof -
  have w: "proposal be (wire be e) = proposal be' (wire be' e)" for be be'
    by (cases "(be, e)" rule: proposal.cases) (simp_all add: wire_def)
  show ?thesis using w [of be False] by simp
qed

lemma first_proposal_wire: "first_proposal be (map (wire be) es) = first_proposal False es"
  by (induction es) (simp_all add: proposal_wire cong: option.case_cong)

text \<open>
  C9. Two daemons that have not chosen a protocol yet and deliver the same messages and membership changes in the same
  order run the same protocol, that of the first valid proposal, whatever their byte orders, memory and other state.
\<close>

theorem protocol_agreement:
  assumes "run_of d = (pv_zero, pv_zero)" "process_cpg (map (wire (big_endian d)) es) d = Some d'"
    and "run_of e = (pv_zero, pv_zero)" "process_cpg (map (wire (big_endian e)) es) e = Some e'"
  shows "run_of d' = run_of e' \<and>
    run_of d' = (case first_proposal False es of None \<Rightarrow> (pv_zero, pv_zero) | Some r \<Rightarrow> r)"
  using process_cpg_run [OF assms(2)] process_cpg_run [OF assms(4)] assms(1,3)
  by (simp add: first_proposal_wire pv_zero_def cong: option.case_cong)

text \<open>
  A little-endian and a big-endian daemon see the third of three daemons propose version 1.2.4, then the first one
  version 1.3.2.
\<close>

definition ex_message :: "nodeid \<Rightarrow> protocol \<Rightarrow> daemon_event" where
  "ex_message n p = Dm_deliver (Some (hd_zero\<lparr>hd_type := DLM_MSG_PROTOCOL, hd_nodeid := n\<rparr>, Some p))"

definition ex_proposals :: "daemon_event list" where
  "ex_proposals = [Dm_confchg [1, 2, 3] [2], ex_message 2 (ex_announced 2),
     ex_message 3 ((ex_announced 3)\<lparr>dr_ver := ex_pv 2 4, kr_ver := pv_111\<rparr>),
     ex_message 1 ((ex_announced 1)\<lparr>dr_ver := ex_pv 3 2, kr_ver := pv_111\<rparr>)]"

theorem protocol_agreement_witness:
  "\<exists>d' e'. process_cpg (map (wire False) ex_proposals) (ex_daemon 1 False) = Some d' \<and>
    process_cpg (map (wire True) ex_proposals) ((ex_daemon 2 False)\<lparr>big_endian := True\<rparr>) = Some e' \<and>
    run_of d' = (ex_pv 2 4, pv_111) \<and> run_of e' = (ex_pv 2 4, pv_111)"
proof -
  let ?d = "ex_daemon 1 False" and ?e = "(ex_daemon 2 False)\<lparr>big_endian := True\<rparr>"
  have be: "big_endian ?d = False" "big_endian ?e = True" by (simp_all add: ex_daemon_def)
  have r: "run_of ?d = (pv_zero, pv_zero)" "run_of ?e = (pv_zero, pv_zero)"
    by (simp_all add: run_of_def ex_daemon_def proto_zero_def)
  have "process_cpg (map (wire False) ex_proposals) ?d \<noteq> None" "process_cpg (map (wire True) ex_proposals) ?e \<noteq> None"
    by code_simp+
  then obtain d' e' where p: "process_cpg (map (wire (big_endian ?d)) ex_proposals) ?d = Some d'"
      "process_cpg (map (wire (big_endian ?e)) ex_proposals) ?e = Some e'" unfolding be by blast
  have "first_proposal False ex_proposals = Some (ex_pv 2 4, pv_111)" by code_simp
  then have "run_of d' = (ex_pv 2 4, pv_111)" "run_of e' = (ex_pv 2 4, pv_111)"
    using protocol_agreement [OF r(1) p(1) r(2) p(2)] by auto
  then show ?thesis using p unfolding be by blast
qed

subsection \<open>The negotiation ends\<close>

text \<open>A stored protocol is either unset or valid.\<close>

definition nodes_ok :: "daemon \<Rightarrow> bool" where
  "nodes_ok d \<longleftrightarrow> (\<forall>n\<in>set (daemon_nodes d). pv_major (dm_ver (nd_proto n)) \<noteq> 0 \<longrightarrow>
     pv_set (dm_ver (nd_proto n)) \<and> pv_set (km_ver (nd_proto n)))"

lemma nodes_ok_same: "daemon_nodes d' = daemon_nodes d \<Longrightarrow> nodes_ok d \<Longrightarrow> nodes_ok d'"
  by (simp add: nodes_ok_def)

lemma nodes_ok_send [simp]: "nodes_ok (send_protocol d p) = nodes_ok d"
  by (simp add: nodes_ok_def)

lemma nodes_ok_add: "nodes_ok d \<Longrightarrow> nodes_ok (add_node_daemon d n)"
  by (auto simp: nodes_ok_def add_node_daemon_def node_zero_def proto_zero_def pv_zero_def split: prod.split option.split)

lemma nodes_ok_adds: "nodes_ok d \<Longrightarrow> nodes_ok (fold (\<lambda>n d. add_node_daemon d n) ns d)"
  by (induction ns arbitrary: d) (simp_all add: nodes_ok_add)

lemma nodes_ok_receive:
  assumes "nodes_ok d" "receive_protocol d h b = Some d'"
  shows "nodes_ok d'"
proof -
  have "nodes_ok (d\<lparr>daemon_nodes := map_first P (\<lambda>n. n\<lparr>nd_proto := p\<rparr>) (daemon_nodes d)\<rparr>)"
    if "pv_set (dm_ver p)" "pv_set (km_ver p)" for P p
    using assms(1) that set_map_first [of P "\<lambda>n. n\<lparr>nd_proto := p\<rparr>" "daemon_nodes d"] by (fastforce simp: nodes_ok_def)
  moreover have "nodes_ok (d\<lparr>our_protocol := p\<rparr>)" for p using assms(1) by (simp add: nodes_ok_def)
  ultimately show ?thesis
    using assms by (auto simp: receive_protocol_def Let_def split: option.splits if_splits)
qed

lemma nodes_ok_event:
  assumes "nodes_ok d" "daemon_event_cb e d = Some d'"
  shows "nodes_ok d'"
proof (cases e)
  case (Dm_confchg ms js)
  have "nodes_ok (d\<lparr>daemon_member := ms\<rparr>)" "nodes_ok ((send_protocol d p)\<lparr>daemon_member := ms\<rparr>)" for p
    using assms(1) by (simp_all add: nodes_ok_def)
  then show ?thesis
    using assms Dm_confchg by (auto simp: confchg_cb_daemon_def Let_def split: if_splits intro!: nodes_ok_adds)
next
  case (Dm_deliver data)
  then show ?thesis
    using assms by (auto simp: deliver_cb_daemon_def Let_def split: option.splits if_splits intro: nodes_ok_receive)
qed

lemma nodes_ok_process: "nodes_ok d \<Longrightarrow> process_cpg es d = Some d' \<Longrightarrow> nodes_ok d'"
  by (induction es arbitrary: d) (auto split: option.splits dest: nodes_ok_event)

lemma propose_ok:
  assumes "nodes_ok d"
  shows "\<exists>d1 s1. propose s d = (d1, s1, 0) \<and> nodes_ok d1 \<and> our_protocol d1 = our_protocol d \<and>
    big_endian d1 = big_endian d"
proof (cases "\<not> s \<and> all_protocol_messages d")
  case True
  define announced where "announced n = nd_proto (the (get_node_daemon d n))" for n
  have "\<exists>node. get_node_daemon d n = Some node \<and> nd_proto node = announced n \<and>
      pv_set (dm_ver (announced n)) \<and> pv_set (km_ver (announced n))" if n: "n \<in> set (daemon_member d)" for n
  proof -
    obtain node where "get_node_daemon d n = Some node" "pv_major (dm_ver (nd_proto node)) \<noteq> 0"
      using True n by (fastforce simp: all_protocol_messages_def list_all_iff split: option.splits)
    moreover from this have "node \<in> set (daemon_nodes d)"
      by (auto simp: get_node_daemon_def find_Some_iff)
    ultimately show ?thesis using assms by (auto simp: announced_def nodes_ok_def)
  qed
  then have n: "\<forall>n\<in>set (daemon_member d). map_option nd_proto (get_node_daemon d n) = Some (announced n)"
    "map (dm_ver \<circ> announced) (daemon_member d) \<noteq> []" "map (km_ver \<circ> announced) (daemon_member d) \<noteq> []"
    "\<forall>v\<in>set (map (dm_ver \<circ> announced) (daemon_member d)). pv_set v"
    "\<forall>v\<in>set (map (km_ver \<circ> announced) (daemon_member d)). pv_set v"
    using True by (auto simp: all_protocol_messages_def)
  have "pick_min_protocol d (our_protocol d) \<noteq> None"
    using pick_min_version_Min [OF n(2,4)] pick_min_version_Min [OF n(3,5)]
    by (auto simp: pick_min_protocol_eq [OF n(1)])
  then obtain p where "pick_min_protocol d (our_protocol d) = Some p" by blast
  then show ?thesis using True assms by (auto simp: propose_def)
next
  case False
  then show ?thesis using assms by (auto simp: propose_def)
qed

text \<open>Events that no code path faults on, and answers of \<^verbatim>\<open>poll\<close> that do not make the loop give up.\<close>

fun event_ok :: "daemon_event \<Rightarrow> bool" where
  "event_ok (Dm_confchg members _) = (length members \<le> MAX_NODES)"
| "event_ok (Dm_deliver data) = (case data of Some (_, None) \<Rightarrow> False | _ \<Rightarrow> True)"

fun poll_ok :: "poll_answer \<Rightarrow> bool" where
  "poll_ok (Poll_eintr quit) = (\<not> quit)"
| "poll_ok Poll_errno = False"
| "poll_ok (Poll_ready events hup) = (\<not> hup \<and> (\<forall>es. events = Some es \<longrightarrow> list_all event_ok es))"

fun polled :: "poll_answer \<Rightarrow> daemon_event list" where
  "polled (Poll_ready (Some es) _) = es"
| "polled _ = []"

lemma event_ok_cb: "event_ok e \<Longrightarrow> \<exists>d'. daemon_event_cb e d = Some d'"
  by (cases e)
    (auto simp: confchg_cb_daemon_def deliver_cb_daemon_def receive_protocol_def Let_def split: option.splits)

lemma process_cpg_ok: "list_all event_ok es \<Longrightarrow> \<exists>d'. process_cpg es d = Some d'"
proof (induction es arbitrary: d)
  case (Cons e es)
  then obtain d1 where "daemon_event_cb e d = Some d1" using event_ok_cb [of e d] by auto
  then show ?case using Cons by simp
qed simp

lemma poll_step:
  assumes "poll_ok p" "nodes_ok d"
  shows "\<exists>d1. process_cpg (polled p) d = Some d1 \<and> nodes_ok d1 \<and>
    (pv_major (dr_ver (our_protocol d)) = 0 \<longrightarrow>
      (\<exists>d2 s2. nodes_ok d2 \<and> our_protocol d2 = our_protocol d \<and> big_endian d2 = big_endian d \<and>
        set_protocol_loop s (p # ps) d = (case process_cpg (polled p) d2 of
          None \<Rightarrow> None | Some d3 \<Rightarrow> set_protocol_loop s2 ps d3)))"
proof -
  obtain d2 s2 where q: "propose s d = (d2, s2, 0)" "nodes_ok d2" "our_protocol d2 = our_protocol d"
      "big_endian d2 = big_endian d" using propose_ok [OF assms(2), of s] by blast
  have "list_all event_ok (polled p)" using assms(1) by (cases p rule: polled.cases) auto
  then obtain d1 where d1: "process_cpg (polled p) d = Some d1" using process_cpg_ok by blast
  have "set_protocol_loop s (p # ps) d = (case process_cpg (polled p) d2 of
      None \<Rightarrow> None | Some d3 \<Rightarrow> set_protocol_loop s2 ps d3)" if "pv_major (dr_ver (our_protocol d)) = 0"
    using assms(1) that q(1) by (cases p rule: polled.cases) (auto simp: set_protocol_loop.simps [of s "_ # _"] split: option.split)
  then show ?thesis using d1 nodes_ok_process [OF assms(2) d1] q by blast
qed

lemma set_protocol_loop_returns:
  assumes "list_all poll_ok ps" "nodes_ok d"
    and "(if pv_major (fst (run_of d)) \<noteq> 0 then Some (run_of d)
          else first_proposal (big_endian d) (concat (map polled ps))) = Some r"
  shows "\<exists>d'. set_protocol_loop s ps d = Some (d', Some 0) \<and> run_of d' = r \<and>
    dm_ver (our_protocol d') = dm_ver (our_protocol d) \<and> km_ver (our_protocol d') = km_ver (our_protocol d)"
  using assms
proof (induction ps arbitrary: s d)
  case Nil
  then show ?case by (auto simp: set_protocol_loop.simps [of s "[]"] run_of_def split: if_splits)
next
  case (Cons p ps)
  show ?case
  proof (cases "pv_major (fst (run_of d)) = 0")
    case False
    then show ?thesis using Cons.prems(3) by (auto simp: set_protocol_loop.simps [of s "p # ps"] run_of_def)
  next
    case True
    have po: "poll_ok p" "list_all poll_ok ps" using Cons.prems(1) by simp_all
    obtain d2 s2 where d2: "nodes_ok d2" "our_protocol d2 = our_protocol d" "big_endian d2 = big_endian d"
        "set_protocol_loop s (p # ps) d = (case process_cpg (polled p) d2 of
          None \<Rightarrow> None | Some d3 \<Rightarrow> set_protocol_loop s2 ps d3)"
      using poll_step [OF po(1) Cons.prems(2), of s ps] True by (auto simp: run_of_def)
    obtain d3 where d3: "process_cpg (polled p) d2 = Some d3" "nodes_ok d3"
      using poll_step [OF po(1) d2(1)] by blast
    note run = process_cpg_run [OF d3(1)]
    have "run_of d2 = run_of d" using d2(2) by (simp add: run_of_def)
    then have "(if pv_major (fst (run_of d3)) \<noteq> 0 then Some (run_of d3)
        else first_proposal (big_endian d3) (concat (map polled ps))) = Some r"
      using run True Cons.prems(3) d2(3) first_proposal_set [of "big_endian d" "polled p"]
      by (auto simp: first_proposal_append split: option.splits)
    from Cons.IH [OF po(2) d3(2) this, of s2] show ?thesis using d2(2,4) d3(1) run by simp
  qed
qed

text \<open>
  C38. Once a valid proposal is among the delivered messages, \<^verbatim>\<open>set_protocol\<close> returns, however the events are spread over
  calls of \<^verbatim>\<open>poll\<close> and whatever else they contain: with success when the daemon supports the first proposal, with an
  error otherwise.
\<close>

theorem set_protocol_returns:
  assumes "list_all poll_ok ps" "nodes_ok d" "run_of d = (pv_zero, pv_zero)"
    and "first_proposal (big_endian d) (concat (map polled ps)) = Some (dr, kr)"
  shows "\<exists>d'. set_protocol ps d =
    Some (d', Some (if run_compatible ((our_protocol d)\<lparr>dr_ver := dr, kr_ver := kr\<rparr>) then 0 else - 1)) \<and>
    run_of d' = (dr, kr)"
proof -
  have "(if pv_major (fst (run_of d)) \<noteq> 0 then Some (run_of d)
      else first_proposal (big_endian d) (concat (map polled ps))) = Some (dr, kr)"
    using assms(3,4) by (simp add: pv_zero_def)
  from set_protocol_loop_returns [OF assms(1,2) this, of False]
  obtain d' where d': "set_protocol_loop False ps d = Some (d', Some 0)" "run_of d' = (dr, kr)"
      "dm_ver (our_protocol d') = dm_ver (our_protocol d)" "km_ver (our_protocol d') = km_ver (our_protocol d)"
    by blast
  then have "run_compatible (our_protocol d') = run_compatible ((our_protocol d)\<lparr>dr_ver := dr, kr_ver := kr\<rparr>)"
    by (simp add: run_compatible_def run_of_def)
  then show ?thesis using d'(1,2) by (simp add: set_protocol_def)
qed

theorem set_protocol_returns_witness:
  "\<exists>d'. set_protocol [Poll_ready None False, Poll_eintr False, Poll_ready (Some ex_proposals) False]
      ((ex_daemon 1 False)\<lparr>our_protocol := ex_announced 1\<rparr>) = Some (d', Some 0) \<and> run_of d' = (ex_pv 2 4, pv_111)"
proof -
  let ?ps = "[Poll_ready None False, Poll_eintr False, Poll_ready (Some ex_proposals) False]"
  let ?d = "(ex_daemon 1 False)\<lparr>our_protocol := ex_announced 1\<rparr>"
  have a: "list_all poll_ok ?ps" by (simp add: ex_proposals_def ex_message_def)
  have b: "nodes_ok ?d" "run_of ?d = (pv_zero, pv_zero)"
    by (simp_all add: nodes_ok_def run_of_def ex_daemon_def ex_announced_def proto_zero_def)
  have c: "first_proposal (big_endian ?d) (concat (map polled ?ps)) = Some (ex_pv 2 4, pv_111)" by code_simp
  have "run_compatible ((our_protocol ?d)\<lparr>dr_ver := ex_pv 2 4, kr_ver := pv_111\<rparr>)" by code_simp
  with set_protocol_returns [OF a b c] show ?thesis by simp
qed

end
