(* ===== verification/Dlm_Config.thy ===== *)
theory Dlm_Config
  imports Dlm_State Dlm_Text
begin

text \<open>
  Configuration (\<^verbatim>\<open>config.c\<close>, and the options and defaults of \<^verbatim>\<open>main.c\<close> and \<^verbatim>\<open>config.h\<close>): values come from the command
  line, from \<^verbatim>\<open>cluster.conf\<close>, from its older gfs section, or are defaults, in this order; and the weight of a node in
  a lockspace.  The configuration service is a parameter: the string it has for a path, and the list of strings it
  iterates over for a path.
\<close>

subsection \<open>Values\<close>

definition atoi :: "string \<Rightarrow> s32" where
  "atoi s = (case scan_int s of None \<Rightarrow> 0 | Some (i, _) \<Rightarrow> int_value i)"

lemma atoi_print [simp]: "atoi (print_s32 x) = x"
  using scan_int_print [of "[]" "sint x"] by (simp add: atoi_def print_s32_def)

text \<open>The variables \<^verbatim>\<open>optk_*\<close>, \<^verbatim>\<open>optd_*\<close> (set on the command line) and \<^verbatim>\<open>cfgk_*\<close>, \<^verbatim>\<open>cfgd_*\<close> (the value).\<close>

datatype cfg_key =
    K_debug | K_timewarn | K_protocol | D_debug_logfile | D_enable_fencing | D_enable_quorum | D_enable_deadlk
  | D_enable_plock | D_plock_debug | D_plock_rate_limit | D_plock_ownership | D_drop_resources_time
  | D_drop_resources_count | D_drop_resources_age

record config =
  cfg_opt :: "cfg_key \<Rightarrow> bool"
  cfg_val :: "cfg_key \<Rightarrow> s32"
  ccs_handle :: int
  daemon_debug_opt :: bool

fun cfg_default :: "cfg_key \<Rightarrow> s32" where
  "cfg_default K_debug = - 1"
| "cfg_default K_timewarn = - 1"
| "cfg_default K_protocol = - 1"
| "cfg_default D_debug_logfile = 0"
| "cfg_default D_enable_fencing = 1"
| "cfg_default D_enable_quorum = 1"
| "cfg_default D_enable_deadlk = 0"
| "cfg_default D_enable_plock = 1"
| "cfg_default D_plock_debug = 0"
| "cfg_default D_plock_rate_limit = 0"
| "cfg_default D_plock_ownership = 1"
| "cfg_default D_drop_resources_time = 10000"
| "cfg_default D_drop_resources_count = 10"
| "cfg_default D_drop_resources_age = 10000"

definition config_init :: config where
  "config_init = \<lparr>cfg_opt = (\<lambda>_. False), cfg_val = cfg_default, ccs_handle = 0, daemon_debug_opt = False\<rparr>"

definition set_cfg :: "cfg_key \<Rightarrow> s32 \<Rightarrow> config \<Rightarrow> config" where
  "set_cfg k v c = c\<lparr>cfg_val := (cfg_val c)(k := v)\<rparr>"

definition set_opt :: "cfg_key \<Rightarrow> s32 \<Rightarrow> config \<Rightarrow> config" where
  "set_opt k v c = set_cfg k v (c\<lparr>cfg_opt := (cfg_opt c)(k := True)\<rparr>)"

text \<open>The configuration as the rest of the daemon reads it.\<close>

definition daemon_config :: "config \<Rightarrow> daemon \<Rightarrow> daemon" where
  "daemon_config c d = d\<lparr>
     cfgd_enable_fencing := cfg_val c D_enable_fencing \<noteq> 0, cfgd_enable_quorum := cfg_val c D_enable_quorum \<noteq> 0,
     cfgd_enable_deadlk := cfg_val c D_enable_deadlk \<noteq> 0, cfgd_enable_plock := cfg_val c D_enable_plock \<noteq> 0,
     cfgd_plock_ownership := cfg_val c D_plock_ownership \<noteq> 0,
     cfgd_plock_rate_limit := cfg_val c D_plock_rate_limit,
     cfgd_drop_resources_time := cfg_val c D_drop_resources_time,
     cfgd_drop_resources_count := sint (cfg_val c D_drop_resources_count),
     cfgd_drop_resources_age := cfg_val c D_drop_resources_age\<rparr>"

subsection \<open>Command line\<close>

text \<open>What \<^verbatim>\<open>getopt\<close> returns for the arguments: option characters with their argument.  The left result is an exit code.\<close>

type_synonym argument = "char \<times> string"

fun read_option :: "argument \<Rightarrow> config \<Rightarrow> int + config" where
  "read_option (optchar, optarg) c =
     (if optchar = CHR ''D'' then Inr (c\<lparr>daemon_debug_opt := True\<rparr>)
      else if optchar = CHR ''L'' then Inr (set_opt D_debug_logfile 1 c)
      else if optchar = CHR ''K'' then Inr (set_opt K_debug 1 c)
      else if optchar = CHR ''f'' then Inr (set_opt D_enable_fencing (atoi optarg) c)
      else if optchar = CHR ''q'' then Inr (set_opt D_enable_quorum (atoi optarg) c)
      else if optchar = CHR ''d'' then Inr (set_opt D_enable_deadlk (atoi optarg) c)
      else if optchar = CHR ''p'' then Inr (set_opt D_enable_plock (atoi optarg) c)
      else if optchar = CHR ''P'' then Inr (set_opt D_plock_debug 1 c)
      else if optchar = CHR ''l'' then Inr (set_opt D_plock_rate_limit (atoi optarg) c)
      else if optchar = CHR ''o'' then Inr (set_opt D_plock_ownership (atoi optarg) c)
      else if optchar = CHR ''t'' then Inr (set_opt D_drop_resources_time (atoi optarg) c)
      else if optchar = CHR ''c'' then Inr (set_opt D_drop_resources_count (atoi optarg) c)
      else if optchar = CHR ''a'' then Inr (set_opt D_drop_resources_age (atoi optarg) c)
      else if optchar = CHR ''h'' \<or> optchar = CHR ''V'' then Inl 0
      else Inl 1)"

fun read_options :: "argument list \<Rightarrow> config \<Rightarrow> int + config" where
  "read_options [] c = Inr c"
| "read_options (a # as) c = (case read_option a c of Inl code \<Rightarrow> Inl code | Inr c \<Rightarrow> read_options as c)"

text \<open>\<open>env\<close>: the environment variable \<^verbatim>\<open>DLM_CONTROLD_DEBUG\<close> is set.\<close>

definition read_arguments :: "argument list \<Rightarrow> bool \<Rightarrow> config \<Rightarrow> int + config" where
  "read_arguments args env c = (case read_options args (c\<lparr>cfg_opt := (cfg_opt c)(K_timewarn := False)\<rparr>) of
       Inl code \<Rightarrow> Inl code
     | Inr c \<Rightarrow> Inr (if env then set_opt D_debug_logfile 1 c else c))"

subsection \<open>Reading cluster.conf\<close>

type_synonym ccs = "string \<Rightarrow> string option"

definition read_ccs_int :: "ccs \<Rightarrow> string \<Rightarrow> s32 \<Rightarrow> int \<times> s32" where
  "read_ccs_int ccs path config_val = (case ccs path of
       None \<Rightarrow> (- 1, config_val)
     | Some str \<Rightarrow> let val = atoi str in if sint val < 0 then (- 1, config_val) else (0, val))"

definition read_ccs_yesno :: "ccs \<Rightarrow> string \<Rightarrow> bool \<times> bool" where
  "read_ccs_yesno ccs path = (case ccs path of
       None \<Rightarrow> (False, False)
     | Some str \<Rightarrow> if str = ''yes'' then (True, False) else if str = ''no'' then (False, True) else (False, False))"

definition lower :: "char \<Rightarrow> char" where
  "lower c = (let n = of_char c :: nat in if 65 \<le> n \<and> n \<le> 90 then char_of (n + 32) else c)"

text \<open>\<^verbatim>\<open>strncasecmp(a, b, n) == 0\<close> for a literal \<open>b\<close> of length \<open>n\<close>\<close>

definition case_prefix :: "string \<Rightarrow> string \<Rightarrow> bool" where
  "case_prefix a b \<longleftrightarrow> map lower (take (length b) a) = map lower b"

abbreviation (input) PROTO_TCP :: s32 where "PROTO_TCP \<equiv> 1"
abbreviation (input) PROTO_SCTP :: s32 where "PROTO_SCTP \<equiv> 2"

definition read_ccs_protocol :: "ccs \<Rightarrow> string \<Rightarrow> s32 \<Rightarrow> s32" where
  "read_ccs_protocol ccs path config_val = (case ccs path of
       None \<Rightarrow> config_val
     | Some str \<Rightarrow>
         if case_prefix str ''tcp'' then PROTO_TCP
         else if case_prefix str ''sctp'' then PROTO_SCTP
         else config_val)"

text \<open>\<^verbatim>\<open>if (!opt) read_ccs_int(path, &cfg)\<close>, and the same with the older path tried when the first one fails.\<close>

definition ccs_int :: "ccs \<Rightarrow> cfg_key \<Rightarrow> string \<Rightarrow> config \<Rightarrow> config" where
  "ccs_int ccs k path c =
     (if cfg_opt c k then c else set_cfg k (snd (read_ccs_int ccs path (cfg_val c k))) c)"

definition ccs_int2 :: "ccs \<Rightarrow> cfg_key \<Rightarrow> string \<Rightarrow> string \<Rightarrow> config \<Rightarrow> config" where
  "ccs_int2 ccs k path old_path c =
     (if cfg_opt c k then c
      else case read_ccs_int ccs path (cfg_val c k) of (rv, v) \<Rightarrow>
        if rv < 0 then set_cfg k (snd (read_ccs_int ccs old_path v)) c else set_cfg k v c)"

definition dlm_path :: "string \<Rightarrow> string" where
  "dlm_path s = ''/cluster/dlm/@'' @ s"

definition gfs_path :: "string \<Rightarrow> string" where
  "gfs_path s = ''/cluster/gfs_controld/@'' @ s"

definition setup_ccs_first :: "ccs \<Rightarrow> config \<Rightarrow> config" where
  "setup_ccs_first ccs c =
     (let c = ccs_int ccs K_debug (dlm_path ''log_debug'') c;
          c = ccs_int ccs K_timewarn (dlm_path ''timewarn'') c;
          c = (if cfg_opt c K_protocol then c
               else set_cfg K_protocol (read_ccs_protocol ccs (dlm_path ''protocol'') (cfg_val c K_protocol)) c);
          c = ccs_int ccs D_enable_fencing (dlm_path ''enable_fencing'') c;
          c = ccs_int ccs D_enable_quorum (dlm_path ''enable_quorum'') c;
          c = ccs_int ccs D_enable_deadlk (dlm_path ''enable_deadlk'') c;
          c = ccs_int ccs D_enable_plock (dlm_path ''enable_plock'') c
      in ccs_int2 ccs D_plock_ownership (dlm_path ''plock_ownership'') (gfs_path ''plock_ownership'') c)"

definition setup_ccs_update :: "ccs \<Rightarrow> config \<Rightarrow> config" where
  "setup_ccs_update ccs c =
     (let c = ccs_int ccs D_plock_debug (dlm_path ''plock_debug'') c;
          c = ccs_int2 ccs D_plock_rate_limit (dlm_path ''plock_rate_limit'') (gfs_path ''plock_rate_limit'') c;
          c = ccs_int2 ccs D_drop_resources_time (dlm_path ''drop_resources_time'') (gfs_path ''drop_resources_time'') c;
          c = ccs_int2 ccs D_drop_resources_count (dlm_path ''drop_resources_count'') (gfs_path ''drop_resources_count'') c
      in ccs_int2 ccs D_drop_resources_age (dlm_path ''drop_resources_age'') (gfs_path ''drop_resources_age'') c)"

text \<open>\<open>cd\<close>: what \<^verbatim>\<open>ccs_connect\<close> returns.\<close>

definition setup_ccs :: "int \<Rightarrow> ccs \<Rightarrow> config \<Rightarrow> config \<times> int" where
  "setup_ccs cd ccs c =
     (if ccs_handle c \<noteq> 0 then (setup_ccs_update ccs c, 0)
      else if cd < 0 then (c, - 1)
      else (setup_ccs_update ccs (setup_ccs_first ccs (c\<lparr>ccs_handle := cd\<rparr>)), 0))"

subsection \<open>Weights\<close>

definition quoted :: "string \<Rightarrow> string" where
  "quoted s = [CHR 0x22] @ s @ [CHR 0x22]"

definition master_path :: "string \<Rightarrow> string" where
  "master_path lockspace = ''/cluster/dlm/lockspace[@name='' @ quoted lockspace @ '']/master''"

definition clusternode_path :: "nat \<Rightarrow> string \<Rightarrow> string" where
  "clusternode_path i attr = ''/cluster/clusternodes/clusternode['' @ print_nat i @ '']/@'' @ attr"

definition get_weight_lockspace :: "ccs \<Rightarrow> (string \<Rightarrow> string list) \<Rightarrow> string \<Rightarrow> string \<Rightarrow> s32" where
  "get_weight_lockspace ccs ccs_list node lockspace =
     (let masters = ccs_list (master_path lockspace @ ''/@name'') in
      if masters = [] then - 1
      else if node \<notin> set masters then 0
      else case ccs (master_path lockspace @ ''[@name='' @ quoted node @ '']/@weight'') of
          None \<Rightarrow> 1
        | Some str \<Rightarrow> atoi str)"

definition get_weight_clusternode :: "ccs \<Rightarrow> string \<Rightarrow> s32" where
  "get_weight_clusternode ccs node =
     (case ccs (''/cluster/clusternodes/clusternode[@name='' @ quoted node @ '']/@weight'') of
        None \<Rightarrow> - 1
      | Some str \<Rightarrow> atoi str)"

text \<open>
  The loop of \<^verbatim>\<open>nodeid2name\<close> from entry \<open>i\<close> on; the result is \<open>None\<close> when it does not end, \<open>Some None\<close> when the node has
  no name.
\<close>

partial_function (option) nodeid2name_from :: "ccs \<Rightarrow> s32 \<Rightarrow> nat \<Rightarrow> string option option" where
  "nodeid2name_from ccs nodeid i = (case ccs (clusternode_path i ''nodeid'') of
       None \<Rightarrow> Some None
     | Some str \<Rightarrow>
         if atoi str \<noteq> nodeid then nodeid2name_from ccs nodeid (i + 1)
         else Some (ccs (clusternode_path i ''name'')))"

declare nodeid2name_from.simps [code]

definition nodeid2name :: "ccs \<Rightarrow> s32 \<Rightarrow> string option option" where
  "nodeid2name ccs nodeid = nodeid2name_from ccs nodeid 1"

definition get_weight :: "ccs \<Rightarrow> (string \<Rightarrow> string list) \<Rightarrow> s32 \<Rightarrow> string \<Rightarrow> s32 option" where
  "get_weight ccs ccs_list nodeid lockspace = (case nodeid2name ccs nodeid of
       None \<Rightarrow> None
     | Some None \<Rightarrow> Some 1
     | Some (Some node) \<Rightarrow> Some (
         let w = get_weight_lockspace ccs ccs_list node lockspace in
         if sint w \<ge> 0 then w
         else let w = get_weight_clusternode ccs node in
           if sint w \<ge> 0 then w else 1))"

subsection \<open>Where a value comes from\<close>

text \<open>The options that set a value, the paths of a value, and the integer that \<^verbatim>\<open>cluster.conf\<close> has there.\<close>

definition opt_key :: "char \<Rightarrow> cfg_key option" where
  "opt_key = map_of [(CHR ''L'', D_debug_logfile), (CHR ''K'', K_debug), (CHR ''f'', D_enable_fencing),
     (CHR ''q'', D_enable_quorum), (CHR ''d'', D_enable_deadlk), (CHR ''p'', D_enable_plock),
     (CHR ''P'', D_plock_debug), (CHR ''l'', D_plock_rate_limit), (CHR ''o'', D_plock_ownership),
     (CHR ''t'', D_drop_resources_time), (CHR ''c'', D_drop_resources_count), (CHR ''a'', D_drop_resources_age)]"

fun arg_value :: "argument \<Rightarrow> s32" where
  "arg_value (ch, arg) = (if ch \<in> {CHR ''L'', CHR ''K'', CHR ''P''} then 1 else atoi arg)"

definition args_of :: "cfg_key \<Rightarrow> argument list \<Rightarrow> argument list" where
  "args_of k args = filter (\<lambda>a. opt_key (fst a) = Some k) args"

fun cfg_name :: "cfg_key \<Rightarrow> string" where
  "cfg_name K_debug = ''log_debug''"
| "cfg_name K_timewarn = ''timewarn''"
| "cfg_name K_protocol = ''protocol''"
| "cfg_name D_debug_logfile = ''''"
| "cfg_name D_enable_fencing = ''enable_fencing''"
| "cfg_name D_enable_quorum = ''enable_quorum''"
| "cfg_name D_enable_deadlk = ''enable_deadlk''"
| "cfg_name D_enable_plock = ''enable_plock''"
| "cfg_name D_plock_debug = ''plock_debug''"
| "cfg_name D_plock_rate_limit = ''plock_rate_limit''"
| "cfg_name D_plock_ownership = ''plock_ownership''"
| "cfg_name D_drop_resources_time = ''drop_resources_time''"
| "cfg_name D_drop_resources_count = ''drop_resources_count''"
| "cfg_name D_drop_resources_age = ''drop_resources_age''"

definition has_old_path :: "cfg_key \<Rightarrow> bool" where
  "has_old_path k \<longleftrightarrow> k \<in> {D_plock_rate_limit, D_plock_ownership, D_drop_resources_time, D_drop_resources_count,
     D_drop_resources_age}"

definition ccs_value :: "ccs \<Rightarrow> string \<Rightarrow> s32 option" where
  "ccs_value ccs path = (case ccs path of
     None \<Rightarrow> None | Some str \<Rightarrow> if sint (atoi str) < 0 then None else Some (atoi str))"

definition conf_value :: "ccs \<Rightarrow> cfg_key \<Rightarrow> s32" where
  "conf_value ccs k = (case ccs_value ccs (dlm_path (cfg_name k)) of
       Some v \<Rightarrow> v
     | None \<Rightarrow> (case if has_old_path k then ccs_value ccs (gfs_path (cfg_name k)) else None of
         Some v \<Rightarrow> v
       | None \<Rightarrow> cfg_default k))"

lemma read_ccs_int_value: "read_ccs_int ccs path old = (case ccs_value ccs path of None \<Rightarrow> (- 1, old) | Some v \<Rightarrow> (0, v))"
  by (simp add: read_ccs_int_def ccs_value_def Let_def split: option.split)

lemma set_cfg_val [simp]:
  "cfg_val (set_cfg k v c) = (cfg_val c)(k := v)" "cfg_opt (set_cfg k v c) = cfg_opt c"
  "cfg_val (set_opt k v c) = (cfg_val c)(k := v)" "cfg_opt (set_opt k v c) = (cfg_opt c)(k := True)"
  "ccs_handle (set_cfg k v c) = ccs_handle c" "ccs_handle (set_opt k v c) = ccs_handle c"
  by (simp_all add: set_cfg_def set_opt_def)

lemma ccs_int_val:
  "cfg_opt (ccs_int ccs k path c) = cfg_opt c"
  "cfg_val (ccs_int ccs k path c) j = (if j = k \<and> \<not> cfg_opt c k
     then (case ccs_value ccs path of None \<Rightarrow> cfg_val c k | Some v \<Rightarrow> v) else cfg_val c j)"
  by (auto simp: ccs_int_def read_ccs_int_value split: option.split)

lemma ccs_int2_val:
  "cfg_opt (ccs_int2 ccs k path old c) = cfg_opt c"
  "cfg_val (ccs_int2 ccs k path old c) j = (if j = k \<and> \<not> cfg_opt c k
     then (case ccs_value ccs path of
         Some v \<Rightarrow> v
       | None \<Rightarrow> (case ccs_value ccs old of None \<Rightarrow> cfg_val c k | Some v \<Rightarrow> v))
     else cfg_val c j)"
  by (auto simp: ccs_int2_def read_ccs_int_value split: option.split)

lemma setup_ccs_val:
  assumes "setup_ccs cd ccs c = (c', 0)" "ccs_handle c = 0" "k \<noteq> K_protocol" "k \<noteq> D_debug_logfile"
    and "\<not> cfg_opt c k \<Longrightarrow> cfg_val c k = cfg_default k"
  shows "cfg_val c' k = (if cfg_opt c k then cfg_val c k else conf_value ccs k)"
proof -
  have "c' = setup_ccs_update ccs (setup_ccs_first ccs (c\<lparr>ccs_handle := cd\<rparr>))"
    using assms(1,2) by (auto simp: setup_ccs_def split: if_splits)
  then show ?thesis
    using assms(3-5)
    by (cases k)
      (simp_all add: setup_ccs_update_def setup_ccs_first_def Let_def ccs_int_val ccs_int2_val conf_value_def
        has_old_path_def split: option.split)
qed

lemma read_option_val:
  assumes "read_option a c = Inr c'"
  shows "ccs_handle c' = ccs_handle c \<and> (\<forall>k.
    cfg_opt c' k = (cfg_opt c k \<or> opt_key (fst a) = Some k) \<and>
    cfg_val c' k = (if opt_key (fst a) = Some k then arg_value a else cfg_val c k))"
  using assms by (cases a) (auto simp: opt_key_def split: if_splits)

lemma read_options_val:
  assumes "read_options args c = Inr c'"
  shows "ccs_handle c' = ccs_handle c \<and> (\<forall>k.
    cfg_opt c' k = (cfg_opt c k \<or> args_of k args \<noteq> []) \<and>
    cfg_val c' k = (if args_of k args = [] then cfg_val c k else arg_value (last (args_of k args))))"
  using assms
proof (induction args arbitrary: c)
  case Nil
  then show ?case by (simp add: args_of_def)
next
  case (Cons a args)
  then obtain c1 where c1: "read_option a c = Inr c1" "read_options args c1 = Inr c'" by (auto split: sum.splits)
  show ?case using Cons.IH [OF c1(2)] read_option_val [OF c1(1)] by (auto simp: args_of_def)
qed


definition ex_ccs :: ccs where
  "ex_ccs = map_of [(dlm_path ''plock_rate_limit'', ''-5''), (gfs_path ''plock_rate_limit'', ''200''),
     (dlm_path ''enable_quorum'', ''0''), (clusternode_path 1 ''nodeid'', ''7''), (clusternode_path 1 ''name'', ''n7''),
     (clusternode_path 2 ''nodeid'', ''8''), (clusternode_path 2 ''name'', ''n8''),
     (''/cluster/clusternodes/clusternode[@name='' @ quoted ''n8'' @ '']/@weight'', ''3'')]"


subsection \<open>Looking up a weight\<close>

lemma nodeid2name_from_ends:
  assumes "i \<le> n" "ccs (clusternode_path n ''nodeid'') = None"
  shows "\<exists>r. nodeid2name_from ccs nodeid i = Some r"
  using assms
proof (induction "n - i" arbitrary: i)
  case 0
  then have "i = n" by simp
  then show ?case using 0 by (subst nodeid2name_from.simps) simp
next
  case (Suc k)
  then have "\<exists>r. nodeid2name_from ccs nodeid (i + 1) = Some r" by (intro Suc.hyps(1)) auto
  then show ?case by (subst nodeid2name_from.simps) (auto split: option.split)
qed

lemma get_weight_ends:
  assumes "1 \<le> n" "ccs (clusternode_path n ''nodeid'') = None"
  shows "\<exists>w. get_weight ccs ccs_list nodeid lockspace = Some w"
  using nodeid2name_from_ends [of 1 n ccs nodeid] assms
  by (auto simp: get_weight_def nodeid2name_def split: option.split)



end
