(* ===== verification/Dlm_Configfs.thy ===== *)
theory Dlm_Configfs
  imports Dlm_Config Cpg_History
begin

text \<open>
  What the daemon does to the kernel's directories (\<^verbatim>\<open>action.c\<close>) and how it follows the quorum service
  (\<^verbatim>\<open>member_cman.c\<close>).  The record \<open>kern\<close> holds the directories under \<^verbatim>\<open>/sys/kernel/config/dlm/cluster\<close> with the files
  written there, the files written under \<^verbatim>\<open>/sys/kernel/dlm\<close>, and the coming answers of the environment: system calls
  that fail although the directory would allow them (\<open>k_faults\<close>, \<open>[]\<close>: none does), the notifications of the quorum
  service, and the addresses corosync has for a node.  Directory entries are in the order \<^verbatim>\<open>readdir\<close> lists them.
\<close>

type_synonym 'a dir = "(string \<times> 'a) list"

record cf_node =
  cn_nodeid :: "string option"
  cn_weight :: "string option"

record cf_comm =
  cc_nodeid :: "string option"
  cc_addr :: "8 word list option"
  cc_local :: bool

datatype quorum_answer = Quorum_error | Quorum_notify "(bool \<times> nodeid list) list"

record kern =
  k_spaces :: "cf_node dir dir"
  k_comms :: "cf_comm dir"
  k_cluster :: bool
  k_attrs :: "(string \<times> string) list"
  k_sysfs :: "(string \<times> string \<times> string) list"
  k_faults :: "bool list"
  k_quorum :: "quorum_answer list"
  k_addrs :: "nodeid \<Rightarrow> 8 word list list option"

definition dir_has :: "string \<Rightarrow> 'a dir \<Rightarrow> bool" where
  "dir_has n es \<longleftrightarrow> n \<in> fst ` set es"

definition dir_del :: "string \<Rightarrow> 'a dir \<Rightarrow> 'a dir" where
  "dir_del n es = filter (\<lambda>e. fst e \<noteq> n) es"

definition dir_upd :: "string \<Rightarrow> ('a \<Rightarrow> 'a) \<Rightarrow> 'a dir \<Rightarrow> 'a dir" where
  "dir_upd n f es = map (\<lambda>e. if fst e = n then (n, f (snd e)) else e) es"

definition visible :: "'a dir \<Rightarrow> string list" where
  "visible es = filter (\<lambda>n. take 1 n \<noteq> ''.'') (map fst es)"

subsection \<open>System calls\<close>

fun fault :: "kern \<Rightarrow> bool \<times> kern" where
  "fault k = (case k_faults k of [] \<Rightarrow> (False, k) | f # fs \<Rightarrow> (f, k\<lparr>k_faults := fs\<rparr>))"

definition path_exists :: "bool \<Rightarrow> kern \<Rightarrow> bool \<times> kern" where
  "path_exists there k = (case fault k of (f, k) \<Rightarrow> (there \<and> \<not> f, k))"

text \<open>A directory is created unless its parent is missing; that it exists already is not an error.\<close>

definition create_path :: "bool \<Rightarrow> bool \<Rightarrow> (kern \<Rightarrow> kern) \<Rightarrow> kern \<Rightarrow> int \<times> kern" where
  "create_path parent there mkdir k = (case fault k of (f, k) \<Rightarrow>
     if f \<or> \<not> parent then (- 1, k) else if there then (0, k) else (0, mkdir k))"

definition rmdir :: "bool \<Rightarrow> (kern \<Rightarrow> kern) \<Rightarrow> kern \<Rightarrow> int \<times> kern" where
  "rmdir there unlink k = (case fault k of (f, k) \<Rightarrow> if f \<or> \<not> there then (- 1, k) else (0, unlink k))"

text \<open>Opening a file for writing, and \<^verbatim>\<open>do_write\<close>.\<close>

definition write_file :: "bool \<Rightarrow> (kern \<Rightarrow> kern) \<Rightarrow> kern \<Rightarrow> int \<times> kern" where
  "write_file there wr k = (case fault k of (f, k) \<Rightarrow>
     if f \<or> \<not> there then (- 1, k)
     else case fault k of (f, k) \<Rightarrow> if f then (- 1, k) else (0, wr k))"

subsection \<open>Sysfs files of a lockspace\<close>

definition do_sysfs :: "string \<Rightarrow> string \<Rightarrow> string \<Rightarrow> kern \<Rightarrow> int \<times> kern" where
  "do_sysfs name file val k = write_file True (\<lambda>k. k\<lparr>k_sysfs := k_sysfs k @ [(name, file, val)]\<rparr>) k"

definition set_sysfs_control :: "string \<Rightarrow> int \<Rightarrow> kern \<Rightarrow> int \<times> kern" where
  "set_sysfs_control name val k = do_sysfs name ''control'' (print_int val) k"

definition set_sysfs_event_done :: "string \<Rightarrow> int \<Rightarrow> kern \<Rightarrow> int \<times> kern" where
  "set_sysfs_event_done name val k = do_sysfs name ''event_done'' (print_int val) k"

definition set_sysfs_id :: "string \<Rightarrow> u32 \<Rightarrow> kern \<Rightarrow> int \<times> kern" where
  "set_sysfs_id name nid k = do_sysfs name ''id'' (print_u32 nid) k"

subsection \<open>Nodes of the cluster\<close>

definition upd_comm :: "nodeid \<Rightarrow> (cf_comm \<Rightarrow> cf_comm) \<Rightarrow> kern \<Rightarrow> kern" where
  "upd_comm nodeid f k = k\<lparr>k_comms := dir_upd (print_s32 nodeid) f (k_comms k)\<rparr>"

abbreviation (input) SOCKADDR_STORAGE :: nat where "SOCKADDR_STORAGE \<equiv> 128"

text \<open>\<open>None\<close>: the address does not fit \<^verbatim>\<open>padded_addr\<close>.\<close>

definition add_configfs_node :: "nodeid \<Rightarrow> 8 word list \<Rightarrow> bool \<Rightarrow> kern \<Rightarrow> (int \<times> kern) option" where
  "add_configfs_node nodeid addr local k =
     (let dirname = print_s32 nodeid in
      case create_path (k_cluster k) (dir_has dirname (k_comms k))
          (\<lambda>k. k\<lparr>k_comms := k_comms k @ [(dirname, \<lparr>cc_nodeid = None, cc_addr = None, cc_local = False\<rparr>)]\<rparr>) k of (rv, k) \<Rightarrow>
      if rv \<noteq> 0 then Some (- 1, k)
      else case write_file (dir_has dirname (k_comms k)) (upd_comm nodeid (\<lambda>c. c\<lparr>cc_nodeid := Some dirname\<rparr>)) k of (rv, k) \<Rightarrow>
      if rv < 0 then Some (- 1, k)
      else if length addr > SOCKADDR_STORAGE then None
      else case write_file (dir_has dirname (k_comms k)) (upd_comm nodeid
          (\<lambda>c. c\<lparr>cc_addr := Some (addr @ replicate (SOCKADDR_STORAGE - length addr) 0)\<rparr>)) k of (rv, k) \<Rightarrow>
      if rv < 0 then Some (- 1, k)
      else if \<not> local then Some (0, k)
      else case write_file (dir_has dirname (k_comms k)) (upd_comm nodeid (\<lambda>c. c\<lparr>cc_local := True\<rparr>)) k of (rv, k) \<Rightarrow>
      Some (if rv < 0 then - 1 else 0, k))"

definition del_configfs_node :: "nodeid \<Rightarrow> kern \<Rightarrow> kern" where
  "del_configfs_node nodeid k =
     snd (rmdir (dir_has (print_s32 nodeid) (k_comms k)) (\<lambda>k. k\<lparr>k_comms := dir_del (print_s32 nodeid) (k_comms k)\<rparr>) k)"

subsection \<open>The quorum service\<close>

definition is_old_member :: "nodeid list \<Rightarrow> nodeid \<Rightarrow> bool" where
  "is_old_member old_nodes nodeid = is_member old_nodes nodeid"

fun add_addrs :: "daemon \<Rightarrow> nodeid \<Rightarrow> 8 word list list \<Rightarrow> kern \<Rightarrow> kern option" where
  "add_addrs d n [] k = Some k"
| "add_addrs d n (a # as) k = (case add_configfs_node n a (n = our_nodeid d) k of
       None \<Rightarrow> None
     | Some (rv, k) \<Rightarrow> add_addrs d n as k)"

fun add_cluster_nodes :: "daemon \<Rightarrow> nodeid list \<Rightarrow> nodeid list \<Rightarrow> kern \<Rightarrow> kern option" where
  "add_cluster_nodes d old [] k = Some k"
| "add_cluster_nodes d old (n # ns) k =
     (if is_old_member old n then add_cluster_nodes d old ns k
      else case k_addrs k n of
          None \<Rightarrow> add_cluster_nodes d old ns k
        | Some addrs \<Rightarrow> (case add_addrs d n addrs k of
            None \<Rightarrow> None
          | Some k \<Rightarrow> add_cluster_nodes d old ns k))"

text \<open>\<open>None\<close>: more nodes than \<^verbatim>\<open>quorum_nodes\<close> holds.\<close>

definition quorum_callback :: "bool \<Rightarrow> nodeid list \<Rightarrow> daemon \<Rightarrow> kern \<Rightarrow> (daemon \<times> kern) option" where
  "quorum_callback quorate node_list d k =
     (if length node_list > MAX_NODES then None
      else let old = quorum_nodes d;
               d = d\<lparr>cluster_quorate := quorate, quorum_nodes := node_list\<rparr>;
               k = fold del_configfs_node (filter (\<lambda>n. \<not> is_cluster_member d n) old) k
           in map_option (\<lambda>k. (d, k)) (add_cluster_nodes d old node_list k))"

definition cluster_dead :: "daemon \<Rightarrow> daemon" where
  "cluster_dead d = d\<lparr>daemon_quit := True, cluster_down := True\<rparr>"

fun quorum_callbacks :: "(bool \<times> nodeid list) list \<Rightarrow> daemon \<Rightarrow> kern \<Rightarrow> (daemon \<times> kern) option" where
  "quorum_callbacks [] d k = Some (d, k)"
| "quorum_callbacks ((q, ns) # es) d k = (case quorum_callback q ns d k of
       None \<Rightarrow> None
     | Some (d, k) \<Rightarrow> quorum_callbacks es d k)"

text \<open>\<^verbatim>\<open>quorum_dispatch\<close>; without a coming answer it finds nothing to deliver.\<close>

definition update_cluster :: "daemon \<Rightarrow> kern \<Rightarrow> (daemon \<times> kern) option" where
  "update_cluster d k = (case k_quorum k of
       [] \<Rightarrow> Some (d, k)
     | Quorum_error # qs \<Rightarrow> Some (cluster_dead d, k\<lparr>k_quorum := qs\<rparr>)
     | Quorum_notify es # qs \<Rightarrow> quorum_callbacks es d (k\<lparr>k_quorum := qs\<rparr>))"

definition process_cluster :: "daemon \<Rightarrow> kern \<Rightarrow> (daemon \<times> kern) option" where
  "process_cluster d k = update_cluster d k"

text \<open>The answers of \<^verbatim>\<open>quorum_initialize\<close>, \<^verbatim>\<open>quorum_fd_get\<close> and \<^verbatim>\<open>quorum_trackstart\<close>.\<close>

definition setup_cluster :: "bool \<Rightarrow> bool \<Rightarrow> bool \<Rightarrow> int \<Rightarrow> daemon \<Rightarrow> daemon \<times> int" where
  "setup_cluster init_ok fd_ok track_ok fd d =
     (if init_ok \<and> fd_ok \<and> track_ok then (d\<lparr>quorum_nodes := []\<rparr>, fd) else (d, - 1))"

definition setup_cluster_cfg :: "bool \<Rightarrow> bool \<Rightarrow> nodeid option \<Rightarrow> int \<Rightarrow> daemon \<Rightarrow> daemon \<times> int" where
  "setup_cluster_cfg init_ok fd_ok local_get fd d =
     (if \<not> init_ok \<or> \<not> fd_ok then (d, - 1)
      else case local_get of None \<Rightarrow> (d, - 1) | Some nodeid \<Rightarrow> (d\<lparr>our_nodeid := nodeid\<rparr>, fd))"

text \<open>What the daemon answers to a request to shut the cluster down; \<open>None\<close> when it was not a request.\<close>

definition shutdown_callback :: "bool \<Rightarrow> lockspace list \<Rightarrow> bool option" where
  "shutdown_callback request lockspaces = (if request then Some (lockspaces = []) else None)"

subsection \<open>Members of a lockspace\<close>

definition id_exists :: "nodeid \<Rightarrow> nodeid list \<Rightarrow> bool" where
  "id_exists nid array = (nid \<in> set array)"

definition node_exists :: "string \<Rightarrow> nodeid \<Rightarrow> kern \<Rightarrow> bool" where
  "node_exists name nid k = (case map_of (k_spaces k) name of None \<Rightarrow> False | Some es \<Rightarrow> dir_has (print_s32 nid) es)"

definition upd_nodes :: "string \<Rightarrow> (cf_node dir \<Rightarrow> cf_node dir) \<Rightarrow> kern \<Rightarrow> kern" where
  "upd_nodes name f k = k\<lparr>k_spaces := dir_upd name f (k_spaces k)\<rparr>"

definition upd_node :: "string \<Rightarrow> nodeid \<Rightarrow> (cf_node \<Rightarrow> cf_node) \<Rightarrow> kern \<Rightarrow> kern" where
  "upd_node name nid f = upd_nodes name (dir_upd (print_s32 nid) f)"

text \<open>\<open>Some None\<close>: the directory cannot be read; \<open>None\<close>: more entries than \<^verbatim>\<open>dir_members\<close> holds.\<close>

definition update_dir_members :: "string \<Rightarrow> kern \<Rightarrow> (nodeid list option \<times> kern) option" where
  "update_dir_members name k = (case fault k of (f, k) \<Rightarrow>
     case map_of (k_spaces k) name of
       None \<Rightarrow> Some (None, k)
     | Some es \<Rightarrow>
         if f then Some (None, k)
         else if length (visible es) > MAX_NODES then None
         else Some (Some (map atoi (visible es)), k))"

definition rmdir_node :: "string \<Rightarrow> nodeid \<Rightarrow> kern \<Rightarrow> int \<times> kern" where
  "rmdir_node name nid k = rmdir (node_exists name nid k) (upd_nodes name (dir_del (print_s32 nid))) k"

fun remove_gone :: "string \<Rightarrow> nodeid list \<Rightarrow> nodeid list \<Rightarrow> kern \<Rightarrow> int \<times> kern" where
  "remove_gone name new_members [] k = (0, k)"
| "remove_gone name new_members (nid # ids) k =
     (if id_exists nid new_members then remove_gone name new_members ids k
      else case rmdir_node name nid k of (rv, k) \<Rightarrow>
        if rv \<noteq> 0 then (rv, k) else remove_gone name new_members ids k)"

text \<open>The directory of a lockspace can be removed when it has no nodes.\<close>

definition rmdir_space :: "string \<Rightarrow> kern \<Rightarrow> int \<times> kern" where
  "rmdir_space name k = rmdir (map_of (k_spaces k) name = Some []) (\<lambda>k. k\<lparr>k_spaces := dir_del name (k_spaces k)\<rparr>) k"

text \<open>Creating a node's directory and its files; \<open>None\<close>: the weight lookup does not return.\<close>

definition make_node :: "ccs \<Rightarrow> (string \<Rightarrow> string list) \<Rightarrow> string \<Rightarrow> nodeid \<Rightarrow> kern \<Rightarrow> (int \<times> kern) option" where
  "make_node ccs ccs_list name nid k =
     (case create_path (dir_has name (k_spaces k)) (node_exists name nid k)
        (upd_nodes name (\<lambda>es. es @ [(print_s32 nid, \<lparr>cn_nodeid = None, cn_weight = None\<rparr>)])) k of (rv, k) \<Rightarrow>
      if rv \<noteq> 0 then Some (rv, k)
      else case write_file (node_exists name nid k) (upd_node name nid (\<lambda>c. c\<lparr>cn_nodeid := Some (print_s32 nid)\<rparr>)) k of
        (rv, k) \<Rightarrow>
      if rv < 0 then Some (rv, k)
      else case get_weight ccs ccs_list nid name of
          None \<Rightarrow> None
        | Some w \<Rightarrow>
            Some (write_file (node_exists name nid k) (upd_node name nid (\<lambda>c. c\<lparr>cn_weight := Some (print_s32 w)\<rparr>)) k))"

definition set_member ::
  "ccs \<Rightarrow> (string \<Rightarrow> string list) \<Rightarrow> string \<Rightarrow> nodeid list \<Rightarrow> nodeid list \<Rightarrow> nodeid \<Rightarrow> daemon \<Rightarrow> kern \<Rightarrow>
    (int \<times> daemon \<times> kern) option"
where
  "set_member ccs ccs_list name renew_members old_members nid d k =
     (let do_renew = id_exists nid renew_members in
      if \<not> do_renew \<and> id_exists nid old_members then Some (0, d, k)
      else case (if is_cluster_member d nid then Some (d, k) else update_cluster d k) of
          None \<Rightarrow> None
        | Some (d, k) \<Rightarrow> (case (if do_renew then rmdir_node name nid k else (0, k)) of (rv, k) \<Rightarrow>
            if rv \<noteq> 0 then Some (rv, d, k)
            else map_option (\<lambda>(rv, k). (rv, d, k)) (make_node ccs ccs_list name nid k)))"

fun set_members ::
  "ccs \<Rightarrow> (string \<Rightarrow> string list) \<Rightarrow> string \<Rightarrow> nodeid list \<Rightarrow> nodeid list \<Rightarrow> nodeid list \<Rightarrow> daemon \<Rightarrow> kern \<Rightarrow>
    (int \<times> daemon \<times> kern) option"
where
  "set_members ccs ccs_list name renew old [] d k = Some (0, d, k)"
| "set_members ccs ccs_list name renew old (nid # ids) d k = (case set_member ccs ccs_list name renew old nid d k of
       None \<Rightarrow> None
     | Some (rv, d, k) \<Rightarrow>
         if rv \<noteq> 0 then Some (rv, d, k) else set_members ccs ccs_list name renew old ids d k)"

definition set_configfs_members ::
  "ccs \<Rightarrow> (string \<Rightarrow> string list) \<Rightarrow> string \<Rightarrow> nodeid list \<Rightarrow> nodeid list \<Rightarrow> daemon \<Rightarrow> kern \<Rightarrow> (int \<times> daemon \<times> kern) option"
where
  "set_configfs_members ccs ccs_list name new_members renew_members d k =
     (case path_exists (dir_has name (k_spaces k)) k of (there, k) \<Rightarrow>
      case (if there then (0, k)
            else create_path (k_cluster k) (dir_has name (k_spaces k)) (\<lambda>k. k\<lparr>k_spaces := k_spaces k @ [(name, [])]\<rparr>) k) of
        (rv, k) \<Rightarrow>
      if rv \<noteq> 0 then Some (- 1, d, k)
      else case update_dir_members name k of
          None \<Rightarrow> None
        | Some (None, k) \<Rightarrow> Some (- 1, d, k)
        | Some (Some old_members, k) \<Rightarrow> (case remove_gone name new_members old_members k of (rv, k) \<Rightarrow>
            if rv \<noteq> 0 then Some (rv, d, k)
            else let k = (if new_members = [] then snd (rmdir_space name k) else k)
                 in set_members ccs ccs_list name renew_members old_members new_members d k))"

subsection \<open>Clearing and setting up\<close>

text \<open>\<open>None\<close>: more entries than \<^verbatim>\<open>comms_nodes\<close> holds.\<close>

definition update_comms_nodes :: "kern \<Rightarrow> (nodeid list option \<times> kern) option" where
  "update_comms_nodes k = (case fault k of (f, k) \<Rightarrow>
     if f \<or> \<not> k_cluster k then Some (None, k)
     else if length (visible (k_comms k)) > MAX_NODES then None
     else Some (Some (map atoi (visible (k_comms k))), k))"

definition clear_configfs_comms :: "kern \<Rightarrow> kern option" where
  "clear_configfs_comms k = (case update_comms_nodes k of
       None \<Rightarrow> None
     | Some (None, k) \<Rightarrow> Some k
     | Some (Some ids, k) \<Rightarrow> Some (fold del_configfs_node ids k))"

definition clear_configfs_space_nodes :: "string \<Rightarrow> kern \<Rightarrow> kern option" where
  "clear_configfs_space_nodes name k = (case update_dir_members name k of
       None \<Rightarrow> None
     | Some (None, k) \<Rightarrow> Some k
     | Some (Some ids, k) \<Rightarrow> Some (fold (\<lambda>nid k. snd (rmdir_node name nid k)) ids k))"

fun clear_spaces :: "string list \<Rightarrow> kern \<Rightarrow> kern option" where
  "clear_spaces [] k = Some k"
| "clear_spaces (name # names) k = (case clear_configfs_space_nodes name k of
       None \<Rightarrow> None
     | Some k \<Rightarrow> clear_spaces names (snd (rmdir_space name k)))"

definition clear_configfs_spaces :: "kern \<Rightarrow> kern option" where
  "clear_configfs_spaces k = (case fault k of (f, k) \<Rightarrow>
     if f \<or> \<not> k_cluster k then Some k else clear_spaces (visible (k_spaces k)) k)"

definition clear_configfs :: "kern \<Rightarrow> kern option" where
  "clear_configfs k = (case clear_configfs_comms k of
       None \<Rightarrow> None
     | Some k \<Rightarrow> (case clear_configfs_spaces k of
         None \<Rightarrow> None
       | Some k \<Rightarrow> Some (snd (rmdir (k_cluster k \<and> k_comms k = [] \<and> k_spaces k = []) (\<lambda>k. k\<lparr>k_cluster := False\<rparr>) k))))"

text \<open>\<open>configfs\<close> and \<open>dlm\<close>: the directories \<^verbatim>\<open>/sys/kernel/config\<close> and \<^verbatim>\<open>/sys/kernel/config/dlm\<close> are there.\<close>

definition add_configfs_base :: "bool \<Rightarrow> bool \<Rightarrow> kern \<Rightarrow> int \<times> kern" where
  "add_configfs_base configfs dlm k =
     (case path_exists configfs k of (there, k) \<Rightarrow>
      if \<not> there then (- 1, k)
      else case path_exists dlm k of (there, k) \<Rightarrow>
      if \<not> there then (- 1, k)
      else case path_exists (k_cluster k) k of (there, k) \<Rightarrow>
      if there then (0, k) else create_path True (k_cluster k) (\<lambda>k. k\<lparr>k_cluster := True\<rparr>) k)"

definition set_configfs_attr :: "string \<Rightarrow> s32 \<Rightarrow> kern \<Rightarrow> int \<times> kern" where
  "set_configfs_attr attr val k =
     write_file (k_cluster k) (\<lambda>k. k\<lparr>k_attrs := k_attrs k @ [(attr, print_s32 val)]\<rparr>) k"

definition set_configfs_protocol :: "s32 \<Rightarrow> kern \<Rightarrow> int \<times> kern" where
  "set_configfs_protocol proto k = set_configfs_attr ''protocol'' proto k"

definition set_configfs_timewarn :: "s32 \<Rightarrow> kern \<Rightarrow> int \<times> kern" where
  "set_configfs_timewarn cs k = set_configfs_attr ''timewarn_cs'' cs k"

definition set_configfs_debug :: "s32 \<Rightarrow> kern \<Rightarrow> int \<times> kern" where
  "set_configfs_debug val k = set_configfs_attr ''log_debug'' val k"

definition setup_configfs :: "config \<Rightarrow> bool \<Rightarrow> bool \<Rightarrow> daemon \<Rightarrow> kern \<Rightarrow> (int \<times> daemon \<times> kern) option" where
  "setup_configfs c configfs dlm d k = (case clear_configfs k of
       None \<Rightarrow> None
     | Some k \<Rightarrow> (case add_configfs_base configfs dlm k of (rv, k) \<Rightarrow>
         if rv < 0 then Some (rv, d, k)
         else case update_cluster d k of
             None \<Rightarrow> None
           | Some (d, k) \<Rightarrow>
               let k = (if cfg_val c K_debug \<noteq> - 1 then snd (set_configfs_debug (cfg_val c K_debug) k) else k);
                   k = (if cfg_val c K_timewarn \<noteq> - 1 then snd (set_configfs_timewarn (cfg_val c K_timewarn) k) else k);
                   k = (if cfg_val c K_protocol \<noteq> - 1 then snd (set_configfs_protocol (cfg_val c K_protocol) k) else k)
               in Some (0, d, k)))"

subsection \<open>Sysfs and devices at the start\<close>

text \<open>The entries of \<^verbatim>\<open>/sys/kernel/dlm\<close>, if it can be opened.\<close>

definition check_uncontrolled_lockspaces :: "string list option \<Rightarrow> daemon \<Rightarrow> daemon \<times> int" where
  "check_uncontrolled_lockspaces entries d = (case entries of
       None \<Rightarrow> (d, 0)
     | Some names \<Rightarrow>
         if filter (\<lambda>n. take 1 n \<noteq> ''.'') names \<noteq> [] then (kick_node_from_cluster d (our_nodeid d), - 1) else (d, 0))"

text \<open>
  A file system directory lists names with what can be read from \<^verbatim>\<open>lock_module/id\<close> below them; the name of the mount
  group is what follows the first colon, in at most 65 bytes.
\<close>

definition after_colon :: "string \<Rightarrow> string option" where
  "after_colon s = (case dropWhile (\<lambda>c. c \<noteq> CHR '':'') s of [] \<Rightarrow> None | _ # t \<Rightarrow> Some t)"

fun scan_mountgroups :: "u32 \<Rightarrow> (string \<times> u32 option) list \<Rightarrow> string option" where
  "scan_mountgroups mg_id [] = None"
| "scan_mountgroups mg_id ((d_name, nid) # es) =
     (if take 1 d_name = ''.'' \<or> nid \<noteq> Some mg_id then scan_mountgroups mg_id es
      else case after_colon d_name of
          None \<Rightarrow> scan_mountgroups mg_id es
        | Some fsname \<Rightarrow> Some (take 65 fsname))"

definition get_mountgroup_name ::
  "(string \<times> u32 option) list option \<Rightarrow> (string \<times> u32 option) list option \<Rightarrow> u32 \<Rightarrow> string option"
where
  "get_mountgroup_name gfs gfs2 mg_id =
     (case Option.bind gfs (scan_mountgroups mg_id) of
        Some name \<Rightarrow> Some name
      | None \<Rightarrow> Option.bind gfs2 (scan_mountgroups mg_id))"

record minors =
  control_minor :: u32
  monitor_minor :: u32
  plock_minor :: u32
  old_plock_minor :: u32

text \<open>The lines of \<^verbatim>\<open>/proc/misc\<close> that scan as a number and a name; the search ends after the third device.\<close>

fun find_minors_loop :: "nat \<Rightarrow> (u32 \<times> string) list \<Rightarrow> minors \<Rightarrow> minors" where
  "find_minors_loop found [] m = m"
| "find_minors_loop found ((number, name) # lines) m =
     (let (m, found) =
        (if name = ''dlm-control'' then (m\<lparr>control_minor := number\<rparr>, found + 1)
         else if name = ''dlm-monitor'' then (m\<lparr>monitor_minor := number\<rparr>, found + 1)
         else if name = ''dlm_plock'' then (m\<lparr>plock_minor := number\<rparr>, found + 1)
         else if name = ''lock_dlm_plock'' then (m\<lparr>old_plock_minor := number\<rparr>, found + 1)
         else (m, found))
      in if found = 3 then m else find_minors_loop found lines m)"

definition find_minors :: "(u32 \<times> string) list option \<Rightarrow> minors" where
  "find_minors misc =
     (let m = \<lparr>control_minor = 0, monitor_minor = 0, plock_minor = 0, old_plock_minor = 0\<rparr> in
      case misc of None \<Rightarrow> m | Some lines \<Rightarrow> find_minors_loop 0 lines m)"

text \<open>The minor number that \<^verbatim>\<open>stat\<close> finds at a path, second by second.\<close>

definition find_udev_device :: "u32 option list \<Rightarrow> u32 \<Rightarrow> int" where
  "find_udev_device stats minor = (if Some minor \<in> set (take 10 stats) then 0 else - 1)"

definition setup_misc_devices :: "(u32 \<times> string) list option \<Rightarrow> (string \<Rightarrow> u32 option list) \<Rightarrow> int \<times> minors" where
  "setup_misc_devices misc stats =
     (let m = find_minors misc in
      if control_minor m \<noteq> 0 \<and> find_udev_device (stats ''/dev/misc/dlm-control'') (control_minor m) < 0 then (- 1, m)
      else if monitor_minor m \<noteq> 0 \<and> find_udev_device (stats ''/dev/misc/dlm-monitor'') (monitor_minor m) < 0 then (- 1, m)
      else if plock_minor m \<noteq> 0 \<and> find_udev_device (stats ''/dev/misc/dlm_plock'') (plock_minor m) < 0 then (- 1, m)
      else if plock_minor m = 0 \<and> old_plock_minor m \<noteq> 0 \<and>
          find_udev_device (stats ''/dev/misc/lock_dlm_plock'') (old_plock_minor m) < 0 then (- 1, m)
      else (0, m))"

end
