(* ===== verification/Cpg_Frame.thy ===== *)
theory Cpg_Frame
  imports Cpg_Change
begin

text \<open>
  The plock and deadlock handlers leave the membership part of the state alone.  \<open>d_core\<close> and \<open>ls_core\<close> blank out
  the fields those handlers write; the operations on the kernel they keep are the ones of recovery.
\<close>

fun recovery_op :: "kernel_op \<Rightarrow> bool" where
  "recovery_op (Deadlock_cancel _ _) = False"
| "recovery_op _ = True"

definition d_core :: "daemon \<Rightarrow> daemon" where
  "d_core d = d\<lparr>dmem := [], mcast := [], sent := [], plock_results := [],
     kernel_ops := filter recovery_op (kernel_ops d), plock_read_count := 0, plock_recv_count := 0,
     plock_rate_delays := 0, plock_read_time := \<lparr>tv_sec = 0, tv_usec = 0\<rparr>,
     plock_recv_time := \<lparr>tv_sec = 0, tv_usec = 0\<rparr>, ckpt_answers := [], ckpt_ops := []\<rparr>"

definition ls_core :: "lockspace \<Rightarrow> lockspace" where
  "ls_core ls = ls\<lparr>ls_saved_messages := [], ls_plock_resources := [], ls_last_checkpoint_time := 0,
     ls_last_plock_time := 0, ls_drop_resources_last := \<lparr>tv_sec = 0, tv_usec = 0\<rparr>, ls_plock_ckpt_handle := 0,
     ls_deadlk := dk_zero\<rparr>"

text \<open>A handler's result agrees with its argument outside those fields.\<close>

definition framed :: "daemon \<Rightarrow> lockspace \<Rightarrow> daemon \<Rightarrow> lockspace \<Rightarrow> bool" where
  "framed d ls d' ls' \<longleftrightarrow> d_core d' = d_core d \<and> ls_core ls' = ls_core ls"

lemma framed_refl [simp]: "framed d ls d ls"
  by (simp add: framed_def)

lemma framed_trans: "framed d ls d1 ls1 \<Longrightarrow> framed d1 ls1 d2 ls2 \<Longrightarrow> framed d ls d2 ls2"
  by (simp add: framed_def)

lemma d_core_upd [simp]:
  "d_core (d\<lparr>dmem := m\<rparr>) = d_core d"
  "d_core (d\<lparr>mcast := x, sent := y\<rparr>) = d_core d"
  "d_core (d\<lparr>plock_results := z\<rparr>) = d_core d"
  "d_core (d\<lparr>plock_read_count := n\<rparr>) = d_core d"
  "d_core (d\<lparr>plock_recv_count := n\<rparr>) = d_core d"
  "d_core (d\<lparr>plock_recv_time := t\<rparr>) = d_core d"
  "d_core (d\<lparr>plock_read_time := t, plock_rate_delays := k\<rparr>) = d_core d"
  "d_core (d\<lparr>ckpt_answers := as\<rparr>) = d_core d"
  "d_core (d\<lparr>ckpt_ops := ops\<rparr>) = d_core d"
  by (simp_all add: d_core_def)

lemma ls_core_upd [simp]:
  "ls_core (ls\<lparr>ls_saved_messages := x1\<rparr>) = ls_core ls"
  "ls_core (ls\<lparr>ls_plock_resources := x2\<rparr>) = ls_core ls"
  "ls_core (ls\<lparr>ls_last_checkpoint_time := x3\<rparr>) = ls_core ls"
  "ls_core (ls\<lparr>ls_last_plock_time := x3\<rparr>) = ls_core ls"
  "ls_core (ls\<lparr>ls_drop_resources_last := x4\<rparr>) = ls_core ls"
  "ls_core (ls\<lparr>ls_plock_ckpt_handle := x5\<rparr>) = ls_core ls"
  "ls_core (ls\<lparr>ls_deadlk := x6\<rparr>) = ls_core ls"
  by (simp_all add: ls_core_def)

subsection \<open>Plock handlers\<close>

lemma send_core [simp]:
  "d_core (dlm_send_message d ls h b) = d_core d"
  "d_core (fst (send_struct_info d ls i t)) = d_core d"
  "d_core (send_plock d ls i) = d_core d"
  "d_core (send_own d ls r n) = d_core d"
  "d_core (send_drop d ls r) = d_core d"
  "d_core (write_result d ls i rv) = d_core d"
  "d_core (write_fail d i rv) = d_core d"
  by (simp_all add: dlm_send_message_def send_message_def send_struct_info_def send_plock_def send_own_def
      send_drop_def write_result_def write_fail_def Let_def split: prod.split option.split)

lemma send_struct_core: "send_struct_info d ls i t = (d', rv) \<Longrightarrow> d_core d' = d_core d"
  using send_core(2) [of d ls i t] by simp

lemma resource_core [simp]: "ls_core (set_resource ls r) = ls_core ls" "ls_core (del_resource ls r) = ls_core ls"
  "ls_core (put_resource d ls r) = ls_core ls"
  by (simp_all add: set_resource_def del_resource_def put_resource_def)

lemma find_resource_core: "find_resource d ls n c = (d', ls', ro, rv) \<Longrightarrow> framed d ls d' ls'"
  by (auto simp: find_resource_def framed_def Let_def split: option.splits if_splits prod.splits)

lemma do_waiters_loop_core: "do_waiters_loop d ls r ws = (d', r', kept) \<Longrightarrow> d_core d' = d_core d"
proof (induction ws arbitrary: d r d' r' kept)
  case (Cons w ws)
  show ?case
  proof (cases "fst (is_conflict r (w_info w) False)")
    case True
    then show ?thesis using Cons by (auto split: prod.splits)
  next
    case False
    obtain m r1 rv where l: "lock_internal (dmem d) r (w_info w) = (m, r1, rv)" by (metis prod_cases3)
    show ?thesis using Cons.prems False l by (auto simp: Let_def split: if_splits dest!: Cons.IH)
  qed
qed simp

lemma do_waiters_core: "do_waiters d ls r = (d', r') \<Longrightarrow> d_core d' = d_core d"
  by (auto simp: do_waiters_def split: prod.splits dest: do_waiters_loop_core)

lemma finish_op_core: "finish_op d ls r = (d', ls') \<Longrightarrow> framed d ls d' ls'"
  by (auto simp: finish_op_def framed_def split: prod.splits dest: do_waiters_core)

lemma do_lock_core: "do_lock d ls i r = (d', ls') \<Longrightarrow> framed d ls d' ls'"
  by (auto simp: do_lock_def framed_def Let_def split: prod.splits if_splits dest!: finish_op_core)

lemma do_unlock_core: "do_unlock d ls i r = (d', ls') \<Longrightarrow> framed d ls d' ls'"
  by (auto simp: do_unlock_def framed_def Let_def split: prod.splits if_splits dest!: finish_op_core)

lemma do_get_core [simp]: "d_core (do_get d ls i r) = d_core d"
  by (simp add: do_get_def split: prod.split)

lemma receive_plock_op_core: "receive_plock_op d ls i from r = (d', ls') \<Longrightarrow> framed d ls d' ls'"
  by (auto simp: receive_plock_op_def framed_def split: plock_op.splits if_splits
      dest!: do_lock_core do_unlock_core)

lemma save_message_core: "save_message d ls h b n t = (d', ls') \<Longrightarrow> framed d ls d' ls'"
  by (auto simp: save_message_def framed_def split: prod.splits option.splits)

lemma save_pending_core: "save_pending_plock d r i = (d', r') \<Longrightarrow> d_core d' = d_core d"
  by (auto simp: save_pending_plock_def split: prod.splits option.splits)

lemma syncs_locks_dcore: "send_syncs_locks d ls r pos = (d', pos', ok) \<Longrightarrow> d_core d' = d_core d"
  by (induction pos arbitrary: d pos') (fastforce split: prod.splits if_splits dest: send_struct_core)+

lemma syncs_waiters_dcore: "send_syncs_waiters d ls ws = (d', ws') \<Longrightarrow> d_core d' = d_core d"
  by (induction ws arbitrary: d ws') (fastforce split: prod.splits if_splits dest: send_struct_core)+

lemma syncs_dcore: "send_syncs d ls r = (d', r') \<Longrightarrow> d_core d' = d_core d"
  by (auto simp: send_syncs_def split: prod.splits if_splits dest!: syncs_locks_dcore syncs_waiters_dcore)

lemma add_pending_loop_core: "add_pending_loop d ls n ws = (d', ls') \<Longrightarrow> framed d ls d' ls'"
  by (induction d ls n ws rule: add_pending_loop.induct)
    (fastforce simp: framed_def split: option.splits prod.splits dest: receive_plock_op_core)+

lemma send_pending_loop_core [simp]: "d_core (send_pending_loop d ls ws) = d_core d"
  by (induction ws arbitrary: d) simp_all

lemma hold_own_plock_core: "hold_own_plock d ls from i r = (d', ls') \<Longrightarrow> framed d ls d' ls'"
  by (auto simp: hold_own_plock_def framed_def split: if_splits prod.splits dest!: save_pending_core)

lemma receive_plock_missing_core: "receive_plock_missing d ls from i = (d', ls') \<Longrightarrow> framed d ls d' ls'"
  by (auto simp: receive_plock_missing_def framed_def split: if_splits prod.splits option.splits
      dest!: save_pending_core find_resource_core)

lemma receive_plock_owner_core: "receive_plock_owner d ls from i r = (d', ls') \<Longrightarrow> framed d ls d' ls'"
  by (auto simp: receive_plock_owner_def split: if_splits dest!: receive_plock_op_core hold_own_plock_core)

lemma count_core [simp]: "d_core (count_recv d) = d_core d" "d_core (count_read d) = d_core d"
  by (simp_all add: count_recv_def count_read_def Let_def)

lemma count_framed: "framed (count_recv d) ls d' ls' = framed d ls d' ls'"
  "framed (count_read d) ls d' ls' = framed d ls d' ls'"
  by (simp_all add: framed_def)

lemma receive_plock_now_core:
  assumes r: "receive_plock_now d ls h b = (d', ls')"
  shows "framed d ls d' ls'"
proof -
  define i where "i = info_bswap_in (big_endian d) (body_plock b)"
  obtain d1 ls1 ro rv where f: "find_resource (count_recv d) ls (in_number i)
      (\<not> cfgd_plock_ownership (count_recv d)) = (d1, ls1, ro, rv)"
    by (metis prod_cases4)
  have f1: "framed d ls d1 ls1" using find_resource_core [OF f] by (simp add: count_framed)
  have c: "framed d ls (count_recv d) ls" by (simp add: framed_def)
  show ?thesis
    using r f f1 c framed_trans [OF f1] receive_plock_missing_core receive_plock_owner_core
    by (auto simp: receive_plock_now_def Let_def simp flip: i_def split: if_splits option.splits)
qed

lemma receive_plock_core: "receive_plock d ls h b = (d', ls') \<Longrightarrow> framed d ls d' ls'"
  by (auto simp: receive_plock_def split: if_splits dest: save_message_core receive_plock_now_core)

lemma receive_own_ours_core: "receive_own_ours d ls n r = (d', ls') \<Longrightarrow> framed d ls d' ls'"
  by (auto simp: receive_own_ours_def send_pending_plocks_def add_pending_plocks_def framed_def Let_def
      split: if_splits dest!: add_pending_loop_core)

lemma receive_own_other_core: "receive_own_other d ls from n r = (d', ls') \<Longrightarrow> framed d ls d' ls'"
  by (auto simp: receive_own_other_def send_pending_plocks_def framed_def split: if_splits prod.splits
      dest!: syncs_dcore)

lemma receive_own_now_core:
  assumes r: "receive_own_now d ls h b = (d', ls')"
  shows "framed d ls d' ls'"
proof -
  define i where "i = info_bswap_in (big_endian d) (body_plock b)"
  obtain d1 ls1 ro rv where f: "find_resource d ls (in_number i) True = (d1, ls1, ro, rv)" by (metis prod_cases4)
  show ?thesis
    using r f find_resource_core [OF f] framed_trans [OF find_resource_core [OF f]]
      receive_own_ours_core receive_own_other_core
    by (auto simp: receive_own_now_def Let_def simp flip: i_def split: if_splits option.splits)
qed

lemma receive_own_core: "receive_own d ls h b = (d', ls') \<Longrightarrow> framed d ls d' ls'"
  by (auto simp: receive_own_def split: if_splits dest: save_message_core receive_own_now_core)

lemma receive_sync_now_core: "receive_sync_now d ls h b = (d', ls') \<Longrightarrow> framed d ls d' ls'"
  by (auto simp: receive_sync_now_def framed_def Let_def split: if_splits prod.splits option.splits
      dest!: find_resource_core)

lemma receive_sync_core: "receive_sync d ls h b = (d', ls') \<Longrightarrow> framed d ls d' ls'"
  by (auto simp: receive_sync_def split: if_splits dest: save_message_core receive_sync_now_core)

lemma receive_drop_now_core: "receive_drop_now d ls h b = (d', ls') \<Longrightarrow> framed d ls d' ls'"
  by (auto simp: receive_drop_now_def framed_def Let_def split: if_splits prod.splits option.splits
      dest!: find_resource_core)

lemma receive_drop_core: "receive_drop d ls h b = (d', ls') \<Longrightarrow> framed d ls d' ls'"
  by (auto simp: receive_drop_def split: if_splits dest: save_message_core receive_drop_now_core)

lemma drop_resources_loop_core: "drop_resources_loop d ls c rs = (d', rs') \<Longrightarrow> d_core d' = d_core d"
  by (induction d ls c rs arbitrary: d' rs' rule: drop_resources_loop.induct)
    (auto split: if_splits prod.splits simp: Let_def)

lemma drop_resources_core: "drop_resources d ls = (d', ls') \<Longrightarrow> framed d ls d' ls'"
  by (auto simp: drop_resources_def framed_def split: prod.splits dest: drop_resources_loop_core)

lemma process_plock_ls_core: "process_plock_ls d ls i = (d', ls') \<Longrightarrow> framed d ls d' ls'"
  by (auto simp: process_plock_ls_def framed_def Let_def split: if_splits prod.splits option.splits
      dest!: find_resource_core drop_resources_core receive_plock_op_core save_pending_core)

lemma receive_saved_core: "receive_saved d ls sm = Some (d', ls') \<Longrightarrow> framed d ls d' ls'"
  by (auto simp: receive_saved_def split: if_splits
      dest: receive_plock_now_core receive_own_now_core receive_drop_now_core receive_sync_now_core)

lemma process_saved_loop_core: "process_saved_loop d ls sms = (d', ls', kept) \<Longrightarrow> framed d ls d' ls'"
proof (induction sms arbitrary: d ls d' ls' kept)
  case (Cons sm sms)
  show ?case
  proof (cases "receive_saved d ls sm")
    case None
    then show ?thesis using Cons by (auto split: prod.splits)
  next
    case (Some s)
    then obtain d1 ls1 where s: "receive_saved d ls sm = Some (d1, ls1)" by (cases s) simp
    then show ?thesis using Cons.prems Cons.IH framed_trans [OF receive_saved_core [OF s]] by simp
  qed
qed simp

lemma process_saved_core: "process_saved_plocks d ls = (d', ls') \<Longrightarrow> framed d ls d' ls'"
  by (auto simp: process_saved_plocks_def framed_def split: prod.splits dest!: process_saved_loop_core)

lemma purge_resource_core: "purge_resource d ls n u r = (d', ro, k) \<Longrightarrow> d_core d' = d_core d"
  by (auto simp: purge_resource_def send_pending_plocks_def Let_def split: if_splits prod.splits
      dest!: do_waiters_core)

lemma purge_loop_core: "purge_loop d ls n u rs = (d', rs', k) \<Longrightarrow> d_core d' = d_core d"
  by (induction rs arbitrary: d rs' k) (auto split: prod.splits dest!: purge_resource_core)

lemma purge_core: "purge_plocks d ls n u = (d', ls') \<Longrightarrow> framed d ls d' ls'"
  by (auto simp: purge_plocks_def framed_def Let_def split: if_splits prod.splits dest: purge_loop_core)

subsection \<open>Checkpoints\<close>

lemma ckpt_core [simp]:
  "d_core (snd (ckpt_do a d op)) = d_core d"
  "d_core (ckpt_once d op) = d_core d"
  "d_core (snd (snd (ckpt_try_from n a d op))) = d_core d"
  "d_core (snd (ckpt_try a d op)) = d_core d"
  by (simp_all add: ckpt_do_def ckpt_once_def ckpt_try_def ckpt_try_from_def split: prod.split list.split)

lemma ckpt_do_core: "ckpt_do a d op = (b, d') \<Longrightarrow> d_core d' = d_core d"
  using ckpt_core(1) [of a d op] by simp

lemma ckpt_try_core: "ckpt_try a d op = (b, d') \<Longrightarrow> d_core d' = d_core d"
  using ckpt_core(4) [of a d op] by simp

lemma ckpt_try_from_core: "ckpt_try_from n a d op = (b, k, d') \<Longrightarrow> d_core d' = d_core d"
  using ckpt_core(3) [of n a d op] by simp

lemma unlink_checkpoint_core: "unlink_checkpoint d ls name = (d', ls', rv) \<Longrightarrow> framed d ls d' ls'"
  by (auto simp: unlink_checkpoint_def framed_def Let_def split: prod.splits if_splits dest!: ckpt_do_core)

lemma close_plock_checkpoint_core: "close_plock_checkpoint d ls = (d', ls') \<Longrightarrow> framed d ls d' ls'"
  by (auto simp: close_plock_checkpoint_def framed_def Let_def split: if_splits)

lemma store_sections_core: "store_sections d h rs = Some (d', ex) \<Longrightarrow> d_core d' = d_core d"
  by (induction rs arbitrary: d) (auto split: if_splits option.splits prod.splits dest!: ckpt_do_core)

lemma store_open_core: "store_open d ls sizes = Some (d', ls') \<Longrightarrow> framed d ls d' ls'"
proof (induction d ls sizes rule: store_open.induct)
  case (1 d ls r t m)
  obtain a d1 where o: "ckpt_do sa_ok d (Ckpt_create (ckpt_name ls) t (r + 1) m) = (a, d1)" by force
  note c = ckpt_do_core [OF o]
  show ?case
  proof (cases "sa_err a = SA_AIS_OK")
    case False
    then show ?thesis using 1(2) o c by (simp add: store_open.simps [of d] framed_def)
  next
    case True
    then obtain d2 ex where s: "store_sections d1 (sa_handle a) (ls_plock_resources ls) = Some (d2, ex)"
      using 1(2) o by (fastforce simp: store_open.simps [of d] split: option.splits)
    obtain d3 ls3 rv where u: "unlink_checkpoint (ckpt_once d2 (Ckpt_close (sa_handle a)))
        (ls\<lparr>ls_plock_ckpt_handle := sa_handle a\<rparr>) (ckpt_name ls) = (d3, ls3, rv)" by (metis prod_cases3)
    show ?thesis
      using 1(2) 1(1) [OF o [symmetric] _ s _ _ u [symmetric]] o True s u c store_sections_core [OF s]
        unlink_checkpoint_core [OF u]
      by (auto simp: store_open.simps [of d] framed_def split: if_splits)
  qed
qed

lemma store_plocks_core: "store_plocks d ls = Some (d', ls') \<Longrightarrow> framed d ls d' ls'"
  by (auto simp: store_plocks_def framed_def Let_def split: if_splits prod.splits
      dest!: store_open_core unlink_checkpoint_core)

lemma unpack_entries_core: "unpack_entries d r pps = Some (d', r') \<Longrightarrow> d_core d' = d_core d"
  by (induction d r pps rule: unpack_entries.induct) (auto split: prod.splits option.splits)

lemma unpack_section_core: "unpack_section_buf d ls s pps = Some (d', ls', rv) \<Longrightarrow> framed d ls d' ls'"
  by (auto simp: unpack_section_buf_def framed_def Let_def split: prod.splits option.splits
      dest!: unpack_entries_core)

lemma retrieve_loop_core: "retrieve_loop d ls h = Some (d', ls') \<Longrightarrow> framed d ls d' ls'"
proof (induction d ls h rule: retrieve_loop.induct)
  case (1 d ls h)
  obtain a d1 where o: "ckpt_do sa_end d Ckpt_iter_next = (a, d1)" by force
  obtain b d2 where o2: "ckpt_do sa_ok d1 (Ckpt_read h (sa_id a)) = (b, d2)" by force
  note c = ckpt_do_core [OF o] ckpt_do_core [OF o2]
  note ih = 1(1) [OF o [symmetric]] 1(2) [OF o [symmetric] _ _ o2 [symmetric]]
    1(3) [OF o [symmetric] _ _ o2 [symmetric] _ _ _ _ refl refl]
  show ?case
    using 1(4) o o2 c ih
    by (auto simp: retrieve_loop.simps [of d] framed_def split: if_splits option.splits dest!: unpack_section_core)
qed

lemma retrieve_plocks_core: "retrieve_plocks d ls = Some (d', ls') \<Longrightarrow> framed d ls d' ls'"
  by (auto simp: retrieve_plocks_def framed_def Let_def split: if_splits prod.splits option.splits
      dest!: ckpt_do_core retrieve_loop_core)

subsection \<open>Deadlock handlers\<close>

lemma set_dk_core [simp]: "ls_core (set_dk f ls) = ls_core ls"
  by (simp add: set_dk_def)

lemma dk_send_core [simp]: "d_core (dk_send_message d ls t n x) = d_core d"
  by (simp add: dk_send_message_def split: prod.split option.split)

lemmas dk_send_defs = send_checkpoint_ready_def send_cycle_start_def send_cycle_end_def send_cancel_lock_def

lemma dk_add_lock_core: "dk_add_lock d dk name n l = (d', dk') \<Longrightarrow> d_core d' = d_core d"
  by (auto simp: dk_add_lock_def get_lkb_def create_lkb_def Let_def split: option.splits prod.splits if_splits)

lemma get_resource_core: "get_resource d dk name = Some (d', dk', b) \<Longrightarrow> d_core d' = d_core d"
  by (auto simp: get_resource_def split: option.splits prod.splits if_splits)

lemma read_lock_lines_core: "read_lock_lines d dk lines = Some (d', dk') \<Longrightarrow> d_core d' = d_core d"
proof (induction d dk lines rule: read_lock_lines.induct)
  case (2 d dk line lines)
  show ?case using 2(2) 2(1) [OF refl _ refl]
    by (auto simp: Let_def split: if_splits option.splits prod.splits bool.splits
        dest!: get_resource_core dk_add_lock_core)
qed simp

lemma read_debugfs_core: "read_debugfs_locks d ls = Some (d', ls', rv) \<Longrightarrow> framed d ls d' ls'"
  by (auto simp: read_debugfs_locks_def framed_def split: option.splits list.splits prod.splits
      dest: read_lock_lines_core)

lemma read_packed_core: "read_packed_locks d dk name n ls = (d', dk') \<Longrightarrow> d_core d' = d_core d"
  by (induction ls arbitrary: d dk) (auto split: prod.splits dest!: dk_add_lock_core)

lemma read_checkpoint_locks_core:
  "read_checkpoint_locks d dk n name ls = Some (d', dk', rv) \<Longrightarrow> d_core d' = d_core d"
  by (auto simp: read_checkpoint_locks_def split: option.splits prod.splits bool.splits
      dest!: get_resource_core read_packed_core)

lemma read_sections_core: "read_sections d dk n h = Some (d', dk') \<Longrightarrow> d_core d' = d_core d"
proof (induction d dk n h rule: read_sections.induct)
  case (1 d dk n h)
  obtain a d1 where o: "ckpt_try sa_end d Ckpt_iter_next = (a, d1)" by force
  obtain b d2 where o2: "ckpt_try sa_ok d1 (Ckpt_read h (sa_id a)) = (b, d2)" by force
  note c = ckpt_try_core [OF o] ckpt_try_core [OF o2]
  note ih = 1(1) [OF o [symmetric]] 1(2) [OF o [symmetric] _ _ o2 [symmetric] _ refl]
    1(3) [OF o [symmetric] _ _ o2 [symmetric] _ refl _ _ _ refl refl]
  show ?case
    using 1(4) o o2 c ih
    by (auto simp: read_sections.simps [of d] Let_def split: if_splits option.splits
        dest!: read_checkpoint_locks_core)
qed

lemma read_checkpoint_core: "read_checkpoint d ls n = Some (d', ls') \<Longrightarrow> framed d ls d' ls'"
  by (auto simp: read_checkpoint_def framed_def Let_def split: if_splits prod.splits option.splits
      dest!: ckpt_try_core ckpt_try_from_core read_sections_core)

lemma dk_unlink_core: "dk_unlink d ls name = (d', ls', rv) \<Longrightarrow> framed d ls d' ls'"
  by (auto simp: dk_unlink_def framed_def Let_def split: prod.splits if_splits dest!: ckpt_try_core)

lemma write_sections_core: "write_sections d dk h rs = Some (d', ex) \<Longrightarrow> d_core d' = d_core d"
  by (induction rs arbitrary: d) (auto split: if_splits prod.splits dest!: ckpt_do_core)

lemma write_open_core: "write_open d ls sizes = Some (d', ls') \<Longrightarrow> framed d ls d' ls'"
proof (induction d ls sizes rule: write_open.induct)
  case (1 d ls r t m)
  obtain a d1 where o: "ckpt_do sa_ok d (Ckpt_create (dk_ckpt_name ls (our_nodeid d)) t (r + 1) m) = (a, d1)" by force
  note c = ckpt_do_core [OF o]
  show ?case
  proof (cases "sa_err a = SA_AIS_OK")
    case False
    then show ?thesis using 1(2) o c by (simp add: write_open.simps [of d] framed_def)
  next
    case True
    then obtain d2 ex where
      s: "write_sections d1 (ls_deadlk ls) (sa_handle a) (dk_resources (ls_deadlk ls)) = Some (d2, ex)"
      using 1(2) o by (fastforce simp: write_open.simps [of d] split: option.splits)
    obtain d3 ls3 rv where u: "dk_unlink (ckpt_once d2 (Ckpt_close (sa_handle a)))
        (set_dk (\<lambda>dk. dk\<lparr>dk_ckpt_handle := sa_handle a\<rparr>) ls) (dk_ckpt_name ls (our_nodeid d)) = (d3, ls3, rv)"
      by (metis prod_cases3)
    show ?thesis
      using 1(2) 1(1) [OF o [symmetric] _ s _ _ u [symmetric]] o True s u c write_sections_core [OF s]
        dk_unlink_core [OF u]
      by (auto simp: write_open.simps [of d] framed_def split: if_splits)
  qed
qed

lemma write_checkpoint_core: "write_checkpoint d ls = Some (d', ls') \<Longrightarrow> framed d ls d' ls'"
  by (auto simp: write_checkpoint_def framed_def Let_def split: if_splits prod.splits
      dest!: dk_unlink_core write_open_core)

lemma trans_locks_core: "trans_locks d dk is = (d', dk') \<Longrightarrow> d_core d' = d_core d"
proof (induction "is" arbitrary: d dk)
  case (Cons i "is")
  obtain d1 dk1 b where g: "get_trans d dk (pl_xid (lkb_lock (lkb_at dk i))) = (d1, dk1, b)" by (metis prod_cases3)
  have "d_core d1 = d_core d" using g by (auto simp: get_trans_def split: option.splits prod.splits)
  then show ?case using Cons g by (cases b) auto
qed simp

lemma add_waitfor_core: "add_waitfor d dk w g = Some (d', dk') \<Longrightarrow> d_core d' = d_core d"
  by (auto simp: add_waitfor_def grow_waitfor_def split: option.splits prod.splits bool.splits if_splits)

lemma waitfor_granted_core: "waitfor_granted d dk w gs = Some (d', dk') \<Longrightarrow> d_core d' = d_core d"
  by (induction gs arbitrary: d dk) (auto split: if_splits option.splits dest!: add_waitfor_core)

lemma waitfor_waiting_core: "waitfor_waiting d dk ws = Some (d', dk') \<Longrightarrow> d_core d' = d_core d"
  by (induction ws arbitrary: d dk) (auto split: if_splits option.splits dest!: waitfor_granted_core)

lemma cancel_locks_core: "cancel_locks d ls trs x is = (d', trs') \<Longrightarrow> d_core d' = d_core d"
  by (induction "is" arbitrary: d trs) (auto simp: Let_def dk_send_defs split: if_splits)

lemma cancel_trans_core: "cancel_trans d ls = (d', ls') \<Longrightarrow> framed d ls d' ls'"
  by (auto simp: cancel_trans_def framed_def split: option.splits prod.splits dest: cancel_locks_core)

lemma find_deadlock_core:
  assumes f: "find_deadlock d ls = Some (d', ls')"
  shows "framed d ls d' ls'"
proof (cases "dk_resources (ls_deadlk ls) = [] \<or> dk_transactions (ls_deadlk ls) \<noteq> []")
  case True
  then show ?thesis using f by (auto simp: find_deadlock_def dk_send_defs framed_def)
next
  case False
  obtain d1 dk1 where t: "create_trans_list d (ls_deadlk ls) = (d1, dk1)" by force
  obtain d2 dk2 where w: "create_waitfor_graph d1 dk1 = Some (d2, dk2)"
    using f False t by (auto simp: find_deadlock_def split: option.splits)
  have c: "d_core d2 = d_core d"
    using t w trans_locks_core waitfor_waiting_core by (simp add: create_trans_list_def create_waitfor_graph_def)
  obtain d3 ls3 where x: "cancel_trans d2 (ls\<lparr>ls_deadlk :=
      dk2\<lparr>dk_transactions := reduce_waitfor_graph_loop (dk_transactions dk2)\<rparr>\<rparr>) = (d3, ls3)" by force
  show ?thesis using f False t w c x cancel_trans_core [OF x]
    by (auto simp: find_deadlock_def dk_send_defs framed_def Let_def split: if_splits)
qed

lemma run_deadlock_core: "run_deadlock d ls = Some (d', ls') \<Longrightarrow> framed d ls d' ls'"
  by (auto simp: run_deadlock_def framed_def Let_def split: if_splits dest!: find_deadlock_core)

lemma receive_checkpoint_ready_core: "receive_checkpoint_ready d ls h = Some (d', ls') \<Longrightarrow> framed d ls d' ls'"
  by (auto simp: receive_checkpoint_ready_def framed_def split: option.splits
      dest!: read_checkpoint_core run_deadlock_core)

lemma receive_cycle_start_core: "receive_cycle_start d ls h = Some (d', ls') \<Longrightarrow> framed d ls d' ls'"
  by (auto simp: receive_cycle_start_def framed_def dk_send_defs Let_def split: if_splits option.splits
      dest!: read_debugfs_core write_checkpoint_core)

lemma receive_cycle_end_core: "receive_cycle_end d ls h = (d', ls') \<Longrightarrow> framed d ls d' ls'"
  by (auto simp: receive_cycle_end_def dk_unlink_checkpoint_def framed_def Let_def split: if_splits prod.splits
      dest!: dk_unlink_core)

lemma receive_cancel_lock_core [simp]: "d_core (receive_cancel_lock d ls h) = d_core d"
  by (simp add: receive_cancel_lock_def d_core_def)

lemma nodes_joined_core: "nodes_joined d dk ns = (d', dk') \<Longrightarrow> d_core d' = d_core d"
  by (induction ns arbitrary: d dk) (auto simp: dk_node_joined_def split: prod.splits option.splits)

lemma deadlk_confchg_core: "deadlk_confchg d ls m l j = Some (d', ls') \<Longrightarrow> framed d ls d' ls'"
  by (auto simp: deadlk_confchg_def framed_def Let_def split: if_splits prod.splits
      dest!: nodes_joined_core run_deadlock_core)

end
