(* ===== verification/Cpg_Inv.thy ===== *)
theory Cpg_Inv
  imports Cpg_Frame
begin

text \<open>
  The recovery invariant of a lockspace.  Between two configuration changes the daemon delivers messages, polls
  the conditions, reads lock requests and hears from the file system; the kernel runs only when the latest change
  has been applied, and then with exactly the membership of that change.
\<close>

subsection \<open>What the kernel was told\<close>

fun kernel_hears :: "string \<Rightarrow> kernel_op \<Rightarrow> nodeid list \<times> bool \<Rightarrow> nodeid list \<times> bool" where
  "kernel_hears name (Set_configfs_members n ms _) (ids, run) = (if n = name then (ms, run) else (ids, run))"
| "kernel_hears name (Set_sysfs_control n v) (ids, run) = (if n = name then (ids, v = 1) else (ids, run))"
| "kernel_hears name _ s = s"

text \<open>The members of the lockspace in configfs, and whether the lockspace was last started or stopped.\<close>

definition kernel_view :: "string \<Rightarrow> daemon \<Rightarrow> nodeid list \<times> bool" where
  "kernel_view name d = fold (kernel_hears name) (kernel_ops d) ([], False)"

lemma kernel_hears_filter:
  "fold (kernel_hears name) (filter recovery_op ops) s = fold (kernel_hears name) ops s"
proof (induction ops arbitrary: s)
  case (Cons op ops)
  then show ?case by (cases op; cases s) auto
qed simp

lemma kernel_view_op: "kernel_view name (kernel_op d op) = kernel_hears name op (kernel_view name d)"
  by (simp add: kernel_view_def kernel_op_def)

definition node_cfg :: "daemon \<Rightarrow> nodeid \<times> bool \<times> bool" where
  "node_cfg d = (our_nodeid d, cfgd_enable_fencing d, cfgd_enable_quorum d)"

lemma node_cfg_op [simp]: "node_cfg (kernel_op d op) = node_cfg d"
  by (simp add: node_cfg_def kernel_op_def)

lemma d_core_view:
  assumes "d_core d' = d_core d"
  shows "node_cfg d' = node_cfg d" "kernel_view name d' = kernel_view name d"
proof -
  have "node_cfg (d_core d') = node_cfg (d_core d)" "kernel_ops (d_core d') = kernel_ops (d_core d)"
    using assms by simp_all
  then show "node_cfg d' = node_cfg d" "kernel_view name d' = kernel_view name d"
    using kernel_hears_filter [of name "kernel_ops d" "([], False)"]
      kernel_hears_filter [of name "kernel_ops d'" "([], False)"]
    by (simp_all add: d_core_def node_cfg_def kernel_view_def)
qed

definition memb_view :: "lockspace \<Rightarrow> string \<times> change list \<times> change option \<times> bool \<times> node list" where
  "memb_view ls = (ls_name ls, ls_changes ls, ls_started_change ls, ls_kernel_stopped ls, ls_node_history ls)"

lemma ls_core_view: "ls_core ls' = ls_core ls \<Longrightarrow> memb_view ls' = memb_view ls"
proof -
  assume "ls_core ls' = ls_core ls"
  then have "memb_view (ls_core ls') = memb_view (ls_core ls)" by simp
  then show "memb_view ls' = memb_view ls" by (simp add: ls_core_def memb_view_def)
qed

subsection \<open>The invariant\<close>

definition cg_counts :: "change \<Rightarrow> bool" where
  "cg_counts cg \<longleftrightarrow> cg_member_count cg = of_nat (length (cg_members cg))"

text \<open>The conditions were met, and no failure was seen since.\<close>

definition past_conditions :: "lockspace \<Rightarrow> bool" where
  "past_conditions ls = (case ls_changes ls of
       [] \<Rightarrow> ls_started_change ls \<noteq> None
     | cg # _ \<Rightarrow> cg_state cg = CGST_WAIT_MESSAGES)"

definition awaited :: "node \<Rightarrow> bool" where
  "awaited n \<longleftrightarrow> nd_check_fencing n \<or> nd_check_quorum n"

definition flags_ok :: "daemon \<Rightarrow> lockspace \<Rightarrow> bool" where
  "flags_ok d ls \<longleftrightarrow> (\<forall>n\<in>set (ls_node_history ls).
     (nd_check_fencing n \<longrightarrow> cfgd_enable_fencing d) \<and> (nd_check_quorum n \<longrightarrow> cfgd_enable_quorum d))"

definition applied :: "lockspace \<Rightarrow> nodeid list \<Rightarrow> nodeid list \<times> bool \<Rightarrow> bool" where
  "applied ls m kv = (case ls_changes ls of
       [] \<Rightarrow> (case ls_started_change ls of
           None \<Rightarrow> ls_kernel_stopped ls
         | Some cg \<Rightarrow> \<not> ls_kernel_stopped ls \<and> fst kv = m \<and> format_member_ids cg = m \<and> wait_messages_done cg)
     | cg # _ \<Rightarrow> ls_kernel_stopped ls \<and> format_member_ids cg = m)"

fun rec_inv :: "daemon \<times> lockspace \<times> nodeid list \<Rightarrow> bool" where
  "rec_inv (d, ls, m) \<longleftrightarrow>
     snd (kernel_view (ls_name ls) d) = (\<not> ls_kernel_stopped ls) \<and>
     applied ls m (kernel_view (ls_name ls) d) \<and>
     (\<forall>cg\<in>set (ls_changes ls). cg_counts cg) \<and>
     flags_ok d ls \<and>
     (past_conditions ls \<longrightarrow> (\<forall>n\<in>set (ls_node_history ls). \<not> awaited n))"

lemma history_upd [simp]:
  "applied (ls\<lparr>ls_node_history := ns\<rparr>) = applied ls"
  "past_conditions (ls\<lparr>ls_node_history := ns\<rparr>) = past_conditions ls"
  by (simp_all add: fun_eq_iff applied_def past_conditions_def cong: list.case_cong option.case_cong)

lemma rec_inv_same:
  assumes "node_cfg d' = node_cfg d" "kernel_view (ls_name ls) d' = kernel_view (ls_name ls) d"
    "memb_view ls' = memb_view ls" "rec_inv (d, ls, m)"
  shows "rec_inv (d', ls', m)"
proof -
  have "applied ls' = applied ls" "past_conditions ls' = past_conditions ls" "flags_ok d' ls' = flags_ok d ls"
    using assms(1,3)
    by (simp_all add: fun_eq_iff node_cfg_def memb_view_def applied_def past_conditions_def flags_ok_def
        cong: list.case_cong option.case_cong)
  then show ?thesis using assms(2,3,4) by (simp add: memb_view_def)
qed

lemma rec_inv_framed: "framed d ls d' ls' \<Longrightarrow> rec_inv (d, ls, m) \<Longrightarrow> rec_inv (d', ls', m)"
  unfolding framed_def by (elim conjE) (rule rec_inv_same [OF d_core_view(1,2) ls_core_view])

subsection \<open>Conditions\<close>

definition calmer :: "node \<Rightarrow> node \<Rightarrow> bool" where
  "calmer n n' \<longleftrightarrow> nd_nodeid n' = nd_nodeid n \<and> (nd_check_fencing n' \<longrightarrow> nd_check_fencing n) \<and>
     (nd_check_quorum n' \<longrightarrow> nd_check_quorum n)"

lemma calmer_refl [simp]: "calmer n n"
  by (simp add: calmer_def)

lemma calmer_trans: "calmer a b \<Longrightarrow> calmer b c \<Longrightarrow> calmer a c"
  by (auto simp: calmer_def)

lemma calmer_list_trans: "list_all2 calmer a b \<Longrightarrow> list_all2 calmer b c \<Longrightarrow> list_all2 calmer a c"
  by (rule list_all2_trans) (auto intro: calmer_trans)

lemma check_fencing_loop_calm:
  "check_fencing_loop d t ns = (ns', w) \<Longrightarrow> list_all2 calmer ns ns' \<and> (w = 0 \<longrightarrow> (\<forall>n\<in>set ns'. \<not> nd_check_fencing n))"
  by (induction ns arbitrary: t ns' w) (auto simp: calmer_def split: if_splits prod.splits)

text \<open>A condition only rewrites the history.\<close>

definition rehist :: "lockspace \<Rightarrow> lockspace \<Rightarrow> bool" where
  "rehist ls ls' \<longleftrightarrow> (\<exists>ns. ls' = ls\<lparr>ls_node_history := ns\<rparr> \<and> list_all2 calmer (ls_node_history ls) ns)"

lemma rehist_refl [simp]: "rehist ls ls"
  unfolding rehist_def by (intro exI [of _ "ls_node_history ls"]) (simp add: list_all2_refl)

lemma rehist_trans: "rehist a b \<Longrightarrow> rehist b c \<Longrightarrow> rehist a c"
  unfolding rehist_def using calmer_list_trans by fastforce

lemma rehistI: "list_all2 calmer (ls_node_history ls) ns \<Longrightarrow> rehist ls (ls\<lparr>ls_node_history := ns\<rparr>)"
  by (auto simp: rehist_def)

lemma rehist_map: "(\<And>n. calmer n (f n)) \<Longrightarrow> rehist ls (ls\<lparr>ls_node_history := map f (ls_node_history ls)\<rparr>)"
  by (rule rehistI) (simp add: list_all2_conv_all_nth)

lemma check_fencing_done_calm:
  "check_fencing_done d ls = (ls', ok) \<Longrightarrow> rehist ls ls' \<and>
    (ok \<longrightarrow> cfgd_enable_fencing d \<longrightarrow> (\<forall>n\<in>set (ls_node_history ls'). \<not> nd_check_fencing n))"
  by (auto simp: check_fencing_done_def Let_def split: if_splits prod.splits
      dest!: check_fencing_loop_calm intro: rehistI)

lemma check_quorum_done_calm:
  assumes c: "check_quorum_done d ls = (ls', ok)"
  shows "rehist ls ls' \<and>
    (ok \<longrightarrow> cfgd_enable_quorum d \<longrightarrow> (\<forall>n\<in>set (ls_node_history ls'). \<not> nd_check_quorum n))"
proof (cases "cfgd_enable_quorum d")
  case True
  have "rehist ls (ls\<lparr>ls_node_history := map (clear_quorum d) (ls_node_history ls)\<rparr>)"
    by (rule rehist_map) (simp add: calmer_def clear_quorum_def)
  then show ?thesis using c True by (auto simp: check_quorum_done_def Let_def)
qed (use c in \<open>simp add: check_quorum_done_def\<close>)

lemma check_fs_done_calm:
  assumes c: "check_fs_done ls = (ls', ok)"
  shows "rehist ls ls'"
proof (cases "ls_fs_registered ls")
  case True
  have "rehist ls (ls\<lparr>ls_node_history := map clear_fs (ls_node_history ls)\<rparr>)"
    by (rule rehist_map) (simp add: calmer_def clear_fs_def)
  then show ?thesis using c True by (simp add: check_fs_done_def Let_def)
qed (use c in \<open>simp add: check_fs_done_def\<close>)

definition polled :: "daemon \<Rightarrow> daemon \<Rightarrow> bool" where
  "polled d d' \<longleftrightarrow> (\<exists>f q s. d' = d\<lparr>poll_fencing := f, poll_quorum := q, poll_fs := s\<rparr>)"

lemma polled_fencing: "polled d (d\<lparr>poll_fencing := f\<rparr>)"
  unfolding polled_def
  by (rule exI [of _ f], rule exI [of _ "poll_quorum d"], rule exI [of _ "poll_fs d"]) simp

lemma polled_quorum: "polled d (d\<lparr>poll_fencing := f, poll_quorum := q\<rparr>)"
  unfolding polled_def by (rule exI [of _ f], rule exI [of _ q], rule exI [of _ "poll_fs d"]) simp

lemma polled_fs: "polled d (d\<lparr>poll_fencing := f, poll_quorum := q, poll_fs := s\<rparr>)"
  unfolding polled_def by blast

lemmas polledI = polled_fencing polled_quorum polled_fs

lemma rehist_calm:
  assumes "rehist ls ls'"
  shows "(\<forall>n\<in>set (ls_node_history ls). \<not> nd_check_fencing n) \<Longrightarrow> \<forall>n\<in>set (ls_node_history ls'). \<not> nd_check_fencing n"
    "(\<forall>n\<in>set (ls_node_history ls). \<not> nd_check_quorum n) \<Longrightarrow> \<forall>n\<in>set (ls_node_history ls'). \<not> nd_check_quorum n"
    "flags_ok d ls \<Longrightarrow> flags_ok d ls'"
proof -
  obtain ns where ns: "ls' = ls\<lparr>ls_node_history := ns\<rparr>" "list_all2 calmer (ls_node_history ls) ns"
    using assms by (auto simp: rehist_def)
  have c: "\<exists>n0\<in>set (ls_node_history ls). calmer n0 n" if "n \<in> set (ls_node_history ls')" for n
    using that ns by (fastforce simp: list_all2_conv_all_nth in_set_conv_nth)
  show "(\<forall>n\<in>set (ls_node_history ls). \<not> nd_check_fencing n) \<Longrightarrow> \<forall>n\<in>set (ls_node_history ls'). \<not> nd_check_fencing n"
    "(\<forall>n\<in>set (ls_node_history ls). \<not> nd_check_quorum n) \<Longrightarrow> \<forall>n\<in>set (ls_node_history ls'). \<not> nd_check_quorum n"
    "flags_ok d ls \<Longrightarrow> flags_ok d ls'"
    using c by (fastforce simp: calmer_def flags_ok_def)+
qed

lemma wait_conditions_calm:
  assumes w: "wait_conditions_done d ls = (d', ls', ok)" and f: "flags_ok d ls"
  shows "rehist ls ls'" "polled d d'" "ok \<Longrightarrow> \<forall>n\<in>set (ls_node_history ls'). \<not> awaited n"
proof -
  obtain ls1 b1 where c1: "check_fencing_done d ls = (ls1, b1)" by force
  obtain ls2 b2 where c2: "check_quorum_done (d\<lparr>poll_fencing := False\<rparr>) ls1 = (ls2, b2)" by force
  obtain ls3 b3 where c3: "check_fs_done ls2 = (ls3, b3)" by force
  note r = check_fencing_done_calm [OF c1] check_quorum_done_calm [OF c2] check_fs_done_calm [OF c3]
  have r1: "rehist ls ls1" and r2: "rehist ls1 ls2" and r3: "rehist ls2 ls3" using r by auto
  have r12: "rehist ls ls2" by (rule rehist_trans [OF r1 r2])
  have r13: "rehist ls ls3" by (rule rehist_trans [OF r12 r3])
  show "rehist ls ls'" using w c1 c2 c3 r1 r12 r13 by (auto simp: wait_conditions_done_def Let_def split: if_splits)
  show "polled d d'" using w c1 c2 c3 by (auto simp: wait_conditions_done_def Let_def intro: polledI split: if_splits)
  show "\<forall>n\<in>set (ls_node_history ls'). \<not> awaited n" if ok
  proof -
    have b: "b1" "b2" "ls' = ls3" using w c1 c2 c3 that by (auto simp: wait_conditions_done_def Let_def split: if_splits)
    have fl: "flags_ok d ls1" "flags_ok d ls2" "flags_ok d ls3" using rehist_calm(3) r1 r2 r3 f by blast+
    have n1: "\<forall>n\<in>set (ls_node_history ls1). \<not> nd_check_fencing n"
      using r(1) b fl(1) by (cases "cfgd_enable_fencing d") (auto simp: flags_ok_def)
    have n2: "\<forall>n\<in>set (ls_node_history ls2). \<not> nd_check_quorum n"
      using r(2) b fl(2) by (cases "cfgd_enable_quorum d") (auto simp: flags_ok_def)
    show ?thesis
      using rehist_calm(1) [OF r3 rehist_calm(1) [OF r2 n1]] rehist_calm(2) [OF r3 n2] b by (auto simp: awaited_def)
  qed
qed

subsection \<open>Applying a change\<close>

lemma send_info_core: "send_info d ls t = Some d' \<Longrightarrow> d_core d' = d_core d"
  by (auto simp: send_info_def Let_def split: list.splits prod.splits option.splits if_splits)

lemma set_plock_ckpt_node_view:
  "set_plock_ckpt_node d ls cg = (d', ls') \<Longrightarrow> d_core d' = d_core d \<and> memb_view ls' = memb_view ls"
  by (auto simp: set_plock_ckpt_node_def close_plock_checkpoint_def memb_view_def Let_def split: if_splits)

lemma publish_plocks_view:
  "publish_plocks d ls = Some (d', ls') \<Longrightarrow> d_core d' = d_core d \<and> memb_view ls' = memb_view ls"
  by (auto simp: publish_plocks_def send_plocks_stored_def framed_def split: if_splits option.splits
      dest!: store_plocks_core send_info_core ls_core_view)

lemma memb_view_upd [simp]:
  "memb_view (ls\<lparr>ls_plock_ckpt_node := n\<rparr>) = memb_view ls"
  "memb_view (ls\<lparr>ls_need_plocks := b\<rparr>) = memb_view ls"
  "memb_view (ls\<lparr>ls_save_plocks := c\<rparr>) = memb_view ls"
  by (simp_all add: memb_view_def)

lemma prepare_plocks_view:
  "prepare_plocks d ls = Some (d', ls') \<Longrightarrow> d_core d' = d_core d \<and> memb_view ls' = memb_view ls"
  by (auto simp: prepare_plocks_def split: list.splits if_splits prod.splits
      dest!: set_plock_ckpt_node_view publish_plocks_view)

lemma start_kernel_view:
  assumes "start_kernel d ls = Some (d', ls')" "ls_changes ls = cg # older" "ls_kernel_stopped ls"
  shows "node_cfg d' = node_cfg d" "kernel_view (ls_name ls) d' = (format_member_ids cg, True)"
    "memb_view ls' = memb_view (ls\<lparr>ls_kernel_stopped := False\<rparr>)"
proof -
  obtain ids run where kv: "kernel_view (ls_name ls) d = (ids, run)" by force
  show "node_cfg d' = node_cfg d" "kernel_view (ls_name ls) d' = (format_member_ids cg, True)"
    "memb_view ls' = memb_view (ls\<lparr>ls_kernel_stopped := False\<rparr>)"
    using assms kv by (auto simp: start_kernel_def kernel_view_op memb_view_def Let_def split: if_splits)
qed

lemma fold_combined_seq:
  "cg_members (fold (\<lambda>c cg. cg\<lparr>cg_combined_seq := cg_seq c\<rparr>) older cg) = cg_members cg"
  by (induction older arbitrary: cg) simp_all

lemma cleanup_changes_view:
  assumes "ls_changes ls = cg # older"
  shows "\<exists>cg'. memb_view (cleanup_changes ls) =
      (ls_name ls, [], Some cg', ls_kernel_stopped ls, ls_node_history ls) \<and> cg_members cg' = cg_members cg"
  using assms by (simp add: cleanup_changes_def memb_view_def Let_def fold_combined_seq)

lemma rec_inv_conditions:
  assumes i: "rec_inv (d, ls, m)" and c: "ls_changes ls = cg # older" and s: "cg_state cg = CGST_WAIT_CONDITIONS"
    and w: "wait_conditions_done d ls = (d', ls', ok)"
  shows "rec_inv (d', ls', m)" and "ok \<Longrightarrow> rec_inv (d', set_cg_state CGST_WAIT_MESSAGES ls', m)"
proof -
  have f: "flags_ok d ls" using i by simp
  note k = wait_conditions_calm [OF w f]
  obtain ns where ns: "ls' = ls\<lparr>ls_node_history := ns\<rparr>" using k(1) by (auto simp: rehist_def)
  obtain a b e where d': "d' = d\<lparr>poll_fencing := a, poll_quorum := b, poll_fs := e\<rparr>" using k(2) by (auto simp: polled_def)
  have v: "kernel_view (ls_name ls) d' = kernel_view (ls_name ls) d" by (simp add: d' kernel_view_def)
  have f': "flags_ok d' ls'" using rehist_calm(3) [OF k(1) f] by (simp add: flags_ok_def d')
  show "rec_inv (d', ls', m)" using i c s f' v by (simp add: ns applied_def past_conditions_def)
  show "rec_inv (d', set_cg_state CGST_WAIT_MESSAGES ls', m)" if ok
    using i c f' v k(3) [OF that]
    by (simp add: ns set_cg_state_def applied_def past_conditions_def flags_ok_def cg_counts_def format_member_ids_def)
qed

lemma rec_inv_started:
  assumes i: "rec_inv (d, ls, m)" and c: "ls_changes ls = cg # older" and s: "cg_state cg = CGST_WAIT_MESSAGES"
    and w: "wait_messages_done cg" and k: "start_kernel d ls = Some (d1, ls1)"
    and p: "prepare_plocks d1 ls1 = Some (d2, ls2)"
  shows "rec_inv (d2, cleanup_changes ls2, m)"
proof -
  have st: "ls_kernel_stopped ls" and m: "format_member_ids cg = m" using i c by (auto simp: applied_def)
  note sk = start_kernel_view [OF k c st]
  have pv: "d_core d2 = d_core d1" "memb_view ls2 = memb_view ls1" using prepare_plocks_view [OF p] by auto
  have n: "node_cfg d2 = node_cfg d" "kernel_view (ls_name ls) d2 = (m, True)"
    using sk m d_core_view [OF pv(1)] by simp_all
  have mv: "memb_view ls2 = memb_view (ls\<lparr>ls_kernel_stopped := False\<rparr>)" using pv(2) sk(3) by simp
  then have c2: "ls_changes ls2 = cg # older" using c by (simp add: memb_view_def)
  obtain cg' where cv: "memb_view (cleanup_changes ls2) =
      (ls_name ls2, [], Some cg', ls_kernel_stopped ls2, ls_node_history ls2)" "cg_members cg' = cg_members cg"
    using cleanup_changes_view [OF c2] by auto
  have "format_member_ids cg' = m" "wait_messages_done cg'"
    using m w cv(2) by (simp_all add: format_member_ids_def wait_messages_done_def)
  moreover have "\<forall>n\<in>set (ls_node_history ls). \<not> awaited n" using i c s by (simp add: past_conditions_def)
  ultimately show ?thesis
    using i n mv cv(1) by (auto simp: memb_view_def applied_def past_conditions_def flags_ok_def node_cfg_def)
qed

lemma apply_changes_inv:
  assumes i: "rec_inv (d, ls, m)" and a: "apply_changes d ls = Some (d', ls')"
  shows "rec_inv (d', ls', m)"
proof (cases "ls_changes ls")
  case Nil
  then show ?thesis using i a by (simp add: apply_changes_def)
next
  case (Cons cg older)
  show ?thesis
  proof (cases "cg_state cg")
    case CGST_WAIT_CONDITIONS
    obtain d1 ls1 ok where w: "wait_conditions_done d ls = (d1, ls1, ok)" by (metis prod_cases3)
    note r = rec_inv_conditions [OF i Cons CGST_WAIT_CONDITIONS w]
    show ?thesis
    proof (cases ok)
      case True
      then obtain d2 where s: "send_start d1 ls1 = Some d2" "d' = d2" "ls' = set_cg_state CGST_WAIT_MESSAGES ls1"
        using a Cons CGST_WAIT_CONDITIONS w by (auto simp: apply_changes_def)
      have "d_core d2 = d_core d1" using s(1) send_info_core by (simp add: send_start_def)
      then show ?thesis
        unfolding s(2,3) by (intro rec_inv_framed [OF _ r(2) [OF True]]) (simp add: framed_def)
    next
      case False
      then show ?thesis using a Cons CGST_WAIT_CONDITIONS w r(1) by (simp add: apply_changes_def)
    qed
  next
    case CGST_WAIT_MESSAGES
    then show ?thesis using i a Cons rec_inv_started [OF i Cons CGST_WAIT_MESSAGES]
      by (auto simp: apply_changes_def split: if_splits option.splits)
  qed
qed

subsection \<open>Messages\<close>

lemma upd_history_inv:
  assumes "\<And>n. nd_check_fencing (f n) = nd_check_fencing n \<and> nd_check_quorum (f n) = nd_check_quorum n"
    and i: "rec_inv (d, ls, m)"
  shows "rec_inv (d, upd_history f nodeid ls, m)"
proof -
  have "\<exists>n0\<in>set (ls_node_history ls). nd_check_fencing n = nd_check_fencing n0 \<and> nd_check_quorum n = nd_check_quorum n0"
    if "n \<in> set (ls_node_history (upd_history f nodeid ls))" for n
  proof -
    have "n \<in> set (ls_node_history ls) \<or> (\<exists>x\<in>set (ls_node_history ls). n = f x)"
      using that set_map_first [of "\<lambda>n. nd_nodeid n = nodeid" f "ls_node_history ls"]
      by (auto simp: upd_history_def)
    then show ?thesis using assms(1) by auto
  qed
  then have "flags_ok d (upd_history f nodeid ls)" "(\<forall>n\<in>set (ls_node_history ls). \<not> awaited n) \<longrightarrow>
      (\<forall>n\<in>set (ls_node_history (upd_history f nodeid ls)). \<not> awaited n)"
    using i by (fastforce simp: flags_ok_def awaited_def)+
  then show ?thesis using i by (simp add: upd_history_def)
qed

definition same_change :: "change \<Rightarrow> change \<Rightarrow> bool" where
  "same_change cg cg' \<longleftrightarrow> format_member_ids cg' = format_member_ids cg \<and> cg_state cg' = cg_state cg \<and>
     cg_counts cg' = cg_counts cg"

lemma upd_memb_same:
  assumes "\<And>m. mb_nodeid (f m) = mb_nodeid m"
  shows "same_change cg (upd_memb f n cg)"
  by (simp add: same_change_def upd_memb_def format_member_ids_def cg_counts_def map_first_map assms)

lemma update_all:
  assumes "\<forall>x\<in>set xs. P x" "\<And>x. P x \<Longrightarrow> P (f x)"
  shows "\<forall>x\<in>set (xs[k := f (xs ! k)]). P x"
proof (cases "k < length xs")
  case True
  then show ?thesis using assms set_update_subset_insert [of xs k "f (xs ! k)"] nth_mem [OF True] by blast
qed (use assms in \<open>simp add: list_update_beyond\<close>)

lemma upd_change_inv:
  assumes f: "\<And>cg. same_change cg (f cg)" and i: "rec_inv (d, ls, m)"
  shows "rec_inv (d, upd_change k f ls, m)"
proof (cases "ls_changes ls")
  case Nil
  then have "upd_change k f ls = ls" by (cases ls) (simp add: upd_change_def)
  then show ?thesis using i by simp
next
  case (Cons cg older)
  have "\<forall>c\<in>set ((cg # older)[k := f ((cg # older) ! k)]). cg_counts c"
    by (rule update_all) (use f i Cons in \<open>auto simp: same_change_def\<close>)
  then show ?thesis
    using i Cons f
    by (cases k) (auto simp: upd_change_def applied_def past_conditions_def flags_ok_def same_change_def)
qed

lemma receive_start_inv:
  assumes i: "rec_inv (d, ls, m)" and r: "receive_start d ls h b = Some (d', ls')"
  shows "rec_inv (d', ls', m)"
proof -
  obtain li ids where li: "read_ls_info d b = Some (li, ids)"
    using r by (auto simp: receive_start_def split: option.splits)
  have u: "rec_inv (e, upd_change k (upd_memb f n) l, m)"
    if "\<And>x. mb_nodeid (f x) = mb_nodeid x" "rec_inv (e, l, m)" for k f n l e
    by (rule upd_change_inv [OF upd_memb_same]) (use that in simp_all)
  have s: "rec_inv (e, node_history_start e l n, m)" if "rec_inv (e, l, m)" for l n e
    unfolding node_history_start_def by (rule upd_history_inv) (use that in simp_all)
  show ?thesis
    using r li i by (auto simp: receive_start_def Let_def simp del: rec_inv.simps split: option.splits if_splits
        intro!: u s)
qed

lemma receive_plocks_stored_inv:
  assumes i: "rec_inv (d, ls, m)" and r: "receive_plocks_stored d ls h b = Some (d', ls')"
  shows "rec_inv (d', ls', m)"
proof (cases "d' = d \<and> ls' = ls")
  case False
  then obtain d1 ls1 d2 ls2 where r1: "retrieve_plocks d ls = Some (d1, ls1)" "process_saved_plocks d1 ls1 = (d2, ls2)"
    "d' = d2" "ls' = ls2\<lparr>ls_need_plocks := False, ls_save_plocks := False\<rparr>"
    using r by (auto simp: receive_plocks_stored_def split: if_splits option.splits prod.splits)
  have "framed d ls d2 ls2"
    by (rule framed_trans [OF retrieve_plocks_core [OF r1(1)] process_saved_core [OF r1(2)]])
  then have "rec_inv (d2, ls2, m)" using i by (rule rec_inv_framed)
  then show ?thesis unfolding r1(3,4) by (rule rec_inv_same [rotated 3]) simp_all
qed (use i in simp)

lemma deliver_type_inv:
  assumes i: "rec_inv (d, ls, m)" and r: "deliver_type d ls h b = Some (d', ls')"
  shows "rec_inv (d', ls', m)"
proof -
  have f: "rec_inv (d', ls', m)" if "framed d ls d' ls'" using that i by (rule rec_inv_framed)
  have c: "framed d ls (receive_cancel_lock d ls h) ls" by (simp add: framed_def)
  show ?thesis
    using r i c f receive_start_inv [OF i, of h b d' ls'] receive_plocks_stored_inv [OF i, of h b d' ls']
      receive_plock_core [of d ls h b d' ls'] receive_own_core [of d ls h b d' ls']
      receive_drop_core [of d ls h b d' ls'] receive_sync_core [of d ls h b d' ls']
      receive_cycle_start_core [of d ls h d' ls'] receive_cycle_end_core [of d ls h d' ls']
      receive_checkpoint_ready_core [of d ls h d' ls']
    by (auto simp: deliver_type_def Let_def simp del: rec_inv.simps split: if_splits)
qed

lemma deliver_ls_inv:
  assumes i: "rec_inv (d, ls, m)" and r: "deliver_ls d ls n data = Some (d', ls')"
  shows "rec_inv (d', ls', m)"
  using i r
  by (auto simp: deliver_ls_def Let_def simp del: rec_inv.simps split: if_splits option.splits
      intro: apply_changes_inv [OF deliver_type_inv])

subsection \<open>Configuration changes\<close>

text \<open>Adding a change consumes memory and may tell the cluster to remove nodes.\<close>

fun kick_op :: "kernel_op \<Rightarrow> bool" where
  "kick_op (Cfg_kill_node _) = True"
| "kick_op Cfg_try_shutdown = True"
| "kick_op _ = False"

definition kicked :: "daemon \<Rightarrow> daemon \<Rightarrow> bool" where
  "kicked d d' \<longleftrightarrow> (\<exists>m ops. d' = d\<lparr>dmem := m, kernel_ops := kernel_ops d @ ops\<rparr> \<and> list_all kick_op ops) \<and>
     (mem_ok (dmem d) \<longrightarrow> mem_ok (dmem d'))"

lemma kickedI:
  "d' = d\<lparr>dmem := m, kernel_ops := kernel_ops d @ ops\<rparr> \<Longrightarrow> list_all kick_op ops \<Longrightarrow> (mem_ok (dmem d) \<Longrightarrow> mem_ok m) \<Longrightarrow>
    kicked d d'"
  by (auto simp: kicked_def)

lemma kicked_refl [simp]: "kicked d d"
  by (rule kickedI [where m = "dmem d" and ops = "[]"]) simp_all

lemma kicked_trans:
  assumes "kicked a b" "kicked b c"
  shows "kicked a c"
proof -
  obtain m1 o1 where 1: "b = a\<lparr>dmem := m1, kernel_ops := kernel_ops a @ o1\<rparr>" "list_all kick_op o1"
    using assms(1) by (auto simp: kicked_def)
  obtain m2 o2 where 2: "c = b\<lparr>dmem := m2, kernel_ops := kernel_ops b @ o2\<rparr>" "list_all kick_op o2"
    using assms(2) by (auto simp: kicked_def)
  have "c = a\<lparr>dmem := m2, kernel_ops := kernel_ops a @ o1 @ o2\<rparr>" "list_all kick_op (o1 @ o2)"
    using 1 2 by simp_all
  then show ?thesis using assms unfolding kicked_def by blast
qed

lemma kicked_malloc: "malloc (dmem d) = (a, m') \<Longrightarrow> kicked d (d\<lparr>dmem := m'\<rparr>)"
  by (rule kickedI [where m = m' and ops = "[]"]) (use malloc_keeps_ok in auto)

lemma kicked_kick: "kicked d (kick_node_from_cluster d n)"
  by (rule kickedI [where m = "dmem d" and ops = "[if n = 0 then Cfg_try_shutdown else Cfg_kill_node n]"])
    (simp_all add: kick_node_from_cluster_def kernel_op_def)

lemma kick_ops_view: "list_all kick_op ops \<Longrightarrow> fold (kernel_hears name) ops s = s"
proof (induction ops arbitrary: s)
  case (Cons op ops)
  then show ?case by (cases op; cases s) auto
qed simp

lemma kicked_view:
  assumes "kicked d d'"
  shows "node_cfg d' = node_cfg d" "kernel_view name d' = kernel_view name d" "flags_ok d' = flags_ok d"
    "mem_ok (dmem d) \<Longrightarrow> mem_ok (dmem d')"
  using assms by (auto simp: kicked_def node_cfg_def kernel_view_def kick_ops_view flags_ok_def fun_eq_iff)

end
