(* ===== verification/Cpg_Query.thy ===== *)
theory Cpg_Query
  imports Cpg_Change
begin

text \<open>
  What the daemon tells its clients about lockspaces and nodes (\<^verbatim>\<open>cpg.c\<close>, for the queries of \<^verbatim>\<open>main.c\<close>), in the
  structures of \<^verbatim>\<open>libdlmcontrol.h\<close>, and the file system's acknowledgement of a failed node.
\<close>

unbundle bit_operations_syntax

abbreviation (input) DLMC_NF_MEMBER :: u32 where "DLMC_NF_MEMBER \<equiv> 0x1"
abbreviation (input) DLMC_NF_START :: u32 where "DLMC_NF_START \<equiv> 0x2"
abbreviation (input) DLMC_NF_DISALLOWED :: u32 where "DLMC_NF_DISALLOWED \<equiv> 0x4"
abbreviation (input) DLMC_NF_CHECK_FENCING :: u32 where "DLMC_NF_CHECK_FENCING \<equiv> 0x8"
abbreviation (input) DLMC_NF_CHECK_QUORUM :: u32 where "DLMC_NF_CHECK_QUORUM \<equiv> 0x10"
abbreviation (input) DLMC_NF_CHECK_FS :: u32 where "DLMC_NF_CHECK_FS \<equiv> 0x20"

abbreviation (input) DLMC_LF_JOINING :: u32 where "DLMC_LF_JOINING \<equiv> 0x1"
abbreviation (input) DLMC_LF_LEAVING :: u32 where "DLMC_LF_LEAVING \<equiv> 0x2"
abbreviation (input) DLMC_LF_KERNEL_STOPPED :: u32 where "DLMC_LF_KERNEL_STOPPED \<equiv> 0x4"
abbreviation (input) DLMC_LF_FS_REGISTERED :: u32 where "DLMC_LF_FS_REGISTERED \<equiv> 0x8"
abbreviation (input) DLMC_LF_NEED_PLOCKS :: u32 where "DLMC_LF_NEED_PLOCKS \<equiv> 0x10"
abbreviation (input) DLMC_LF_SAVE_PLOCKS :: u32 where "DLMC_LF_SAVE_PLOCKS \<equiv> 0x20"

abbreviation (input) DLMC_NODES_ALL :: int where "DLMC_NODES_ALL \<equiv> 1"
abbreviation (input) DLMC_NODES_MEMBERS :: int where "DLMC_NODES_MEMBERS \<equiv> 2"
abbreviation (input) DLMC_NODES_NEXT :: int where "DLMC_NODES_NEXT \<equiv> 3"

record dlmc_node =
  dn_id :: nodeid
  dn_flags :: u32
  dn_added_seq :: u32
  dn_removed_seq :: u32
  dn_failed_reason :: int

record dlmc_change =
  dc_member_count :: s32
  dc_joined_count :: s32
  dc_remove_count :: s32
  dc_failed_count :: s32
  dc_wait_condition :: int
  dc_wait_messages :: int
  dc_seq :: u32
  dc_combined_seq :: u32

record dlmc_lockspace =
  dl_cg_prev :: dlmc_change
  dl_cg_next :: dlmc_change
  dl_flags :: u32
  dl_global_id :: u32
  dl_name :: string

definition dlmc_node_zero :: dlmc_node where
  "dlmc_node_zero = \<lparr>dn_id = 0, dn_flags = 0, dn_added_seq = 0, dn_removed_seq = 0, dn_failed_reason = 0\<rparr>"

definition dlmc_change_zero :: dlmc_change where
  "dlmc_change_zero = \<lparr>dc_member_count = 0, dc_joined_count = 0, dc_remove_count = 0, dc_failed_count = 0,
     dc_wait_condition = 0, dc_wait_messages = 0, dc_seq = 0, dc_combined_seq = 0\<rparr>"

subsection \<open>The file system\<close>

definition set_fs_notified :: "lockspace \<Rightarrow> nodeid \<Rightarrow> lockspace \<times> int" where
  "set_fs_notified ls nodeid = (case get_node_history ls nodeid of
       None \<Rightarrow> (ls, - ESRCH)
     | Some node \<Rightarrow>
         if \<not> nd_check_fs node then (ls, - EAGAIN)
         else (upd_history (\<lambda>n. n\<lparr>nd_fs_notified := True\<rparr>) nodeid ls, 0))"

subsection \<open>Lockspaces\<close>

definition flag :: "bool \<Rightarrow> u32 \<Rightarrow> u32 \<Rightarrow> u32" where
  "flag b f flags = (if b then flags OR f else flags)"

definition lockspace_flags :: "lockspace \<Rightarrow> u32" where
  "lockspace_flags ls =
     flag (ls_save_plocks ls) DLMC_LF_SAVE_PLOCKS
     (flag (ls_need_plocks ls) DLMC_LF_NEED_PLOCKS
     (flag (ls_fs_registered ls) DLMC_LF_FS_REGISTERED
     (flag (ls_kernel_stopped ls) DLMC_LF_KERNEL_STOPPED
     (flag (ls_leaving ls) DLMC_LF_LEAVING
     (flag (ls_joining ls) DLMC_LF_JOINING 0)))))"

definition change_info :: "change \<Rightarrow> u32 \<Rightarrow> dlmc_change" where
  "change_info cg combined_seq = dlmc_change_zero\<lparr>dc_member_count := cg_member_count cg,
     dc_joined_count := cg_joined_count cg, dc_remove_count := cg_remove_count cg,
     dc_failed_count := cg_failed_count cg, dc_combined_seq := combined_seq, dc_seq := cg_seq cg\<rparr>"

definition wait_condition :: "daemon \<Rightarrow> change \<Rightarrow> int" where
  "wait_condition d cg =
     (if poll_fencing d then 1
      else if poll_quorum d then 2
      else if poll_fs d then 3
      else if cg_state cg = CGST_WAIT_CONDITIONS then 4
      else 0)"

definition set_lockspace_info :: "daemon \<Rightarrow> lockspace \<Rightarrow> dlmc_lockspace" where
  "set_lockspace_info d ls =
     \<lparr>dl_cg_prev = (case ls_started_change ls of
          None \<Rightarrow> dlmc_change_zero
        | Some cg \<Rightarrow> change_info cg (cg_combined_seq cg)),
      dl_cg_next = (case ls_changes ls of
          [] \<Rightarrow> dlmc_change_zero
        | cg # _ \<Rightarrow> change_info cg (cg_seq (last (ls_changes ls)))
            \<lparr>dc_wait_condition := wait_condition d cg,
             dc_wait_messages := (if cg_state cg = CGST_WAIT_MESSAGES then 1 else 0)\<rparr>),
      dl_flags = lockspace_flags ls,
      dl_global_id = ls_global_id ls,
      dl_name = take 64 (ls_name ls)\<rparr>"

definition set_lockspaces :: "daemon \<Rightarrow> lockspace list \<Rightarrow> daemon \<times> (int + dlmc_lockspace list)" where
  "set_lockspaces d lss = (case malloc (dmem d) of
       (None, m) \<Rightarrow> (d\<lparr>dmem := m\<rparr>, Inl (- ENOMEM))
     | (Some _, m) \<Rightarrow> (d\<lparr>dmem := m\<rparr>, Inr (map (set_lockspace_info d) lss)))"

subsection \<open>Nodes\<close>

text \<open>\<^verbatim>\<open>_set_node_info\<close>, from a zeroed structure.\<close>

definition set_node_info_cg :: "lockspace \<Rightarrow> change option \<Rightarrow> nodeid \<Rightarrow> dlmc_node" where
  "set_node_info_cg ls cgo nodeid =
     (let node = dlmc_node_zero\<lparr>dn_id := nodeid\<rparr>;
          node = (case Option.bind cgo (\<lambda>cg. find_memb cg nodeid) of
              None \<Rightarrow> node
            | Some m \<Rightarrow> node\<lparr>dn_flags := flag (mb_disallowed m) DLMC_NF_DISALLOWED
                (flag (mb_start m) DLMC_NF_START (dn_flags node OR DLMC_NF_MEMBER))\<rparr>)
      in case get_node_history ls nodeid of
           None \<Rightarrow> node
         | Some n \<Rightarrow> node\<lparr>dn_flags := flag (nd_check_fs n) DLMC_NF_CHECK_FS
             (flag (nd_check_quorum n) DLMC_NF_CHECK_QUORUM
             (flag (nd_check_fencing n) DLMC_NF_CHECK_FENCING (dn_flags node))),
             dn_added_seq := nd_added_seq n, dn_removed_seq := nd_removed_seq n,
             dn_failed_reason := nd_failed_reason n\<rparr>)"

definition current_change :: "lockspace \<Rightarrow> change option" where
  "current_change ls = (case ls_changes ls of
       [] \<Rightarrow> ls_started_change ls
     | cg # _ \<Rightarrow> Some cg)"

definition set_node_info :: "lockspace \<Rightarrow> nodeid \<Rightarrow> dlmc_node" where
  "set_node_info ls nodeid = set_node_info_cg ls (current_change ls) nodeid"

text \<open>
  The nodes reported for a change: the array has \<^verbatim>\<open>member_count\<close> zeroed entries, of which those of the members are
  filled in.  \<open>None\<close>: there are more members than entries.
\<close>

definition change_nodes :: "daemon \<Rightarrow> lockspace \<Rightarrow> change \<Rightarrow> (daemon \<times> (int + dlmc_node list)) option" where
  "change_nodes d ls cg = (case malloc (dmem d) of
       (None, m) \<Rightarrow> Some (d\<lparr>dmem := m\<rparr>, Inl (- ENOMEM))
     | (Some _, m) \<Rightarrow>
         if length (cg_members cg) > unat (cg_member_count cg) then None
         else Some (d\<lparr>dmem := m\<rparr>, Inr (map (\<lambda>memb. set_node_info_cg ls (Some cg) (mb_nodeid memb)) (cg_members cg) @
           replicate (unat (cg_member_count cg) - length (cg_members cg)) dlmc_node_zero)))"

definition set_lockspace_nodes :: "daemon \<Rightarrow> lockspace \<Rightarrow> int \<Rightarrow> (daemon \<times> (int + dlmc_node list)) option" where
  "set_lockspace_nodes d ls option =
     (if option = DLMC_NODES_ALL then
        (case malloc (dmem d) of
           (None, m) \<Rightarrow> Some (d\<lparr>dmem := m\<rparr>, Inl (- ENOMEM))
         | (Some _, m) \<Rightarrow> Some (d\<lparr>dmem := m\<rparr>,
             Inr (map (\<lambda>n. set_node_info_cg ls (current_change ls) (nd_nodeid n)) (ls_node_history ls))))
      else if option = DLMC_NODES_MEMBERS then
        (case ls_started_change ls of
           None \<Rightarrow> Some (d, Inr [])
         | Some cg \<Rightarrow> change_nodes d ls cg)
      else if option = DLMC_NODES_NEXT then
        (case ls_changes ls of
           [] \<Rightarrow> Some (d, Inr [])
         | cg # _ \<Rightarrow> change_nodes d ls cg)
      else Some (d, Inr []))"

end
