(* ===== verification/Cpg_System.thy ===== *)
theory Cpg_System
  imports Cpg_Inv Cpg_Join Cpg_Query
begin

text \<open>
  A configuration change keeps the recovery invariant, and so does every run of a lockspace: the kernel runs a
  lockspace only with the membership of the last configuration change, after every member has sent its start
  message and no failed node is waited for.
\<close>

subsection \<open>Adding a change\<close>

definition rewritten :: "daemon \<Rightarrow> lockspace \<Rightarrow> lockspace \<Rightarrow> bool" where
  "rewritten d ls ls' \<longleftrightarrow> (\<exists>ns. ls' = ls\<lparr>ls_node_history := ns\<rparr>) \<and> (flags_ok d ls \<longrightarrow> flags_ok d ls')"

lemma rewritten_refl [simp]: "rewritten d ls ls"
  unfolding rewritten_def by (auto intro: exI [of _ "ls_node_history ls"])

lemma rewritten_trans: "rewritten d a b \<Longrightarrow> rewritten d b c \<Longrightarrow> rewritten d a c"
  unfolding rewritten_def by auto

lemma rewritten_upd:
  assumes "\<And>n. (nd_check_fencing n \<longrightarrow> cfgd_enable_fencing d) \<and> (nd_check_quorum n \<longrightarrow> cfgd_enable_quorum d) \<Longrightarrow>
    (nd_check_fencing (f n) \<longrightarrow> cfgd_enable_fencing d) \<and> (nd_check_quorum (f n) \<longrightarrow> cfgd_enable_quorum d)"
  shows "rewritten d ls (upd_history f nodeid ls)"
proof -
  have "flags_ok d (upd_history f nodeid ls)" if fl: "flags_ok d ls"
    unfolding flags_ok_def
  proof
    fix n assume "n \<in> set (ls_node_history (upd_history f nodeid ls))"
    then have "n \<in> set (ls_node_history ls) \<or> (\<exists>x\<in>set (ls_node_history ls). n = f x)"
      using set_map_first [of "\<lambda>n. nd_nodeid n = nodeid" f "ls_node_history ls"] by (auto simp: upd_history_def)
    then show "(nd_check_fencing n \<longrightarrow> cfgd_enable_fencing d) \<and> (nd_check_quorum n \<longrightarrow> cfgd_enable_quorum d)"
      using assms fl by (auto simp: flags_ok_def)
  qed
  then show ?thesis by (auto simp: rewritten_def upd_history_def)
qed

lemma rewritten_append:
  "\<not> nd_check_fencing n \<Longrightarrow> \<not> nd_check_quorum n \<Longrightarrow>
    rewritten d ls (ls\<lparr>ls_node_history := ls_node_history ls @ [n]\<rparr>)"
  by (auto simp: rewritten_def flags_ok_def)

lemma rewritten_init:
  "node_history_init d ls n seq = (d', ls') \<Longrightarrow> kicked d d' \<and> rewritten d ls ls'"
  by (auto simp: node_history_init_def node_zero_def split: option.splits prod.splits
      intro: kicked_malloc rewritten_append rewritten_upd)

lemma rewritten_left: "rewritten d ls (node_history_left ls n seq)"
  unfolding node_history_left_def by (rule rewritten_upd) simp

lemma rewritten_fail: "rewritten d ls (node_history_fail d ls n seq reason)"
  unfolding node_history_fail_def by (rule rewritten_upd) (auto simp: fail_node_def Let_def)

lemma rewritten_kicked: "kicked d d' \<Longrightarrow> rewritten d' = rewritten d"
  by (simp add: fun_eq_iff rewritten_def kicked_view(3))

lemma add_members_ok:
  "mem_ok (dmem d) \<Longrightarrow> \<exists>m. mem_ok m \<and> add_members d cg ns = (d\<lparr>dmem := m\<rparr>,
     cg\<lparr>cg_members := cg_members cg @ map (\<lambda>n. memb_zero\<lparr>mb_nodeid := n\<rparr>) ns\<rparr>, True)"
proof (induction ns arbitrary: d cg)
  case Nil
  then show ?case by (auto intro!: exI [of _ "dmem d"])
next
  case (Cons n ns)
  then obtain g m where m: "malloc (dmem d) = (Some g, m)" "mem_ok m" using malloc_mem_ok by blast
  then show ?case using Cons.IH [of "d\<lparr>dmem := m\<rparr>"
        "cg\<lparr>cg_members := cg_members cg @ [memb_zero\<lparr>mb_nodeid := n\<rparr>]\<rparr>"] by simp
qed

text \<open>What the loops of \<^verbatim>\<open>add_change\<close> leave of the change under construction.\<close>

definition grown :: "change \<Rightarrow> change \<Rightarrow> bool" where
  "grown cg cg' \<longleftrightarrow> format_member_ids cg' = format_member_ids cg \<and> cg_state cg' = cg_state cg \<and>
     cg_member_count cg' = cg_member_count cg \<and> cg_seq cg' = cg_seq cg \<and>
     cg_joined_count cg' = cg_joined_count cg \<and> cg_remove_count cg' = cg_remove_count cg"

lemma grown_refl [simp]: "grown cg cg"
  by (simp add: grown_def)

lemma grown_trans: "grown a b \<Longrightarrow> grown b c \<Longrightarrow> grown a c"
  by (simp add: grown_def)

lemma grown_upd [simp]:
  "grown cg (cg\<lparr>cg_failed_count := x, cg_removed := rs\<rparr>)" "grown cg (cg\<lparr>cg_removed := rs\<rparr>)"
  "grown cg (cg\<lparr>cg_we_joined := b\<rparr>)"
  by (simp_all add: grown_def format_member_ids_def)

lemma grown_added: "grown cg (upd_memb (\<lambda>m. m\<lparr>mb_added := True\<rparr>) n cg)"
  by (simp add: grown_def upd_memb_def format_member_ids_def map_first_map)

lemma add_removed_ok:
  assumes "mem_ok (dmem d)"
  shows "\<exists>d' ls' cg'. add_removed d ls cg l = (d', ls', cg', True) \<and> kicked d d' \<and> rewritten d ls ls' \<and> grown cg cg' \<and>
     cg_members cg' = cg_members cg \<and> map mb_nodeid (cg_removed cg') = map mb_nodeid (cg_removed cg) @ map fst l"
  using assms
proof (induction l arbitrary: d ls cg)
  case (Cons x l)
  obtain n reason where x: "x = (n, reason)" by force
  obtain g m where m: "malloc (dmem d) = (Some g, m)" "mem_ok m" using malloc_mem_ok Cons.prems by blast
  define failed where "failed = (reason = CPG_REASON_NODEDOWN \<or> reason = CPG_REASON_PROCDOWN)"
  define cg1 where "cg1 = (if failed then cg\<lparr>cg_failed_count := cg_failed_count cg + 1\<rparr> else cg)
      \<lparr>cg_removed := cg_removed cg @ [memb_zero\<lparr>mb_nodeid := n, mb_failed := failed\<rparr>]\<rparr>"
  define ls1 where "ls1 = (if failed then node_history_fail (d\<lparr>dmem := m\<rparr>) ls n (cg_seq cg) reason
      else node_history_left ls n (cg_seq cg))"
  define d1 where "d1 = (if reason = CPG_REASON_PROCDOWN then kick_node_from_cluster (d\<lparr>dmem := m\<rparr>) n else d\<lparr>dmem := m\<rparr>)"
  have km: "kicked d (d\<lparr>dmem := m\<rparr>)" using m(1) by (rule kicked_malloc)
  have k: "kicked d d1" using kicked_trans [OF km kicked_kick] km by (simp add: d1_def)
  then have "mem_ok (dmem d1)" using Cons.prems kicked_view(4) by blast
  then obtain d' ls' cg' where ih: "add_removed d1 ls1 cg1 l = (d', ls', cg', True)" "kicked d1 d'"
      "rewritten d1 ls1 ls'" "grown cg1 cg'" "cg_members cg' = cg_members cg1"
      "map mb_nodeid (cg_removed cg') = map mb_nodeid (cg_removed cg1) @ map fst l"
    using Cons.IH [of d1 ls1 cg1] by blast
  have "add_removed d ls cg (x # l) = add_removed d1 ls1 cg1 l"
    by (simp add: x m d1_def ls1_def cg1_def failed_def Let_def cong: if_cong)
  moreover have "rewritten d ls ls1"
    using rewritten_fail [of "d\<lparr>dmem := m\<rparr>" ls n "cg_seq cg" reason] rewritten_left [of d ls n "cg_seq cg"]
      rewritten_kicked [OF km] by (simp add: ls1_def)
  moreover have "grown cg cg1" "cg_members cg1 = cg_members cg"
      "map mb_nodeid (cg_removed cg1) = map mb_nodeid (cg_removed cg) @ [n]"
    by (simp_all add: cg1_def)
  ultimately show ?case
    using ih k kicked_trans [OF k ih(2)] rewritten_trans [of d ls ls1 ls'] rewritten_kicked [OF k]
      grown_trans [of cg cg1 cg'] x by auto
qed simp

lemma find_memb_ids: "find_memb cg n \<noteq> None \<longleftrightarrow> n \<in> set (format_member_ids cg)"
  by (auto simp: find_memb_def format_member_ids_def find_None_iff)

lemma add_joined_ok:
  assumes "set j \<subseteq> set (format_member_ids cg)"
  shows "\<exists>d' ls' cg'. add_joined d ls cg j = (d', ls', cg', True) \<and> kicked d d' \<and> rewritten d ls ls' \<and> grown cg cg' \<and>
     cg_removed cg' = cg_removed cg"
  using assms
proof (induction j arbitrary: d ls cg)
  case (Cons n j)
  define cg1 where "cg1 = upd_memb (\<lambda>m. m\<lparr>mb_added := True\<rparr>) n cg"
  define cg2 where "cg2 = (if n = our_nodeid d then cg1\<lparr>cg_we_joined := True\<rparr> else cg1)"
  obtain d1 ls1 where s: "(if n = our_nodeid d then (d, ls) else node_history_init d ls n (cg_seq cg)) = (d1, ls1)" by force
  have k: "kicked d d1 \<and> rewritten d ls ls1" using s rewritten_init by (auto split: if_splits)
  have g: "grown cg cg2" "cg_removed cg2 = cg_removed cg"
    using grown_added [of cg n] by (auto simp: cg2_def cg1_def upd_memb_def grown_def format_member_ids_def)
  have "set j \<subseteq> set (format_member_ids cg2)" using Cons.prems g(1) by (simp add: grown_def)
  then obtain d' ls' cg' where ih: "add_joined d1 ls1 cg2 j = (d', ls', cg', True)" "kicked d1 d'"
      "rewritten d1 ls1 ls'" "grown cg2 cg'" "cg_removed cg' = cg_removed cg2"
    using Cons.IH [of cg2 d1 ls1] by blast
  have "find_memb cg n \<noteq> None" using Cons.prems find_memb_ids by simp
  then have "add_joined d ls cg (n # j) = add_joined d1 ls1 cg2 j"
    using s by (auto simp: cg2_def cg1_def upd_memb_def Let_def split: if_splits)
  then show ?case
    using ih k g kicked_trans [of d d1 d'] rewritten_trans [of d ls ls1 ls'] rewritten_kicked [of d d1]
      grown_trans [of cg cg2 cg'] by auto
qed simp

lemma init_members_ok: "init_members d ls seq ms = (d', ls') \<Longrightarrow> kicked d d' \<and> rewritten d ls ls'"
proof (induction ms arbitrary: d ls)
  case (Cons m ms)
  obtain d1 ls1 where s: "node_history_init d ls (mb_nodeid m) seq = (d1, ls1)" by force
  have k: "kicked d d1" "rewritten d ls ls1" using rewritten_init [OF s] by auto
  have "kicked d1 d'" "rewritten d1 ls1 ls'" using Cons s by auto
  then show ?case
    using kicked_trans [OF k(1)] rewritten_trans [OF k(2)] rewritten_kicked [OF k(1)] by auto
qed simp

lemma add_change_ok:
  assumes "mem_ok (dmem d)" "set j \<subseteq> set m"
  shows "\<exists>d' ls' cg. add_change d ls m l j = Some (d', ls'\<lparr>ls_changes := cg # ls_changes ls\<rparr>, Inr cg) \<and> kicked d d' \<and>
     rewritten d (ls\<lparr>ls_change_seq := next_seq (ls_change_seq ls)\<rparr>) ls' \<and>
     format_member_ids cg = m \<and> cg_state cg = CGST_WAIT_CONDITIONS \<and> cg_counts cg \<and>
     map mb_nodeid (cg_removed cg) = map fst l"
proof -
  obtain g m0 where m0: "malloc (dmem d) = (Some g, m0)" "mem_ok m0" using malloc_mem_ok assms(1) by blast
  define ls0 where "ls0 = ls\<lparr>ls_change_seq := next_seq (ls_change_seq ls)\<rparr>"
  define cg0 where "cg0 = change_zero\<lparr>cg_seq := next_seq (ls_change_seq ls), cg_member_count := of_nat (length m),
      cg_joined_count := of_nat (length j), cg_remove_count := of_nat (length l)\<rparr>"
  obtain m1 where a: "add_members (d\<lparr>dmem := m0\<rparr>) cg0 m = (d\<lparr>dmem := m1\<rparr>,
      cg0\<lparr>cg_members := map (\<lambda>n. memb_zero\<lparr>mb_nodeid := n\<rparr>) m\<rparr>, True)" and m1: "mem_ok m1"
    using add_members_ok [of "d\<lparr>dmem := m0\<rparr>" cg0 m] m0 by (auto simp: cg0_def change_zero_def)
  define cg1 where "cg1 = cg0\<lparr>cg_members := map (\<lambda>n. memb_zero\<lparr>mb_nodeid := n\<rparr>) m\<rparr>"
  have c1: "format_member_ids cg1 = m" "cg_removed cg1 = []"
    by (simp_all add: cg1_def cg0_def change_zero_def format_member_ids_def comp_def)
  obtain d2 ls2 cg2 where b: "add_removed (d\<lparr>dmem := m1\<rparr>) ls0 cg1 l = (d2, ls2, cg2, True)"
      "kicked (d\<lparr>dmem := m1\<rparr>) d2" "rewritten (d\<lparr>dmem := m1\<rparr>) ls0 ls2" "grown cg1 cg2"
      "map mb_nodeid (cg_removed cg2) = map fst l"
    using add_removed_ok [of "d\<lparr>dmem := m1\<rparr>" ls0 cg1 l] m1 c1 by auto
  have "set j \<subseteq> set (format_member_ids cg2)" using assms(2) c1 b(4) by (simp add: grown_def)
  then obtain d3 ls3 cg3 where c: "add_joined d2 ls2 cg2 j = (d3, ls3, cg3, True)" "kicked d2 d3"
      "rewritten d2 ls2 ls3" "grown cg2 cg3" "cg_removed cg3 = cg_removed cg2"
    using add_joined_ok [of j cg2 d2 ls2] by blast
  obtain d4 ls4 where e: "(if cg_we_joined cg3 then init_members d3 ls3 (cg_seq cg3) (cg_members cg3) else (d3, ls3)) =
      (d4, ls4)" by force
  have e': "kicked d3 d4" "rewritten d3 ls3 ls4" using e init_members_ok by (auto split: if_splits)
  have k0: "kicked d (d\<lparr>dmem := m1\<rparr>)" by (rule kickedI [where m = m1 and ops = "[]"]) (simp_all add: m1)
  have k2: "kicked d d2" by (rule kicked_trans [OF k0 b(2)])
  have k3: "kicked d d3" by (rule kicked_trans [OF k2 c(2)])
  have k4: "kicked d d4" by (rule kicked_trans [OF k3 e'(1)])
  have r: "rewritten d ls0 ls4"
    using rewritten_trans [OF rewritten_trans [of d ls0 ls2 ls3], of ls4] b(3) c(3) e'(2)
      rewritten_kicked [OF k0] rewritten_kicked [OF k2] rewritten_kicked [OF k3] by simp
  have g: "grown cg1 cg3" by (rule grown_trans [OF b(4) c(4)])
  have "ls_changes ls4 = ls_changes ls" using r by (auto simp: rewritten_def ls0_def)
  then have "add_change d ls m l j = Some (d4, ls4\<lparr>ls_changes := cg3 # ls_changes ls\<rparr>, Inr cg3)"
    using m0 a b(1) c(1) e by (simp add: add_change_def Let_def cg1_def ls0_def [symmetric] cg0_def [symmetric])
  moreover have "format_member_ids cg3 = m" "cg_state cg3 = CGST_WAIT_CONDITIONS" "cg_member_count cg3 = of_nat (length m)"
    using g c1 by (simp_all add: grown_def cg1_def cg0_def change_zero_def)
  moreover have "length (cg_members cg3) = length m"
    using \<open>format_member_ids cg3 = m\<close> by (auto simp: format_member_ids_def)
  ultimately show ?thesis using k4 r b(5) c(5) by (auto simp: cg_counts_def ls0_def)
qed

subsection \<open>Runs of a lockspace\<close>

lemma stop_kernel_view:
  assumes "stop_kernel d ls = (d', ls')" "snd (kernel_view (ls_name ls) d) = (\<not> ls_kernel_stopped ls)"
  shows "node_cfg d' = node_cfg d" "snd (kernel_view (ls_name ls) d') = False"
    "memb_view ls' = memb_view (ls\<lparr>ls_kernel_stopped := True\<rparr>)"
proof -
  obtain ids run where "kernel_view (ls_name ls) d = (ids, run)" by force
  then show "node_cfg d' = node_cfg d" "snd (kernel_view (ls_name ls) d') = False"
    "memb_view ls' = memb_view (ls\<lparr>ls_kernel_stopped := True\<rparr>)"
    using assms by (auto simp: stop_kernel_def kernel_view_op memb_view_def split: if_splits)
qed

lemma purge_removed_core: "purge_removed d ls ms = (d', ls') \<Longrightarrow> framed d ls d' ls'"
proof (induction ms arbitrary: d ls)
  case (Cons m ms)
  obtain d1 ls1 where p: "purge_plocks d ls (mb_nodeid m) False = (d1, ls1)" by force
  then show ?case using Cons framed_trans [OF purge_core [OF p]] by simp
qed simp

lemma rec_inv_change:
  assumes i: "rec_inv (d, ls, m0)" and k: "kicked d d1"
    and r: "rewritten d (ls\<lparr>ls_change_seq := s\<rparr>) ls1"
    and cg: "format_member_ids cg = m" "cg_state cg = CGST_WAIT_CONDITIONS" "cg_counts cg"
    and st: "stop_kernel d1 (ls1\<lparr>ls_changes := cg # ls_changes ls\<rparr>) = (d2, ls2)"
  shows "rec_inv (d2, ls2, m)"
proof -
  obtain ns where ns: "ls1 = ls\<lparr>ls_change_seq := s, ls_node_history := ns\<rparr>" using r by (auto simp: rewritten_def)
  have "flags_ok d (ls\<lparr>ls_change_seq := s\<rparr>)" using i by (simp add: flags_ok_def)
  then have f: "flags_ok d1 ls1" using r kicked_view(3) [OF k] by (simp add: rewritten_def)
  have v: "snd (kernel_view (ls_name ls) d1) = (\<not> ls_kernel_stopped ls)" using i kicked_view(2) [OF k] by simp
  note sv = stop_kernel_view [OF st]
  show ?thesis
    using i f cg sv v
    by (auto simp: ns memb_view_def applied_def past_conditions_def flags_ok_def node_cfg_def)
qed

lemma confchg_ls_inv:
  assumes i: "rec_inv (d, ls, m0)" and "mem_ok (dmem d)" "set j \<subseteq> set m"
    and c: "confchg_ls d ls m l j = Some (d', Some ls')"
  shows "rec_inv (d', ls', m)"
proof -
  obtain d1 ls1 cg where a: "add_change d ls m l j = Some (d1, ls1\<lparr>ls_changes := cg # ls_changes ls\<rparr>, Inr cg)"
      "kicked d d1" "rewritten d (ls\<lparr>ls_change_seq := next_seq (ls_change_seq ls)\<rparr>) ls1"
      "format_member_ids cg = m" "cg_state cg = CGST_WAIT_CONDITIONS" "cg_counts cg"
    using add_change_ok [OF assms(2,3), of ls l] by auto
  obtain d2 ls2 where s: "stop_kernel d1 (ls1\<lparr>ls_changes := cg # ls_changes ls\<rparr>) = (d2, ls2)" by force
  obtain d3 ls3 where p: "purge_removed d2 ls2 (cg_removed cg) = (d3, ls3)" by force
  obtain d4 ls4 where ac: "apply_changes d3 ls3 = Some (d4, ls4)" and
      dk: "deadlk_confchg d4 ls4 m (map fst l) j = Some (d', ls')"
    using c a(1) s p by (auto simp: confchg_ls_def split: if_splits option.splits)
  have "rec_inv (d2, ls2, m)" by (rule rec_inv_change [OF i a(2-6) s])
  then have "rec_inv (d3, ls3, m)" by (rule rec_inv_framed [OF purge_removed_core [OF p]])
  then have "rec_inv (d4, ls4, m)" using ac by (rule apply_changes_inv)
  then show ?thesis by (rule rec_inv_framed [OF deadlk_confchg_core [OF dk]])
qed

text \<open>
  The events of a lockspace in this daemon.  The last component of the state is the member list of the last
  configuration change.  The group service reports only members as joined, and a configuration change finds
  memory.  Between events the rest of the daemon may change anything but its configuration and what the kernel was
  told about this lockspace.
\<close>

inductive rec_step :: "daemon \<times> lockspace \<times> nodeid list \<Rightarrow> daemon \<times> lockspace \<times> nodeid list \<Rightarrow> bool" where
  confchg: "mem_ok (dmem d) \<Longrightarrow> set j \<subseteq> set m' \<Longrightarrow> confchg_ls d ls m' l j = Some (d', Some ls') \<Longrightarrow>
    rec_step (d, ls, m) (d', ls', m')"
| deliver: "deliver_ls d ls n data = Some (d', ls') \<Longrightarrow> rec_step (d, ls, m) (d', ls', m)"
| poll: "apply_changes d ls = Some (d', ls') \<Longrightarrow> rec_step (d, ls, m) (d', ls', m)"
| plock: "process_plock_ls d ls i = (d', ls') \<Longrightarrow> rec_step (d, ls, m) (d', ls', m)"
| notified: "rec_step (d, ls, m) (d, fst (set_fs_notified ls n), m)"
| registered: "rec_step (d, ls, m) (d, ls\<lparr>ls_fs_registered := b\<rparr>, m)"
| leave: "dlm_leave_lockspace d ls = (d', ls', rv) \<Longrightarrow> rec_step (d, ls, m) (d', ls', m)"
| rest: "node_cfg d' = node_cfg d \<Longrightarrow> kernel_view (ls_name ls) d' = kernel_view (ls_name ls) d \<Longrightarrow>
    rec_step (d, ls, m) (d', ls, m)"

lemma set_fs_notified_inv:
  assumes i: "rec_inv (d, ls, m)"
  shows "rec_inv (d, fst (set_fs_notified ls n), m)"
proof -
  have "rec_inv (d, upd_history (\<lambda>n. n\<lparr>nd_fs_notified := True\<rparr>) n ls, m)"
    by (rule upd_history_inv [OF _ i]) simp
  then show ?thesis
    using i by (simp add: set_fs_notified_def del: rec_inv.simps split: option.split)
qed

lemma rec_step_inv: "rec_step s s' \<Longrightarrow> rec_inv s \<Longrightarrow> rec_inv s'"
proof (induction rule: rec_step.induct)
  case (confchg d j m' ls l d' ls' m)
  show ?case by (rule confchg_ls_inv [OF confchg.prems confchg.hyps])
next
  case (deliver d ls n data d' ls' m)
  show ?case by (rule deliver_ls_inv [OF deliver.prems deliver.hyps])
next
  case (poll d ls d' ls' m)
  show ?case by (rule apply_changes_inv [OF poll.prems poll.hyps])
next
  case (plock d ls i d' ls' m)
  show ?case by (rule rec_inv_framed [OF process_plock_ls_core [OF plock.hyps] plock.prems])
next
  case (notified d ls m n)
  show ?case by (rule set_fs_notified_inv [OF notified.prems])
next
  case (registered d ls m b)
  show ?case by (rule rec_inv_same [OF _ _ _ registered.prems]) (simp_all add: memb_view_def)
next
  case (leave d ls d' ls' rv m)
  show ?case
    by (rule rec_inv_same [OF _ _ _ leave.prems])
      (use leave.hyps in \<open>auto simp: memb_view_def kernel_view_op dlm_leave_lockspace_def\<close>)
next
  case (rest d' d ls m)
  show ?case by (rule rec_inv_same [OF rest.hyps refl rest.prems])
qed

text \<open>The lockspace has just joined its process group and the kernel does not run it.\<close>

fun rec_init :: "daemon \<times> lockspace \<times> nodeid list \<Rightarrow> bool" where
  "rec_init (d, ls, m) \<longleftrightarrow> (\<exists>d0 lss lss' name h ci joins.
     dlm_join_lockspace d0 lss (ls_zero\<lparr>ls_name := name\<rparr>) (CPG_OK, h) ci joins = (d, ls # lss', 0)) \<and>
     \<not> snd (kernel_view (ls_name ls) d)"

lemma rec_init_inv: "rec_init s \<Longrightarrow> rec_inv s"
  by (cases s) (auto simp: dlm_join_lockspace_def Let_def ls_zero_def applied_def flags_ok_def past_conditions_def
      split: if_splits)

interpretation recovery: invariant_system rec_init rec_step rec_inv
  by unfold_locales (erule rec_init_inv, erule (1) rec_step_inv)

end
