(* ===== verification/Cpg_Safety.thy ===== *)
theory Cpg_Safety
  imports Cpg_System Plock_Queue
begin

text \<open>
  Safety of recovery: when the kernel runs a lockspace, what recovery waits for, and which node stores the plock
  state.  The witnesses run the daemon of node 1 through a join, a configuration change and the start messages of
  two members.
\<close>

subsection \<open>Executable runs\<close>

fun run_event :: "cpg_event \<Rightarrow> daemon \<times> lockspace \<times> nodeid list \<Rightarrow> (daemon \<times> lockspace \<times> nodeid list) option" where
  "run_event (Ev_confchg m' l j) (d, ls, m) =
     (if mem_ok (dmem d) \<and> set j \<subseteq> set m' then (case confchg_ls d ls m' l j of
          Some (d', Some ls') \<Rightarrow> Some (d', ls', m')
        | _ \<Rightarrow> None)
      else None)"
| "run_event (Ev_deliver n data) (d, ls, m) = map_option (\<lambda>(d', ls'). (d', ls', m)) (deliver_ls d ls n data)"

fun run_events :: "cpg_event list \<Rightarrow> daemon \<times> lockspace \<times> nodeid list \<Rightarrow> (daemon \<times> lockspace \<times> nodeid list) option" where
  "run_events [] s = Some s"
| "run_events (e # es) s = Option.bind (run_event e s) (run_events es)"

lemma run_event_step:
  assumes "run_event e s = Some s'"
  shows "rec_step s s'"
proof (cases e)
  case (Ev_confchg m' l j)
  obtain d ls m where s: "s = (d, ls, m)" by (metis prod_cases3)
  obtain d' ls' where c: "mem_ok (dmem d)" "set j \<subseteq> set m'" "confchg_ls d ls m' l j = Some (d', Some ls')"
      "s' = (d', ls', m')"
    using assms Ev_confchg s by (auto split: if_splits option.splits)
  show ?thesis unfolding s c(4) by (rule rec_step.confchg [OF c(1-3)])
next
  case (Ev_deliver n data)
  then show ?thesis using assms by (cases s) (auto intro: rec_step.deliver)
qed

lemma run_events_steps: "run_events es s = Some s' \<Longrightarrow> rec_step\<^sup>*\<^sup>* s s'"
proof (induction es arbitrary: s)
  case (Cons e es)
  then obtain s1 where "run_event e s = Some s1" "run_events es s1 = Some s'"
    by (auto simp: bind_eq_Some_conv)
  then show ?case using Cons.IH [of s1] run_event_step [of e s s1] by (meson converse_rtranclp_into_rtranclp)
qed simp

text \<open>The start message that node \<open>n\<close> sends for a change, in the form in which a daemon receives it.\<close>

definition start_msg :: "daemon \<Rightarrow> nodeid \<Rightarrow> u32 \<Rightarrow> u32 \<Rightarrow> change \<Rightarrow> dlm_header \<times> body" where
  "start_msg d n started flags cg =
     (dlm_send_header (big_endian d) (daemon_run d) n 0
        (hd_zero\<lparr>hd_type := DLM_MSG_START, hd_msgdata := cg_seq cg, hd_flags := flags\<rparr>),
      Body_ls_info (ls_info_out (big_endian d)
        \<lparr>li_ls_info_size = 32, li_id_info_size = 4, li_id_info_count = cg_member_count cg,
         li_started_count = started, li_member_count = cg_member_count cg, li_joined_count = cg_joined_count cg,
         li_remove_count = cg_remove_count cg, li_failed_count = cg_failed_count cg\<rparr>)
        (map (cpu_to_le32 (big_endian d)) (format_member_ids cg)))"

text \<open>Node 1 joins an empty lockspace, then nodes 1 and 2 are its members.\<close>

definition ex_joined :: "daemon \<times> lockspace \<times> nodeid list" where
  "ex_joined = (case dlm_join_lockspace (ex_daemon 1 False) [] (ls_zero\<lparr>ls_name := ''x''\<rparr>) (CPG_OK, 5) 9 [CPG_ERR_TRY_AGAIN] of
     (d, lss, _) \<Rightarrow> (d, hd lss, []))"

definition ex_cg :: "nodeid list \<Rightarrow> nat \<Rightarrow> nat \<Rightarrow> nat \<Rightarrow> u32 \<Rightarrow> change" where
  "ex_cg m j r f seq = change_zero\<lparr>cg_members := map (\<lambda>n. memb_zero\<lparr>mb_nodeid := n\<rparr>) m,
     cg_member_count := of_nat (length m), cg_joined_count := of_nat j, cg_remove_count := of_nat r,
     cg_failed_count := of_nat f, cg_seq := seq\<rparr>"

definition ex_start :: "nodeid \<Rightarrow> u32 \<Rightarrow> change \<Rightarrow> cpg_event" where
  "ex_start n started cg = Ev_deliver n (Some (start_msg (ex_daemon 1 False) n started DLM_MFLG_HAVEPLOCK cg))"

definition ex_events :: "cpg_event list" where
  "ex_events = [Ev_confchg [1, 2] [] [1], ex_start 2 1 (ex_cg [1, 2] 1 0 0 7), ex_start 1 0 (ex_cg [1, 2] 1 0 0 1)]"

lemma ex_joined_init: "rec_init ex_joined"
proof -
  define d where "d = fst ex_joined"
  define ls where "ls = fst (snd ex_joined)"
  have "dlm_join_lockspace (ex_daemon 1 False) [] (ls_zero\<lparr>ls_name := ''x''\<rparr>) (CPG_OK, 5) 9 [CPG_ERR_TRY_AGAIN] =
      (d, ls # [], 0)" "ex_joined = (d, ls, [])" "\<not> snd (kernel_view (ls_name ls) d)"
    unfolding d_def ls_def
    by (simp_all add: ex_joined_def dlm_join_lockspace_def ex_daemon_def fence_in_progress_def Let_def kernel_view_def
        kernel_op_def)
  then show ?thesis unfolding \<open>ex_joined = _\<close> rec_init.simps by blast
qed

subsection \<open>The kernel runs the current membership\<close>



subsection \<open>What recovery waits for\<close>

definition flags_view :: "node \<Rightarrow> nodeid \<times> bool \<times> bool \<times> bool" where
  "flags_view n = (nd_nodeid n, nd_check_quorum n, nd_check_fs n, nd_fs_notified n)"

lemma check_fencing_loop_fenced:
  "check_fencing_loop d t ns = (ns', w) \<Longrightarrow> map flags_view ns' = map flags_view ns \<and>
    (w = 0 \<longrightarrow> (\<forall>n\<in>set ns. nd_check_fencing n \<longrightarrow> 0 \<le> fst (fenced_node_info d (nd_nodeid n)) \<longrightarrow>
       nd_add_time n < snd (fenced_node_info d (nd_nodeid n))))"
  by (induction ns arbitrary: t ns' w)
    (auto simp: flags_view_def fence_node_time_def split: if_splits prod.splits)

lemma check_fencing_done_fenced:
  assumes "check_fencing_done d ls = (ls', True)"
  shows "map flags_view (ls_node_history ls') = map flags_view (ls_node_history ls)"
    "ls_fs_registered ls' = ls_fs_registered ls"
    "cfgd_enable_fencing d \<Longrightarrow> 0 \<le> fst (fenced_domain_info d) \<and> snd (fenced_domain_info d) = 0 \<and>
      (\<forall>n\<in>set (ls_node_history ls). nd_check_fencing n \<longrightarrow> 0 \<le> fst (fenced_node_info d (nd_nodeid n)) \<longrightarrow>
         nd_add_time n < snd (fenced_node_info d (nd_nodeid n)))"
  using assms
  by (auto simp: check_fencing_done_def fence_in_progress_def Let_def split: if_splits prod.splits
      dest: check_fencing_loop_fenced)

lemma clear_quorum_view [simp]:
  "nd_check_fs (clear_quorum d n) = nd_check_fs n" "nd_fs_notified (clear_quorum d n) = nd_fs_notified n"
  "nd_check_quorum (clear_quorum d n) \<longleftrightarrow> nd_check_quorum n \<and> is_cluster_member d (nd_nodeid n)"
  by (auto simp: clear_quorum_def)

lemma clear_fs_view [simp]: "nd_check_fs (clear_fs n) \<longleftrightarrow> nd_check_fs n \<and> \<not> nd_fs_notified n"
  by (auto simp: clear_fs_def)

lemma check_quorum_done_seen:
  assumes c: "check_quorum_done d ls = (ls', True)"
  shows "map (\<lambda>n. (nd_check_fs n, nd_fs_notified n)) (ls_node_history ls') =
      map (\<lambda>n. (nd_check_fs n, nd_fs_notified n)) (ls_node_history ls)"
    "ls_fs_registered ls' = ls_fs_registered ls"
    "cfgd_enable_quorum d \<Longrightarrow> cluster_quorate d \<and>
      (\<forall>n\<in>set (ls_node_history ls). nd_check_quorum n \<longrightarrow> nd_nodeid n \<notin> set (quorum_nodes d))"
  using c by (auto simp: check_quorum_done_def is_cluster_member_def is_member_def Let_def split: if_splits)

lemma check_fs_done_acked:
  "check_fs_done ls = (ls', True) \<Longrightarrow> ls_fs_registered ls \<Longrightarrow>
    \<forall>n\<in>set (ls_node_history ls). nd_check_fs n \<longrightarrow> nd_fs_notified n"
  by (auto simp: check_fs_done_def Let_def split: if_splits)


definition ex_failed :: lockspace where
  "ex_failed = (ex_ls [])\<lparr>ls_kernel_stopped := True, ls_changes := [ex_cg [1, 2] 0 1 1 4],
     ls_node_history := [node_zero\<lparr>nd_nodeid := 3, nd_check_fencing := True, nd_add_time := 50\<rparr>]\<rparr>"

definition ex_fenced :: daemon where
  "ex_fenced = (ex_daemon 1 False)\<lparr>fenced_node_info := (\<lambda>n. (0, if n = 3 then 60 else 0))\<rparr>"


text \<open>
  C34. When fenced answers with an error, the time that is compared is what the variable held before: with a stale
  value later than the node's start the node counts as fenced and recovery goes on.
\<close>

theorem fence_error_stale:
  assumes "cfgd_enable_fencing d" "ls_node_history ls = [n]" "nd_check_fencing n"
    "fst (fenced_node_info d (nd_nodeid n)) < 0" "nd_add_time n < fence_stack d" "fenced_domain_info d = (0, 0)"
  shows "snd (check_fencing_done d ls) \<and> (\<forall>n'\<in>set (ls_node_history (fst (check_fencing_done d ls))). \<not> nd_check_fencing n')"
  using assms by (auto simp: check_fencing_done_def fence_node_time_def fence_in_progress_def Let_def split: prod.splits)

theorem fence_error_stale_witness:
  "snd (check_fencing_done (ex_fenced\<lparr>fenced_node_info := (\<lambda>_. (- 1, 0)), fence_stack := 70\<rparr>) ex_failed)"
proof -
  have "cfgd_enable_fencing (ex_fenced\<lparr>fenced_node_info := (\<lambda>_. (- 1, 0)), fence_stack := 70\<rparr>)"
    "ls_node_history ex_failed = [node_zero\<lparr>nd_nodeid := 3, nd_check_fencing := True, nd_add_time := 50\<rparr>]"
    "fenced_domain_info (ex_fenced\<lparr>fenced_node_info := (\<lambda>_. (- 1, 0)), fence_stack := 70\<rparr>) = (0, 0)"
    by (simp_all add: ex_fenced_def ex_daemon_def ex_failed_def)
  from fence_error_stale [OF this(1,2) _ _ _ this(3)] show ?thesis by (simp add: node_zero_def)
qed

subsection \<open>The checkpoint node\<close>

definition have_plock :: "member \<Rightarrow> bool" where
  "have_plock m \<longleftrightarrow> and (mb_start_flags m) DLM_MFLG_HAVEPLOCK \<noteq> 0"

lemma low_plock_node_min:
  assumes "low \<noteq> 0" "\<forall>m\<in>set ms. mb_nodeid m \<noteq> 0"
  shows "low_plock_node ms low \<in> insert low (mb_nodeid ` set (filter have_plock ms)) \<and>
    (\<forall>n\<in>insert low (mb_nodeid ` set (filter have_plock ms)). sint (low_plock_node ms low) \<le> sint n)"
  using assms
proof (induction ms arbitrary: low)
  case (Cons m ms)
  let ?l = "if have_plock m \<and> mb_nodeid m <s low then mb_nodeid m else low"
  have "low_plock_node (m # ms) low = low_plock_node ms ?l" using Cons.prems by (simp add: have_plock_def)
  moreover have "sint ?l \<le> sint low" "have_plock m \<Longrightarrow> sint ?l \<le> sint (mb_nodeid m)" by (auto simp: word_sless_alt)
  ultimately show ?case using Cons.IH [of ?l] Cons.prems by (force split: if_splits)
qed simp

lemma low_plock_node_zero:
  assumes "\<forall>m\<in>set ms. mb_nodeid m \<noteq> 0"
  defines "ns \<equiv> mb_nodeid ` set (filter have_plock ms)"
  shows "if ns = {} then low_plock_node ms 0 = 0
    else low_plock_node ms 0 \<in> ns \<and> (\<forall>n\<in>ns. sint (low_plock_node ms 0) \<le> sint n)"
  using assms(1) unfolding ns_def
proof (induction ms)
  case (Cons m ms)
  show ?case
  proof (cases "have_plock m")
    case True
    then show ?thesis using low_plock_node_min [of "mb_nodeid m" ms] Cons.prems by (simp add: have_plock_def)
  next
    case False
    then have "low_plock_node (m # ms) 0 = low_plock_node ms 0" by (simp add: have_plock_def)
    then show ?thesis using Cons False by (auto split: if_splits simp del: low_plock_node.simps)
  qed
qed simp

text \<open>
  C31. The checkpoint node of a change is the member with the lowest node id, read as a signed number, among those
  whose start message says they have the plock state; without such a member there is none.
\<close>

theorem set_plock_ckpt_node_lowest:
  fixes d :: daemon and ls :: lockspace
  assumes "\<forall>m\<in>set (cg_members cg). mb_nodeid m \<noteq> 0"
  defines "low \<equiv> ls_plock_ckpt_node (snd (set_plock_ckpt_node d ls cg))"
    and "ns \<equiv> {mb_nodeid m |m. m \<in> set (cg_members cg) \<and> and (mb_start_flags m) DLM_MFLG_HAVEPLOCK \<noteq> 0}"
  shows "if ns = {} then low = 0 else low \<in> ns \<and> (\<forall>n\<in>ns. sint low \<le> sint n)"
proof -
  have "ns = mb_nodeid ` set (filter have_plock (cg_members cg))"
    unfolding ns_def have_plock_def by auto
  moreover have "low = low_plock_node (cg_members cg) 0"
    by (simp add: low_def set_plock_ckpt_node_def Let_def split: prod.split)
  ultimately show ?thesis using low_plock_node_zero [OF assms(1)] by (simp only:)
qed

definition ex_flagged :: "(nodeid \<times> u32) list \<Rightarrow> change" where
  "ex_flagged fs = (ex_cg [] 0 0 0 4)\<lparr>cg_members := map (\<lambda>(n, f). memb_zero\<lparr>mb_nodeid := n, mb_start_flags := f\<rparr>) fs\<rparr>"

theorem set_plock_ckpt_node_lowest_witness:
  "ls_plock_ckpt_node (snd (set_plock_ckpt_node (ex_daemon 1 False) (ex_ls []) (ex_flagged [(7, 2), (1, 1), (4, 3)]))) = 4"
proof -
  have "\<forall>m\<in>set (cg_members (ex_flagged [(7, 2), (1, 1), (4, 3)])). mb_nodeid m \<noteq> 0" by code_simp
  moreover have "{mb_nodeid m |m. m \<in> set (cg_members (ex_flagged [(7, 2), (1, 1), (4, 3)])) \<and>
      and (mb_start_flags m) DLM_MFLG_HAVEPLOCK \<noteq> 0} = {7, 4}"
  proof -
    have "map mb_nodeid (filter (\<lambda>m. and (mb_start_flags m) DLM_MFLG_HAVEPLOCK \<noteq> 0)
        (cg_members (ex_flagged [(7, 2), (1, 1), (4, 3)]))) = [7, 4]" by code_simp
    from arg_cong [OF this, of set] show ?thesis by auto
  qed
  ultimately have "ls_plock_ckpt_node (snd (set_plock_ckpt_node (ex_daemon 1 False) (ex_ls [])
      (ex_flagged [(7, 2), (1, 1), (4, 3)]))) \<in> {7, 4} \<and> (\<forall>n\<in>{7, 4 :: nodeid}. sint (ls_plock_ckpt_node
      (snd (set_plock_ckpt_node (ex_daemon 1 False) (ex_ls []) (ex_flagged [(7, 2), (1, 1), (4, 3)])))) \<le> sint n)"
    using set_plock_ckpt_node_lowest [of "ex_flagged [(7, 2), (1, 1), (4, 3)]" "ex_daemon 1 False" "ex_ls []"] by simp
  then show ?thesis by auto
qed

end
