(* ===== verification/Cpg_Start.thy ===== *)
theory Cpg_Start
  imports Cpg_Safety
begin

text \<open>
  Start messages: a message that one daemon sends for a change is taken by the others for that same change, and
  once every member's message has arrived the kernel is started.  A message does not name its change; it is matched
  by the counts and the member ids, oldest change first, and two changes with the same details cannot be told apart.
\<close>

subsection \<open>Matching\<close>

definition details :: "change \<Rightarrow> s32 \<times> s32 \<times> s32 \<times> s32" where
  "details cg = (cg_member_count cg, cg_joined_count cg, cg_remove_count cg, cg_failed_count cg)"

text \<open>No older change would be taken for the first one.\<close>

definition unambiguous :: "change \<Rightarrow> change list \<Rightarrow> bool" where
  "unambiguous cg older \<longleftrightarrow> (\<forall>c\<in>set older. details c \<noteq> details cg \<or>
     \<not> set (format_member_ids cg) \<subseteq> set (format_member_ids c))"

definition change_li :: "change \<Rightarrow> u32 \<Rightarrow> ls_info" where
  "change_li cg started = \<lparr>li_ls_info_size = 32, li_id_info_size = 4, li_id_info_count = cg_member_count cg,
     li_started_count = started, li_member_count = cg_member_count cg, li_joined_count = cg_joined_count cg,
     li_remove_count = cg_remove_count cg, li_failed_count = cg_failed_count cg\<rparr>"

lemma counts_length: "cg_counts cg \<Longrightarrow> length (cg_members cg) \<le> MAX_NODES \<Longrightarrow> unat (cg_member_count cg) = length (cg_members cg)"
  by (simp add: cg_counts_def unat_of_nat take_bit_nat_eq_self)

lemma read_start_body:
  assumes "cg_counts cg" "length (cg_members cg) \<le> MAX_NODES"
  shows "read_ls_info d (Body_ls_info (ls_info_out (big_endian d) (change_li cg started))
      (map (cpu_to_le32 (big_endian d)) (format_member_ids cg))) = Some (change_li cg started, format_member_ids cg)"
proof -
  have n: "unat (li_id_info_count (change_li cg started)) = length (format_member_ids cg)"
    using counts_length [OF assms] by (simp add: change_li_def format_member_ids_def)
  show ?thesis
    by (simp add: read_ls_info_def Let_def n ids_in_def le32.map_dec_enc del: map_map)
      (simp add: change_li_def)
qed

lemma match_details:
  "match_change d c h (change_li cg started) (format_member_ids cg) \<longleftrightarrow>
     our_nodeid d \<in> set (format_member_ids cg) \<and> hd_nodeid h \<in> set (format_member_ids c) \<and> details c = details cg \<and>
     set (format_member_ids cg) \<subseteq> set (format_member_ids c)"
proof -
  have f: "find_memb c n = None \<longleftrightarrow> n \<notin> set (format_member_ids c)" for n using find_memb_ids [of c n] by blast
  show ?thesis by (auto simp: match_change_def get_id_struct_def change_li_def details_def f)
qed

lemma find_change_first:
  assumes "ls_changes ls = c # older" "details c = details cg" "format_member_ids c = format_member_ids cg"
    "unambiguous c older" "our_nodeid d \<in> set (format_member_ids cg)" "hd_nodeid h \<in> set (format_member_ids cg)"
  shows "find_change d ls h (change_li cg started) (format_member_ids cg) = Some 0"
proof -
  let ?P = "\<lambda>i. match_change d (ls_changes ls ! i) h (change_li cg started) (format_member_ids cg)"
  have "\<not> ?P i" if "i \<in> set (rev [1..<length (ls_changes ls)])" for i
  proof -
    have "0 < i" "i < Suc (length older)" using that assms(1) by (simp_all del: upt_Suc)
    then have "(c # older) ! i \<in> set older" by (cases i) auto
    then show ?thesis using assms(1-4) unfolding unambiguous_def match_details by force
  qed
  then have "find ?P (rev [1..<length (ls_changes ls)]) = None" by (simp add: find_None_iff)
  moreover have "rev [0..<length (ls_changes ls)] = rev [1..<length (ls_changes ls)] @ [0]"
    using assms(1) by (simp add: upt_rec)
  moreover have "?P 0" using assms by (simp add: match_details)
  ultimately show ?thesis by (simp add: find_change_def find_append del: upt_Suc)
qed

subsection \<open>Receiving a start message\<close>

text \<open>What an accepted start message of node \<open>n\<close> does to the first change.\<close>

definition mark_start :: "daemon \<Rightarrow> nodeid \<Rightarrow> u32 \<Rightarrow> lockspace \<Rightarrow> lockspace" where
  "mark_start d n flags ls = upd_change 0 (upd_memb (\<lambda>m. m\<lparr>mb_start := True\<rparr>) n)
     (node_history_start d (upd_change 0 (upd_memb (\<lambda>m. m\<lparr>mb_start_flags := flags\<rparr>) n) ls) n)"

lemma is_added_flags: "is_added (upd_change 0 (upd_memb (\<lambda>m. m\<lparr>mb_start_flags := flags\<rparr>) n) ls) k = is_added ls k"
proof -
  have a: "(case find_memb (upd_memb (\<lambda>m. m\<lparr>mb_start_flags := flags\<rparr>) n c) k of None \<Rightarrow> False | Some m \<Rightarrow> mb_added m) =
      (case find_memb c k of None \<Rightarrow> False | Some m \<Rightarrow> mb_added m)" for c
    by (cases "n = k")
      (auto simp: find_memb_def upd_memb_def find_map_first find_map_first_other split: option.split)
  show ?thesis by (cases "ls_changes ls") (simp_all add: is_added_def upd_change_def a)
qed

lemma receive_start_marks:
  assumes "ls_changes ls = c # older" "details c = details cg" "format_member_ids c = format_member_ids cg"
    "unambiguous c older" "our_nodeid d \<in> set (format_member_ids cg)" "hd_nodeid h \<in> set (format_member_ids cg)"
    "cg_counts cg" "length (cg_members cg) \<le> MAX_NODES" "is_added ls (hd_nodeid h) \<longrightarrow> started = 0"
  shows "receive_start d ls h (Body_ls_info (ls_info_out (big_endian d) (change_li cg started))
      (map (cpu_to_le32 (big_endian d)) (format_member_ids cg))) = Some (d, mark_start d (hd_nodeid h) (hd_flags h) ls)"
proof -
  have "\<not> (is_added ls (hd_nodeid h) \<and> li_started_count (change_li cg started) \<noteq> 0)"
    using assms(9) by (simp add: change_li_def)
  then show ?thesis
    using find_change_first [OF assms(1-6), of started]
    by (auto simp: receive_start_def read_start_body [OF assms(7,8)] Let_def mark_start_def is_added_flags)
qed

lemma receive_start_idle:
  assumes "ls_changes ls = []" "cg_counts cg" "length (cg_members cg) \<le> MAX_NODES"
  shows "receive_start d ls h (Body_ls_info (ls_info_out (big_endian d) (change_li cg started))
      (map (cpu_to_le32 (big_endian d)) (format_member_ids cg))) = Some (d, ls)"
  using assms by (simp add: receive_start_def read_start_body find_change_def)

subsection \<open>From the sender to the receiver\<close>

lemma info_flags_have: "and (info_flags ls) DLM_MFLG_HAVEPLOCK \<noteq> 0 \<longleftrightarrow> \<not> ls_need_plocks ls"
  by (cases "ls_joining ls"; cases "ls_need_plocks ls") (simp_all add: info_flags_def)

lemma find_memb_mark:
  assumes "ls_changes ls = c # older" "n \<in> set (format_member_ids c)"
  shows "\<exists>memb. ls_changes (mark_start d n flags ls) =
      upd_memb (\<lambda>m. m\<lparr>mb_start := True\<rparr>) n (upd_memb (\<lambda>m. m\<lparr>mb_start_flags := flags\<rparr>) n c) # older \<and>
    find_memb (hd (ls_changes (mark_start d n flags ls))) n = Some memb \<and> mb_start memb \<and> mb_start_flags memb = flags"
proof -
  obtain m where "find_memb c n = Some m" using find_memb_ids [of c n] assms(2) by blast
  then show ?thesis
    using assms(1)
    by (simp add: mark_start_def node_history_start_def upd_history_def upd_change_def upd_memb_def find_memb_def
        find_map_first)
qed


definition ex_pending :: "change list \<Rightarrow> lockspace" where
  "ex_pending cgs = (ex_ls [])\<lparr>ls_kernel_stopped := True, ls_joining := True, ls_need_plocks := True, ls_changes := cgs\<rparr>"


subsection \<open>Recovery completes\<close>

fun deliver_all :: "daemon \<Rightarrow> lockspace \<Rightarrow> (nodeid \<times> dlm_header \<times> body) list \<Rightarrow> (daemon \<times> lockspace) option" where
  "deliver_all d ls [] = Some (d, ls)"
| "deliver_all d ls ((n, msg) # ms) = (case deliver_ls d ls n (Some msg) of
       None \<Rightarrow> None
     | Some (d, ls) \<Rightarrow> deliver_all d ls ms)"

lemma deliver_start_msg:
  "deliver_ls d ls n (Some (start_msg d n started flags cg)) =
    (case receive_start d ls (hd_zero\<lparr>hd_type := DLM_MSG_START, hd_msgdata := cg_seq cg, hd_flags := flags,
          hd_version := daemon_run d, hd_nodeid := n, hd_global_id := 0\<rparr>)
        (Body_ls_info (ls_info_out (big_endian d) (change_li cg started))
          (map (cpu_to_le32 (big_endian d)) (format_member_ids cg))) of
       None \<Rightarrow> None
     | Some (d, ls) \<Rightarrow> apply_changes d ls)"
  by (simp add: deliver_ls_def start_msg_def dlm_header_in_send Let_def deliver_type_def change_li_def)

lemma kernel_op_fields:
  "start_msg (kernel_op d op) = start_msg d" "cfgd_enable_plock (kernel_op d op) = cfgd_enable_plock d"
  "big_endian (kernel_op d op) = big_endian d"
  by (simp_all add: fun_eq_iff start_msg_def kernel_op_def daemon_run_def)

text \<open>The first change still waits for start messages of the nodes outside \<open>S\<close>.\<close>

definition collecting :: "lockspace \<Rightarrow> change \<Rightarrow> change list \<Rightarrow> nodeid set \<Rightarrow> lockspace \<Rightarrow> bool" where
  "collecting ls0 cg older S ls \<longleftrightarrow> (\<exists>c. ls_changes ls = c # older \<and> details c = details cg \<and>
     format_member_ids c = format_member_ids cg \<and> cg_state c = CGST_WAIT_MESSAGES \<and>
     (\<forall>m\<in>set (cg_members c). mb_nodeid m \<in> S \<longrightarrow> mb_start m)) \<and>
     is_added ls = is_added ls0 \<and> ls_kernel_stopped ls \<and> ls_name ls = ls_name ls0"

lemma is_added_start: "is_added (mark_start d n flags ls) = is_added ls"
proof -
  have a: "(case find_memb (upd_memb (\<lambda>m. m\<lparr>mb_start := True\<rparr>) n c) k of None \<Rightarrow> False | Some m \<Rightarrow> mb_added m) =
      (case find_memb c k of None \<Rightarrow> False | Some m \<Rightarrow> mb_added m)" for c k
    by (cases "n = k")
      (auto simp: find_memb_def upd_memb_def find_map_first find_map_first_other split: option.split)
  have b: "is_added (upd_change 0 (upd_memb (\<lambda>m. m\<lparr>mb_start := True\<rparr>) n) l) k = is_added l k" for l k
    by (cases "ls_changes l") (simp_all add: is_added_def upd_change_def a)
  have "is_added (node_history_start d l n) = is_added l" for l
    by (simp add: fun_eq_iff is_added_def node_history_start_def upd_history_def)
  then show ?thesis by (simp add: fun_eq_iff mark_start_def b is_added_flags)
qed

text \<open>In a list without repeated ids the first entry with an id is the only one.\<close>

lemma map_first_distinct:
  "distinct (map mb_nodeid ms) \<Longrightarrow> map_first (\<lambda>m. mb_nodeid m = n) f ms = map (\<lambda>m. if mb_nodeid m = n then f m else m) ms"
proof (induction ms)
  case (Cons m ms)
  then show ?case by (cases "mb_nodeid m = n") (auto intro!: map_idI [symmetric] simp: image_iff)
qed simp

lemma map_first_twice:
  "(\<And>x. P x \<Longrightarrow> P (g x)) \<Longrightarrow> map_first P f (map_first P g xs) = map_first P (\<lambda>x. f (g x)) xs"
  by (induction xs) auto

lemma mark_collecting:
  assumes "collecting ls0 cg older S ls" "distinct (format_member_ids cg)"
  shows "collecting ls0 cg older (insert n S) (mark_start d n flags ls)"
proof -
  obtain c where c: "ls_changes ls = c # older" "details c = details cg" "format_member_ids c = format_member_ids cg"
      "cg_state c = CGST_WAIT_MESSAGES" "\<forall>m\<in>set (cg_members c). mb_nodeid m \<in> S \<longrightarrow> mb_start m"
    using assms(1) by (auto simp: collecting_def)
  have dm: "distinct (map mb_nodeid (cg_members c))" using assms(2) c(3) by (simp add: format_member_ids_def)
  let ?f = "\<lambda>m. if mb_nodeid m = n then m\<lparr>mb_start_flags := flags, mb_start := True\<rparr> else m"
  have "ls_changes (mark_start d n flags ls) = c\<lparr>cg_members := map ?f (cg_members c)\<rparr> # older"
    using c(1)
    by (simp add: mark_start_def node_history_start_def upd_history_def upd_change_def upd_memb_def map_first_twice)
      (simp add: map_first_distinct [OF dm] cong: if_cong)
  moreover have "format_member_ids (c\<lparr>cg_members := map ?f (cg_members c)\<rparr>) = format_member_ids c"
    by (simp add: format_member_ids_def)
  ultimately show ?thesis
    using assms(1) c(2-5)
    by (auto simp: collecting_def is_added_start details_def)
      (simp_all add: mark_start_def node_history_start_def upd_history_def upd_change_def)
qed

lemma format_renew_by_ids:
  "format_renew_ids cg older = concat (map (\<lambda>n. concat (map (\<lambda>c.
     map (\<lambda>left. n) (filter (\<lambda>left. n = mb_nodeid left) (cg_removed c))) older)) (format_member_ids cg))"
  by (simp add: format_renew_ids_def format_member_ids_def comp_def)

definition recovered :: "daemon \<Rightarrow> lockspace \<Rightarrow> nodeid list \<Rightarrow> daemon \<Rightarrow> lockspace \<Rightarrow> bool" where
  "recovered d ls0 ids d' ls' \<longleftrightarrow> ls_changes ls' = [] \<and> \<not> ls_kernel_stopped ls' \<and>
     kernel_view (ls_name ls0) d' = (ids, True) \<and> start_msg d' = start_msg d \<and> big_endian d' = big_endian d"

lemma apply_collected:
  assumes "collecting ls0 cg older S ls" "set (format_member_ids cg) \<subseteq> S" "\<not> cfgd_enable_plock d"
    "length (cg_members cg) \<le> MAX_NODES" "length (format_renew_ids cg older) \<le> MAX_NODES"
  shows "\<exists>d' ls'. apply_changes d ls = Some (d', ls') \<and> recovered d ls0 (format_member_ids cg) d' ls'"
proof -
  obtain c where c: "ls_changes ls = c # older" "format_member_ids c = format_member_ids cg"
      "cg_state c = CGST_WAIT_MESSAGES" "\<forall>m\<in>set (cg_members c). mb_nodeid m \<in> S \<longrightarrow> mb_start m"
      "ls_kernel_stopped ls" "ls_name ls = ls_name ls0"
    using assms(1) by (auto simp: collecting_def)
  have "set (format_member_ids c) \<subseteq> S" using c(2) assms(2) by simp
  then have w: "wait_messages_done c" using c(4) by (auto simp: wait_messages_done_def format_member_ids_def)
  have n: "length (format_member_ids c) \<le> MAX_NODES" "length (format_renew_ids c older) \<le> MAX_NODES"
    using assms(4,5) c(2) by (simp_all add: format_renew_by_ids) (simp add: format_member_ids_def)
  then obtain d1 ls1 where k: "start_kernel d ls = Some (d1, ls1)"
    using c(1,5) by (cases "ls_joining ls") (auto simp: start_kernel_def Let_def not_less)
  note v = start_kernel_view [OF k c(1,5)]
  have o: "ls_changes ls1 = c # older" "\<not> ls_kernel_stopped ls1" using v(3) c(1) by (auto simp: memb_view_def)
  have "start_msg d1 = start_msg d \<and> cfgd_enable_plock d1 = cfgd_enable_plock d \<and> big_endian d1 = big_endian d"
    using k c(1,5) by (cases "ls_joining ls") (auto simp: start_kernel_def kernel_op_fields Let_def split: if_splits)
  moreover from this have "prepare_plocks d1 ls1 = Some (d1, ls1)" using o(1) assms(3) by (simp add: prepare_plocks_def)
  moreover have "ls_changes (cleanup_changes ls1) = [] \<and> \<not> ls_kernel_stopped (cleanup_changes ls1)"
    using cleanup_changes_view [OF o(1)] o(2) by (auto simp: memb_view_def)
  ultimately show ?thesis
    using k c w v(2) by (simp add: apply_changes_def recovered_def)
qed

lemma apply_still_collecting:
  assumes "collecting ls0 cg older S ls" "\<not> cfgd_enable_plock d"
    "length (cg_members cg) \<le> MAX_NODES" "length (format_renew_ids cg older) \<le> MAX_NODES"
  shows "(apply_changes d ls = Some (d, ls) \<and> \<not> set (format_member_ids cg) \<subseteq> S) \<or>
    (\<exists>d' ls'. apply_changes d ls = Some (d', ls') \<and> recovered d ls0 (format_member_ids cg) d' ls')"
proof -
  obtain c where c: "ls_changes ls = c # older" "format_member_ids c = format_member_ids cg"
      "cg_state c = CGST_WAIT_MESSAGES" "\<forall>m\<in>set (cg_members c). mb_nodeid m \<in> S \<longrightarrow> mb_start m"
    using assms(1) by (auto simp: collecting_def)
  show ?thesis
  proof (cases "wait_messages_done c")
    case True
    then have "collecting ls0 cg older (S \<union> set (format_member_ids cg)) ls"
      using assms(1) c by (auto simp: collecting_def wait_messages_done_def)
    from apply_collected [OF this _ assms(2-4)] show ?thesis by simp
  next
    case False
    then have "\<not> set (format_member_ids c) \<subseteq> S" using c(4) by (auto simp: wait_messages_done_def format_member_ids_def)
    then show ?thesis using False c by (simp add: apply_changes_def)
  qed
qed

lemma deliver_recovered:
  assumes "recovered d ls0 ids d1 ls1" "cg_counts cg" "length (cg_members cg) \<le> MAX_NODES"
  shows "deliver_ls d1 ls1 n (Some (start_msg d n started flags cg)) = Some (d1, ls1)"
proof -
  have "start_msg d = start_msg d1" "ls_changes ls1 = []" using assms(1) by (simp_all add: recovered_def)
  then show ?thesis using receive_start_idle [OF _ assms(2,3)] by (simp add: deliver_start_msg apply_changes_def)
qed

lemma deliver_all_recovered:
  assumes "recovered d ls0 ids d1 ls1" "cg_counts cg" "length (cg_members cg) \<le> MAX_NODES"
  shows "deliver_all d1 ls1 (map (\<lambda>n. (n, start_msg d n (started n) (flags n) cg)) ns) = Some (d1, ls1)"
  by (induction ns) (simp_all add: deliver_recovered [OF assms])

lemma deliver_collecting:
  assumes c: "collecting ls0 cg older S ls" and n: "n \<in> set (format_member_ids cg)" "is_added ls0 n \<longrightarrow> started = 0"
    and wf: "distinct (format_member_ids cg)" "cg_counts cg" "length (cg_members cg) \<le> MAX_NODES" "unambiguous cg older"
    and o: "our_nodeid d \<in> set (format_member_ids cg)"
  shows "\<exists>ls1. collecting ls0 cg older (insert n S) ls1 \<and>
    deliver_ls d ls n (Some (start_msg d n started flags cg)) = apply_changes d ls1"
proof -
  obtain cc where cc: "ls_changes ls = cc # older" "details cc = details cg" "format_member_ids cc = format_member_ids cg"
      and a: "is_added ls n \<longrightarrow> started = 0"
    using c n(2) by (auto simp: collecting_def)
  have u: "unambiguous cc older" using wf(4) cc(2,3) by (simp add: unambiguous_def)
  let ?h = "hd_zero\<lparr>hd_type := DLM_MSG_START, hd_msgdata := cg_seq cg, hd_flags := flags,
      hd_version := daemon_run d, hd_nodeid := n, hd_global_id := 0\<rparr>"
  have "hd_nodeid ?h \<in> set (format_member_ids cg)" "is_added ls (hd_nodeid ?h) \<longrightarrow> started = 0" using n(1) a by simp_all
  note receive_start_marks [OF cc u o this(1) wf(2,3) this(2)]
  then show ?thesis
    using mark_collecting [OF c wf(1), of n d flags] by (simp add: deliver_start_msg) blast
qed


end
