(* ===== verification/Cpg_Limits.thy ===== *)
theory Cpg_Limits
  imports Cpg_Start
begin

text \<open>
  The limits of the recovery protocol: start messages that are taken for the wrong change, ids that overrun the
  arrays of \<^verbatim>\<open>start_kernel\<close>, and the witness of the liveness theorem.
\<close>

definition ex_noplock :: daemon where
  "ex_noplock = (ex_daemon 1 False)\<lparr>cfgd_enable_plock := False\<rparr>"

definition ex_collect :: "change list \<Rightarrow> lockspace" where
  "ex_collect cgs = set_cg_state CGST_WAIT_MESSAGES (ex_pending cgs)"


subsection \<open>Messages for the wrong change\<close>

lemma find_change_older:
  assumes "ls_changes ls = cg # older" "c \<in> set older" "details c = details cg"
    "set (format_member_ids cg) \<subseteq> set (format_member_ids c)"
    "our_nodeid d \<in> set (format_member_ids cg)" "hd_nodeid h \<in> set (format_member_ids cg)"
  shows "\<exists>i. find_change d ls h (change_li cg started) (format_member_ids cg) = Some (Suc i)"
proof -
  let ?P = "\<lambda>i. match_change d (ls_changes ls ! i) h (change_li cg started) (format_member_ids cg)"
  obtain k where k: "k < length older" "older ! k = c" using assms(2) by (auto simp: in_set_conv_nth)
  have "ls_changes ls ! Suc k = c" "hd_nodeid h \<in> set (format_member_ids c)" using assms(1,4,6) k by auto
  then have "?P (Suc k)" using assms(3,4,5) by (simp add: match_details)
  moreover have "Suc k \<in> set (rev [1..<length (ls_changes ls)])" using k assms(1) by (simp del: upt_Suc)
  ultimately have "find ?P (rev [1..<length (ls_changes ls)]) \<noteq> None" unfolding find_None_iff by blast
  then obtain i where i: "find ?P (rev [1..<length (ls_changes ls)]) = Some i" by blast
  then have "i \<in> set (rev [1..<length (ls_changes ls)])" by (metis find_Some_iff nth_mem)
  then have "0 < i" by (simp del: upt_Suc)
  moreover have "rev [0..<length (ls_changes ls)] = rev [1..<length (ls_changes ls)] @ [0]"
    using assms(1) by (simp add: upt_rec)
  ultimately show ?thesis
    using i by (auto simp: find_change_def find_append gr0_conv_Suc simp del: upt_Suc)
qed

text \<open>An older change has the details of the first one.\<close>

definition shadowed :: "change \<Rightarrow> change list \<Rightarrow> bool" where
  "shadowed cg older \<longleftrightarrow> (\<exists>c\<in>set older. details c = details cg \<and>
     set (format_member_ids cg) \<subseteq> set (format_member_ids c))"

lemma shadowed_upd:
  assumes "shadowed cg older" "\<And>m. mb_nodeid (f m) = mb_nodeid m"
  shows "shadowed cg (older[i := upd_memb f n (older ! i)])"
proof -
  obtain c where c: "c \<in> set older" "details c = details cg" "set (format_member_ids cg) \<subseteq> set (format_member_ids c)"
    using assms(1) by (auto simp: shadowed_def)
  have u: "details (upd_memb f n x) = details x" "format_member_ids (upd_memb f n x) = format_member_ids x" for x
    using upd_memb_same [OF assms(2), of x n] by (simp_all add: same_change_def details_def upd_memb_def)
  obtain k where k: "k < length older" "older ! k = c" using c(1) by (auto simp: in_set_conv_nth)
  have "older[i := upd_memb f n (older ! i)] ! k \<in> set (older[i := upd_memb f n (older ! i)])"
    by (rule nth_mem) (simp add: k)
  moreover have "details (older[i := upd_memb f n (older ! i)] ! k) = details c"
    "format_member_ids (older[i := upd_memb f n (older ! i)] ! k) = format_member_ids c"
    using k u by (cases "i < length older"; auto simp: nth_list_update list_update_beyond)+
  ultimately show ?thesis unfolding shadowed_def using c(2,3) by metis
qed

lemma receive_start_shadowed:
  assumes ls: "ls_changes ls = cg # older" "shadowed cg older" and wf: "cg_counts cg" "length (cg_members cg) \<le> MAX_NODES"
    and n: "our_nodeid d \<in> set (format_member_ids cg)" "hd_nodeid h \<in> set (format_member_ids cg)"
  shows "\<exists>ls' older'. receive_start d ls h (Body_ls_info (ls_info_out (big_endian d) (change_li cg started))
      (map (cpu_to_le32 (big_endian d)) (format_member_ids cg))) = Some (d, ls') \<and> ls_changes ls' = cg # older' \<and>
    shadowed cg older' \<and> ls_kernel_stopped ls' = ls_kernel_stopped ls"
proof -
  obtain i where i: "find_change d ls h (change_li cg started) (format_member_ids cg) = Some (Suc i)"
    using find_change_older [OF ls(1) _ _ _ n] ls(2) unfolding shadowed_def by blast
  let ?u = "\<lambda>f xs. xs[i := upd_memb f (hd_nodeid h) (xs ! i)]"
  let ?o1 = "?u (\<lambda>m. m\<lparr>mb_start_flags := hd_flags h\<rparr>) older"
  have s: "shadowed cg ?o1" "shadowed cg (?u (\<lambda>m. m\<lparr>mb_start := True\<rparr>) ?o1)"
    "shadowed cg (?u (\<lambda>m. m\<lparr>mb_disallowed := True\<rparr>) ?o1)"
    by (intro shadowed_upd ls(2); simp)+
  let ?r = "receive_start d ls h (Body_ls_info (ls_info_out (big_endian d) (change_li cg started))
      (map (cpu_to_le32 (big_endian d)) (format_member_ids cg)))"
  let ?l1 = "upd_change (Suc i) (upd_memb (\<lambda>m. m\<lparr>mb_start_flags := hd_flags h\<rparr>) (hd_nodeid h)) ls"
  have r: "?r = Some (d, if is_added ?l1 (hd_nodeid h) \<and> li_started_count (change_li cg started) \<noteq> 0
      then upd_change (Suc i) (upd_memb (\<lambda>m. m\<lparr>mb_disallowed := True\<rparr>) (hd_nodeid h)) ?l1
      else upd_change (Suc i) (upd_memb (\<lambda>m. m\<lparr>mb_start := True\<rparr>) (hd_nodeid h))
        (node_history_start d ?l1 (hd_nodeid h)))"
    using i by (simp add: receive_start_def read_start_body [OF wf] Let_def)
  show ?thesis
    using ls(1) s
    by (cases "is_added ?l1 (hd_nodeid h) \<and> li_started_count (change_li cg started) \<noteq> 0")
      (auto simp: r upd_change_def node_history_start_def upd_history_def)
qed


text \<open>Node 2 joins, leaves, joins, leaves and joins while fenced still has a victim, which it then fences.\<close>

definition ex_rejoins :: "cpg_event list" where
  "ex_rejoins = [Ev_confchg [1, 2] [] [1, 2], Ev_confchg [1] [(2, CPG_REASON_LEAVE)] [], Ev_confchg [1, 2] [] [2],
     Ev_confchg [1] [(2, CPG_REASON_LEAVE)] [], Ev_confchg [1, 2] [] [2]]"

definition ex_rejoined :: "(daemon \<times> lockspace) option" where
  "ex_rejoined = (case ex_joined of (d, ls, m) \<Rightarrow>
     (case run_events ex_rejoins (d\<lparr>fenced_domain_info := (0, 1)\<rparr>, ls, m) of
        None \<Rightarrow> None
      | Some (d, ls, m) \<Rightarrow> apply_changes (d\<lparr>fenced_domain_info := (0, 0)\<rparr>) ls))"


subsection \<open>Too many renewed ids\<close>

text \<open>A switch with eight nodes behind it goes down and up again while recovery waits, seventeen times.\<close>

definition ex_flaps :: "nat \<Rightarrow> cpg_event list" where
  "ex_flaps k = (let ns = map of_nat [2..<10] :: nodeid list;
       down = Ev_confchg [1] (map (\<lambda>n. (n, CPG_REASON_NODEDOWN)) ns) []; up = Ev_confchg (1 # ns) [] ns
     in Ev_confchg (1 # ns) [] (1 # ns) # concat (replicate k [down, up]))"


end
