(* ===== verification/Dlm_Kernel.thy ===== *)
theory Dlm_Kernel
  imports Dlm_Configfs Cpg_Limits
begin

text \<open>
  From the calls the daemon makes to the kernel's directories: the logged calls of the recovery code are carried out by
  the functions of \<open>Dlm_Configfs\<close>.  The members of a lockspace in configfs then are those of the last call, as long as
  the environment does not fail and every renewed node had been a member before; the recovery code does not ensure the
  latter.
\<close>

subsection \<open>Directories as maps\<close>

lemma map_of_dir_upd: "map_of (dir_upd n f es) m = (if m = n then map_option f (map_of es m) else map_of es m)"
  by (induction es) (auto simp: dir_upd_def)

lemma map_of_dir_del: "map_of (dir_del n es) m = (if m = n then None else map_of es m)"
  by (induction es) (auto simp: dir_del_def)

lemma dir_has_map_of: "dir_has n es \<longleftrightarrow> map_of es n \<noteq> None"
  by (auto simp: dir_has_def map_of_eq_None_iff)

lemma map_fst_dir_upd [simp]: "map fst (dir_upd n f es) = map fst es"
  by (simp add: dir_upd_def comp_def if_distrib [of fst] cong: if_cong)

lemma dir_upd_none: "n \<notin> fst ` set es \<Longrightarrow> dir_upd n f es = es"
  by (induction es) (auto simp: dir_upd_def)

lemma print_s32_inj: "print_s32 a = print_s32 b \<longleftrightarrow> a = b"
  using atoi_print [of a] atoi_print [of b] by metis

lemma print_s32_visible: "take 1 (print_s32 a) \<noteq> ''.''"
proof -
  have "is_digit (hd (print_nat n))" for n using print_nat_digits [of "hd (print_nat n)" n] by simp
  moreover have "\<not> is_digit (CHR ''.'')" by code_simp
  ultimately have "hd (print_nat n) \<noteq> CHR ''.''" for n by metis
  moreover have "take 1 s = ''.'' \<Longrightarrow> hd s = CHR ''.''" for s :: string by (cases s) auto
  ultimately show ?thesis by (auto simp: print_s32_def print_int_def split: if_splits)
qed

text \<open>A node directory with exactly the given members, each with its id in the file \<^verbatim>\<open>nodeid\<close>.\<close>

definition dir_ok :: "cf_node dir \<Rightarrow> nodeid set \<Rightarrow> bool" where
  "dir_ok es S \<longleftrightarrow> distinct (map fst es) \<and> fst ` set es = print_s32 ` S \<and>
     (\<forall>e\<in>set es. cn_nodeid (snd e) = Some (fst e))"

lemma fst_dir_del: "fst ` set (dir_del n es) = fst ` set es - {n}"
  by (auto simp: dir_del_def image_iff)

lemma inj_print_s32: "inj print_s32"
  by (simp add: inj_def print_s32_inj)

lemma dir_ok_del:
  assumes "dir_ok es S"
  shows "dir_ok (dir_del (print_s32 i) es) (S - {i})"
proof -
  have "fst ` set (dir_del (print_s32 i) es) = print_s32 ` (S - {i})"
    using assms by (simp add: fst_dir_del dir_ok_def image_set_diff [OF inj_print_s32])
  then show ?thesis using assms by (auto simp: dir_ok_def dir_del_def distinct_map_filter)
qed

lemma dir_ok_add:
  assumes "dir_ok es S" "i \<notin> S" "cn_nodeid c = Some (print_s32 i)"
  shows "dir_ok (es @ [(print_s32 i, c)]) (insert i S)"
proof -
  have "print_s32 i \<notin> fst ` set es" using assms(1,2) by (auto simp: dir_ok_def print_s32_inj)
  then show ?thesis using assms by (auto simp: dir_ok_def)
qed

lemma dir_ok_upd:
  assumes "dir_ok es S" "\<And>c. cn_nodeid c = Some (print_s32 i) \<Longrightarrow> cn_nodeid (f c) = Some (print_s32 i)"
  shows "dir_ok (dir_upd (print_s32 i) f es) S"
proof -
  have "fst ` set (dir_upd (print_s32 i) f es) = fst ` set es"
    using map_fst_dir_upd [of "print_s32 i" f es] by (metis list.set_map)
  moreover have "\<forall>e\<in>set (dir_upd (print_s32 i) f es). cn_nodeid (snd e) = Some (fst e)"
    using assms by (auto simp: dir_ok_def dir_upd_def)
  ultimately show ?thesis using assms(1) by (simp add: dir_ok_def)
qed

lemma dir_ok_has: "dir_ok es S \<Longrightarrow> dir_has (print_s32 i) es \<longleftrightarrow> i \<in> S"
  by (auto simp: dir_ok_def dir_has_def print_s32_inj)

lemma dir_ok_members:
  assumes "dir_ok es S"
  shows "set (map atoi (visible es)) = S" "length (visible es) = card S"
proof -
  have v: "visible es = map fst es"
    using assms print_s32_visible by (auto simp: visible_def dir_ok_def filter_id_conv simp flip: set_map)
  have "set (map atoi (visible es)) = atoi ` print_s32 ` S" using assms by (simp only: v dir_ok_def list.set_map)
  then show "set (map atoi (visible es)) = S" by (simp add: image_image)
  have "length (visible es) = card (fst ` set es)"
    using assms distinct_card [of "map fst es"] by (simp add: v dir_ok_def)
  then show "length (visible es) = card S"
    using assms card_image [OF inj_on_subset [OF inj_print_s32]] by (simp add: dir_ok_def)
qed

subsection \<open>A well-behaved environment\<close>

definition env_ok :: "kern \<Rightarrow> bool" where
  "env_ok k \<longleftrightarrow> k_faults k = [] \<and> k_cluster k \<and>
     (\<forall>es. Quorum_notify es \<in> set (k_quorum k) \<longrightarrow> (\<forall>(q, ns)\<in>set es. length ns \<le> MAX_NODES)) \<and>
     (\<forall>n as. k_addrs k n = Some as \<longrightarrow> (\<forall>a\<in>set as. length a \<le> SOCKADDR_STORAGE))"

text \<open>The quorum service changes neither the lockspaces nor their sysfs files.\<close>

definition untouched :: "kern \<Rightarrow> kern \<Rightarrow> bool" where
  "untouched k k' \<longleftrightarrow> k_spaces k' = k_spaces k \<and> k_sysfs k' = k_sysfs k"

lemma untouched_refl [simp]: "untouched k k"
  by (simp add: untouched_def)

lemma untouched_trans: "untouched k k1 \<Longrightarrow> untouched k1 k2 \<Longrightarrow> untouched k k2"
  by (simp add: untouched_def)

lemma no_fault [simp]:
  assumes "k_faults k = []"
  shows "path_exists t k = (t, k)" "create_path p t mk k = (if p then (0, if t then k else mk k) else (- 1, k))"
    "rmdir t del k = (if t then (0, del k) else (- 1, k))" "write_file t wr k = (if t then (0, wr k) else (- 1, k))"
  using assms by (auto simp: path_exists_def create_path_def rmdir_def write_file_def)

lemma add_configfs_node_ok:
  assumes "env_ok k" "length addr \<le> SOCKADDR_STORAGE"
  shows "\<exists>rv k'. add_configfs_node n addr l k = Some (rv, k') \<and> env_ok k' \<and> untouched k k' \<and> k_addrs k' = k_addrs k"
  using assms by (auto simp: add_configfs_node_def env_ok_def upd_comm_def untouched_def Let_def)

lemma del_configfs_node_ok: "env_ok k \<Longrightarrow> env_ok (del_configfs_node n k) \<and> untouched k (del_configfs_node n k)"
  by (auto simp: del_configfs_node_def env_ok_def untouched_def)

lemma del_nodes_ok: "env_ok k \<Longrightarrow> env_ok (fold del_configfs_node ns k) \<and> untouched k (fold del_configfs_node ns k)"
proof (induction ns arbitrary: k)
  case (Cons n ns)
  show ?case
    using Cons.IH [of "del_configfs_node n k"] del_configfs_node_ok [OF Cons.prems, of n] by (auto intro: untouched_trans)
qed simp

lemma add_addrs_ok:
  assumes "env_ok k" "\<forall>a\<in>set as. length a \<le> SOCKADDR_STORAGE"
  shows "\<exists>k'. add_addrs d n as k = Some k' \<and> env_ok k' \<and> untouched k k'"
  using assms
proof (induction as arbitrary: k)
  case (Cons a as)
  then obtain rv k1 where "add_configfs_node n a (n = our_nodeid d) k = Some (rv, k1)" "env_ok k1" "untouched k k1"
    using add_configfs_node_ok by (metis list.set_intros(1))
  then show ?case using Cons.IH [of k1] Cons.prems(2) by (auto intro: untouched_trans)
qed simp

lemma add_cluster_nodes_ok:
  "env_ok k \<Longrightarrow> \<exists>k'. add_cluster_nodes d old ns k = Some k' \<and> env_ok k' \<and> untouched k k'"
proof (induction ns arbitrary: k)
  case (Cons n ns)
  show ?case
  proof (cases "is_old_member old n \<or> k_addrs k n = None")
    case True
    then show ?thesis using Cons by auto
  next
    case False
    then obtain as where as: "k_addrs k n = Some as" by blast
    then have "\<forall>a\<in>set as. length a \<le> SOCKADDR_STORAGE" using Cons.prems by (auto simp: env_ok_def)
    then obtain k1 where "add_addrs d n as k = Some k1" "env_ok k1" "untouched k k1"
      using add_addrs_ok [OF Cons.prems] by blast
    then show ?thesis using Cons.IH [of k1] False as by (auto intro: untouched_trans)
  qed
qed simp

lemma quorum_callback_ok:
  assumes "env_ok k" "length ns \<le> MAX_NODES"
  shows "\<exists>d' k'. quorum_callback q ns d k = Some (d', k') \<and> env_ok k' \<and> untouched k k'"
proof -
  let ?d = "d\<lparr>cluster_quorate := q, quorum_nodes := ns\<rparr>"
  let ?k = "fold del_configfs_node (filter (\<lambda>n. \<not> is_cluster_member ?d n) (quorum_nodes d)) k"
  have "env_ok ?k" "untouched k ?k" using del_nodes_ok [OF assms(1)] by blast+
  then show ?thesis
    using add_cluster_nodes_ok [of ?k ?d "quorum_nodes d" ns] assms(2)
    by (auto simp: quorum_callback_def Let_def intro: untouched_trans)
qed

lemma quorum_callbacks_ok:
  "env_ok k \<Longrightarrow> \<forall>(q, ns)\<in>set es. length ns \<le> MAX_NODES \<Longrightarrow>
    \<exists>d' k'. quorum_callbacks es d k = Some (d', k') \<and> env_ok k' \<and> untouched k k'"
proof (induction es arbitrary: d k)
  case (Cons e es)
  obtain q ns where e: "e = (q, ns)" by fastforce
  obtain d1 k1 where "quorum_callback q ns d k = Some (d1, k1)" "env_ok k1" "untouched k k1"
    using quorum_callback_ok [OF Cons.prems(1), of ns q d] Cons.prems(2) e by auto
  then show ?case using Cons.IH [of k1 d1] Cons.prems(2) e by (auto intro: untouched_trans)
qed simp

lemma update_cluster_ok:
  assumes "env_ok k"
  shows "\<exists>d' k'. update_cluster d k = Some (d', k') \<and> env_ok k' \<and> untouched k k'"
proof (cases "k_quorum k")
  case (Cons a qs)
  have "env_ok (k\<lparr>k_quorum := qs\<rparr>)" using assms Cons by (auto simp: env_ok_def)
  moreover have "\<forall>(q, ns)\<in>set es. length ns \<le> MAX_NODES" if "a = Quorum_notify es" for es
    using assms Cons that by (auto simp: env_ok_def)
  ultimately show ?thesis
    using Cons quorum_callbacks_ok [of "k\<lparr>k_quorum := qs\<rparr>"]
    by (cases a) (fastforce simp: update_cluster_def untouched_def)+
qed (use assms in \<open>simp add: update_cluster_def\<close>)

subsection \<open>Setting the members\<close>

text \<open>The directory of a lockspace has exactly the given members, and the other lockspaces are as before.\<close>

definition space_ok :: "string \<Rightarrow> nodeid set \<Rightarrow> kern \<Rightarrow> bool" where
  "space_ok name S k \<longleftrightarrow> (\<exists>es. map_of (k_spaces k) name = Some es \<and> dir_ok es S)"

definition same_spaces :: "string \<Rightarrow> kern \<Rightarrow> kern \<Rightarrow> bool" where
  "same_spaces name k k' \<longleftrightarrow> k_sysfs k' = k_sysfs k \<and> (\<forall>n. n \<noteq> name \<longrightarrow> map_of (k_spaces k') n = map_of (k_spaces k) n)"

lemma same_spaces_refl [simp]: "same_spaces name k k"
  by (simp add: same_spaces_def)

lemma same_spaces_trans: "same_spaces name k k1 \<Longrightarrow> same_spaces name k1 k2 \<Longrightarrow> same_spaces name k k2"
  by (simp add: same_spaces_def)

lemma env_ok_nodes [simp]: "env_ok (upd_nodes name f k) = env_ok k"
  by (simp add: env_ok_def upd_nodes_def)

lemma same_spaces_nodes [simp]: "same_spaces name k (upd_nodes name f k)"
  by (simp add: same_spaces_def upd_nodes_def map_of_dir_upd)

lemma upd_nodes_spaces: "map_of (k_spaces (upd_nodes name f k)) name = map_option f (map_of (k_spaces k) name)"
  by (simp add: upd_nodes_def map_of_dir_upd)

lemma node_exists_ok: "space_ok name S k \<Longrightarrow> node_exists name i k \<longleftrightarrow> i \<in> S"
  by (auto simp: space_ok_def node_exists_def dir_ok_has)

lemma rmdir_node_ok:
  assumes "env_ok k" "space_ok name S k"
  shows "rmdir_node name i k = (if i \<in> S then (0, upd_nodes name (dir_del (print_s32 i)) k) else (- 1, k))"
    "space_ok name (S - {i}) (upd_nodes name (dir_del (print_s32 i)) k)"
proof -
  have "k_faults k = []" using assms(1) by (simp add: env_ok_def)
  then show "rmdir_node name i k = (if i \<in> S then (0, upd_nodes name (dir_del (print_s32 i)) k) else (- 1, k))"
    using node_exists_ok [OF assms(2)] by (simp add: rmdir_node_def)
  show "space_ok name (S - {i}) (upd_nodes name (dir_del (print_s32 i)) k)"
    using assms(2) by (auto simp: space_ok_def upd_nodes_spaces intro: dir_ok_del)
qed

lemma make_node_ok:
  assumes "env_ok k" "space_ok name S k" "get_weight ccs ccs_list i name = Some w"
  shows "\<exists>k'. make_node ccs ccs_list name i k = Some (0, k') \<and> env_ok k' \<and> space_ok name (insert i S) k' \<and> same_spaces name k k'"
proof -
  define es where "es = the (map_of (k_spaces k) name)"
  have es: "map_of (k_spaces k) name = Some es" "dir_ok es S" using assms(2) by (auto simp: space_ok_def es_def)
  let ?p = "print_s32 i"
  define es1 where "es1 = (if i \<in> S then es else es @ [(?p, \<lparr>cn_nodeid = None, cn_weight = None\<rparr>)])"
  define k1 where "k1 = (if i \<in> S then k else upd_nodes name (\<lambda>es. es @ [(?p, \<lparr>cn_nodeid = None, cn_weight = None\<rparr>)]) k)"
  define k2 where "k2 = upd_node name i (\<lambda>c. c\<lparr>cn_nodeid := Some ?p\<rparr>) k1"
  define k3 where "k3 = upd_node name i (\<lambda>c. c\<lparr>cn_weight := Some (print_s32 w)\<rparr>) k2"
  have k1: "env_ok k1" "same_spaces name k k1" "map_of (k_spaces k1) name = Some es1"
    using assms(1) es(1) by (simp_all add: k1_def es1_def upd_nodes_spaces)
  have "dir_ok (dir_upd ?p (\<lambda>c. c\<lparr>cn_nodeid := Some ?p\<rparr>) es1) (insert i S)"
  proof (cases "i \<in> S")
    case True
    then have "insert i S = S" by blast
    then show ?thesis using dir_ok_upd [OF es(2)] True by (simp add: es1_def)
  next
    case False
    have "?p \<notin> fst ` set es" using False es(2) by (simp add: dir_ok_has [OF es(2), of i, unfolded dir_has_def])
    then have "dir_upd ?p (\<lambda>c. c\<lparr>cn_nodeid := Some ?p\<rparr>) es = es"
      by (rule dir_upd_none)
    then have "dir_upd ?p (\<lambda>c. c\<lparr>cn_nodeid := Some ?p\<rparr>) es1 = es @ [(?p, \<lparr>cn_nodeid = Some ?p, cn_weight = None\<rparr>)]"
      using False by (simp add: es1_def dir_upd_def)
    then show ?thesis using dir_ok_add [OF es(2) False] by simp
  qed
  then have k2: "env_ok k2" "same_spaces name k1 k2" "space_ok name (insert i S) k2"
    using k1 by (simp_all add: k2_def upd_node_def space_ok_def upd_nodes_spaces)
  have k3: "env_ok k3" "same_spaces name k2 k3" "space_ok name (insert i S) k3"
    using k2 by (auto simp: k3_def upd_node_def space_ok_def upd_nodes_spaces intro!: dir_ok_upd)
  have f: "k_faults k = []" "k_faults k1 = []" "k_faults k2 = []" using assms(1) k1(1) k2(1) by (simp_all add: env_ok_def)
  have n: "node_exists name i k \<longleftrightarrow> i \<in> S" "node_exists name i k1" "node_exists name i k2"
    using node_exists_ok [OF assms(2)] node_exists_ok [OF k2(3)] k1(3) es(2)
    by (auto simp: node_exists_def es1_def dir_ok_has) (simp add: dir_has_def)
  have "dir_has name (k_spaces k)" using es(1) by (simp add: dir_has_map_of)
  then have "make_node ccs ccs_list name i k = Some (0, k3)"
    using n f assms(3) by (simp add: make_node_def k1_def [symmetric] k2_def [symmetric] k3_def [symmetric])
  then show ?thesis using k3 same_spaces_trans [OF k1(2) same_spaces_trans [OF k2(2) k3(2)]] by blast
qed

definition weights_end :: "ccs \<Rightarrow> bool" where
  "weights_end ccs \<longleftrightarrow> (\<exists>n\<ge>1. ccs (clusternode_path n ''nodeid'') = None)"

lemma set_member_ok:
  assumes "env_ok k" "space_ok name S k" "weights_end ccs" "i \<in> set renew \<longrightarrow> i \<in> S" "i \<in> set old \<longrightarrow> i \<in> S"
  shows "\<exists>d' k'. set_member ccs ccs_list name renew old i d k = Some (0, d', k') \<and> env_ok k' \<and>
    space_ok name (insert i S) k' \<and> same_spaces name k k'"
proof (cases "i \<in> set old \<and> i \<notin> set renew")
  case True
  then have "insert i S = S" using assms(5) by blast
  then show ?thesis using True assms(1,2) by (simp add: set_member_def id_exists_def)
next
  case False
  obtain w where w: "get_weight ccs ccs_list i name = Some w"
    using assms(3) get_weight_ends [of _ ccs ccs_list i name] by (auto simp: weights_end_def)
  obtain d1 k1 where q: "(if is_cluster_member d i then Some (d, k) else update_cluster d k) = Some (d1, k1)"
      "env_ok k1" "untouched k k1" using update_cluster_ok [OF assms(1), of d] assms(1)
    by (cases "is_cluster_member d i") auto
  have s1: "space_ok name S k1" "same_spaces name k k1" using assms(2) q(3) by (simp_all add: space_ok_def same_spaces_def untouched_def)
  define k2 where "k2 = (if i \<in> set renew then upd_nodes name (dir_del (print_s32 i)) k1 else k1)"
  define S2 where "S2 = (if i \<in> set renew then S - {i} else S)"
  have k2: "env_ok k2" "space_ok name S2 k2" "same_spaces name k1 k2"
    using q(2) s1(1) rmdir_node_ok(2) [OF q(2) s1(1)] by (simp_all add: k2_def S2_def)
  obtain k3 where k3: "make_node ccs ccs_list name i k2 = Some (0, k3)" "env_ok k3" "space_ok name (insert i S2) k3"
      "same_spaces name k2 k3" using make_node_ok [OF k2(1,2) w] by blast
  have "(if i \<in> set renew then rmdir_node name i k1 else (0, k1)) = (0, k2)"
    using rmdir_node_ok(1) [OF q(2) s1(1)] assms(4) by (simp add: k2_def)
  moreover have "insert i S2 = insert i S" using assms(4) by (auto simp: S2_def)
  ultimately show ?thesis
    using False q(1) k3 same_spaces_trans [OF s1(2) same_spaces_trans [OF k2(3) k3(4)]]
    by (auto simp: set_member_def id_exists_def Let_def)
qed

lemma set_members_ok:
  assumes "env_ok k" "space_ok name S k" "weights_end ccs" "set renew \<inter> set ids \<subseteq> S" "set old \<inter> set ids \<subseteq> S"
  shows "\<exists>d' k'. set_members ccs ccs_list name renew old ids d k = Some (0, d', k') \<and> env_ok k' \<and>
    space_ok name (S \<union> set ids) k' \<and> same_spaces name k k'"
  using assms
proof (induction ids arbitrary: S d k)
  case (Cons i ids)
  obtain d1 k1 where k1: "set_member ccs ccs_list name renew old i d k = Some (0, d1, k1)" "env_ok k1"
      "space_ok name (insert i S) k1" "same_spaces name k k1"
    using set_member_ok [OF Cons.prems(1-3), of i renew old ccs_list d] Cons.prems(4,5) by auto
  have "set renew \<inter> set ids \<subseteq> insert i S" "set old \<inter> set ids \<subseteq> insert i S" using Cons.prems(4,5) by auto
  from Cons.IH [OF k1(2,3) Cons.prems(3) this, of d1]
  obtain d' k' where "set_members ccs ccs_list name renew old ids d1 k1 = Some (0, d', k')" "env_ok k'"
      "space_ok name (insert i S \<union> set ids) k'" "same_spaces name k1 k'" by blast
  then show ?case using k1(1) same_spaces_trans [OF k1(4)] by simp
qed simp

lemma remove_gone_ok:
  assumes "env_ok k" "space_ok name S k" "distinct ids" "set ids \<subseteq> S"
  shows "\<exists>k'. remove_gone name new ids k = (0, k') \<and> env_ok k' \<and> space_ok name (S - (set ids - set new)) k' \<and>
    same_spaces name k k'"
  using assms
proof (induction ids arbitrary: S k)
  case (Cons i ids)
  show ?case
  proof (cases "i \<in> set new")
    case True
    then have "S - (set (i # ids) - set new) = S - (set ids - set new)" by auto
    then show ?thesis using Cons True by (simp add: id_exists_def)
  next
    case False
    let ?k = "upd_nodes name (dir_del (print_s32 i)) k"
    have "env_ok ?k" "space_ok name (S - {i}) ?k" "distinct ids" "set ids \<subseteq> S - {i}"
      using Cons.prems rmdir_node_ok(2) [OF Cons.prems(1,2), of i] by auto
    from Cons.IH [OF this] obtain k' where k': "remove_gone name new ids ?k = (0, k')" "env_ok k'"
        "space_ok name (S - {i} - (set ids - set new)) k'" "same_spaces name ?k k'" by blast
    have "S - {i} - (set ids - set new) = S - (set (i # ids) - set new)" using False by auto
    moreover have "rmdir_node name i k = (0, ?k)" using rmdir_node_ok(1) [OF Cons.prems(1,2)] Cons.prems(4) by simp
    ultimately show ?thesis
      using False k' same_spaces_trans [OF same_spaces_nodes k'(4)] by (simp add: id_exists_def)
  qed
qed simp

text \<open>An absent directory stands for no members.\<close>

definition members_are :: "string \<Rightarrow> nodeid set \<Rightarrow> kern \<Rightarrow> bool" where
  "members_are name S k \<longleftrightarrow> space_ok name S k \<or> map_of (k_spaces k) name = None \<and> S = {}"

lemma set_configfs_members_ok:
  assumes "env_ok k" "members_are name S k" "weights_end ccs" "set renew \<inter> set new \<subseteq> S" "card S \<le> MAX_NODES"
  shows "\<exists>d' k'. set_configfs_members ccs ccs_list name new renew d k = Some (0, d', k') \<and> env_ok k' \<and>
    members_are name (set new) k' \<and> same_spaces name k k'"
proof -
  define k1 where "k1 = (if dir_has name (k_spaces k) then k else k\<lparr>k_spaces := k_spaces k @ [(name, [])]\<rparr>)"
  have f: "k_faults k = []" "k_cluster k" using assms(1) by (simp_all add: env_ok_def)
  have k1: "env_ok k1" "space_ok name S k1" "same_spaces name k k1"
    using assms(1,2)
    by (auto simp: k1_def env_ok_def members_are_def space_ok_def same_spaces_def dir_has_map_of dir_ok_def
        map_add_def split: option.split)
  then obtain es where es: "map_of (k_spaces k1) name = Some es" "dir_ok es S" by (auto simp: space_ok_def)
  define old where "old = map atoi (visible es)"
  note m = dir_ok_members [OF es(2), folded old_def]
  have "distinct old" using m assms(5) card_distinct [of old] by (simp add: old_def)
  from remove_gone_ok [OF k1(1,2) this, of new] m(1)
  obtain k2 where k2: "remove_gone name new old k1 = (0, k2)" "env_ok k2" "space_ok name (S \<inter> set new) k2"
      "same_spaces name k1 k2" by (auto simp: Diff_Diff_Int simp flip: Int_Diff)
  have u: "update_dir_members name k1 = Some (Some old, k1)"
    using k1(1) es(1) m(2) assms(5) by (simp add: update_dir_members_def old_def env_ok_def)
  have c: "set_configfs_members ccs ccs_list name new renew d k =
      set_members ccs ccs_list name renew old new d (if new = [] then snd (rmdir_space name k2) else k2)"
    using f u k2(1) by (cases "dir_has name (k_spaces k)") (simp_all add: set_configfs_members_def k1_def Let_def)
  show ?thesis
  proof (cases "new = []")
    case True
    have "map_of (k_spaces k2) name = Some []" using k2(3) True by (auto simp: space_ok_def dir_ok_def)
    then have r: "snd (rmdir_space name k2) = k2\<lparr>k_spaces := dir_del name (k_spaces k2)\<rparr>"
      using k2(2) by (simp add: rmdir_space_def env_ok_def)
    have "env_ok (k2\<lparr>k_spaces := dir_del name (k_spaces k2)\<rparr>)" using k2(2) by (simp add: env_ok_def)
    moreover have "same_spaces name k2 (k2\<lparr>k_spaces := dir_del name (k_spaces k2)\<rparr>)"
      by (simp add: same_spaces_def map_of_dir_del)
    ultimately show ?thesis
      using c r True same_spaces_trans [OF k1(3) same_spaces_trans [OF k2(4)]]
      by (simp add: members_are_def map_of_dir_del)
  next
    case False
    have "set renew \<inter> set new \<subseteq> S \<inter> set new" "set old \<inter> set new \<subseteq> S \<inter> set new" using assms(4) m(1) by auto
    from set_members_ok [OF k2(2,3) assms(3) this, of ccs_list d]
    obtain d' k' where "set_members ccs ccs_list name renew old new d k2 = Some (0, d', k')" "env_ok k'"
        "space_ok name (S \<inter> set new \<union> set new) k'" "same_spaces name k2 k'" by blast
    moreover have "S \<inter> set new \<union> set new = set new" by blast
    ultimately show ?thesis
      using c False same_spaces_trans [OF k1(3) same_spaces_trans [OF k2(4)]] by (simp add: members_are_def)
  qed
qed

subsection \<open>Carrying out the logged calls\<close>

fun kernel_do :: "ccs \<Rightarrow> (string \<Rightarrow> string list) \<Rightarrow> kernel_op \<Rightarrow> daemon \<times> kern \<Rightarrow> (daemon \<times> kern) option" where
  "kernel_do ccs ccs_list (Set_sysfs_control name val) (d, k) = Some (d, snd (set_sysfs_control name val k))"
| "kernel_do ccs ccs_list (Set_sysfs_event_done name val) (d, k) = Some (d, snd (set_sysfs_event_done name val k))"
| "kernel_do ccs ccs_list (Set_sysfs_id name i) (d, k) = Some (d, snd (set_sysfs_id name i k))"
| "kernel_do ccs ccs_list (Set_configfs_members name new renew) (d, k) =
     map_option snd (set_configfs_members ccs ccs_list name new renew d k)"
| "kernel_do ccs ccs_list _ s = Some s"

fun kernel_run :: "ccs \<Rightarrow> (string \<Rightarrow> string list) \<Rightarrow> kernel_op list \<Rightarrow> daemon \<times> kern \<Rightarrow> (daemon \<times> kern) option" where
  "kernel_run ccs ccs_list [] s = Some s"
| "kernel_run ccs ccs_list (op # ops) s = (case kernel_do ccs ccs_list op s of
       None \<Rightarrow> None
     | Some s \<Rightarrow> kernel_run ccs ccs_list ops s)"

text \<open>The lockspace is started: the last value written to its file \<^verbatim>\<open>control\<close> is one.\<close>

definition control_write :: "string \<Rightarrow> string \<times> string \<times> string \<Rightarrow> bool \<Rightarrow> bool" where
  "control_write name = (\<lambda>(n, file, val) on. if n = name \<and> file = ''control'' then val = ''1'' else on)"

definition control_on :: "string \<Rightarrow> kern \<Rightarrow> bool" where
  "control_on name k = fold (control_write name) (k_sysfs k) False"

text \<open>Every renewed node of a call was a member in the previous call for the lockspace.\<close>

fun renew_ok :: "(string \<Rightarrow> nodeid set) \<Rightarrow> kernel_op list \<Rightarrow> bool" where
  "renew_ok M [] = True"
| "renew_ok M (Set_configfs_members name new renew # ops) =
     (set renew \<inter> set new \<subseteq> M name \<and> length new \<le> MAX_NODES \<and> renew_ok (M(name := set new)) ops)"
| "renew_ok M (_ # ops) = renew_ok M ops"

definition kern_view :: "(string \<Rightarrow> nodeid set) \<Rightarrow> (string \<Rightarrow> bool) \<Rightarrow> kern \<Rightarrow> bool" where
  "kern_view M R k \<longleftrightarrow> env_ok k \<and> (\<forall>name. members_are name (M name) k \<and> control_on name k = R name)"

definition hears :: "kernel_op \<Rightarrow> (string \<Rightarrow> nodeid set) \<times> (string \<Rightarrow> bool) \<Rightarrow> (string \<Rightarrow> nodeid set) \<times> (string \<Rightarrow> bool)" where
  "hears op = (\<lambda>(M, R). case op of
       Set_configfs_members name new _ \<Rightarrow> (M(name := set new), R)
     | Set_sysfs_control name val \<Rightarrow> (M, R(name := (val = 1)))
     | _ \<Rightarrow> (M, R))"

lemma print_int_one: "print_int val = ''1'' \<longleftrightarrow> val = 1"
proof
  assume a: "print_int val = ''1''"
  have "scan_int ''1'' = Some (1, '''')" by code_simp
  then show "val = 1" using scan_int_print [of "''''" val] a by simp
next
  have "print_int 1 = ''1''" by code_simp
  then show "val = 1 \<Longrightarrow> print_int val = ''1''" by simp
qed

lemma do_sysfs_view:
  assumes "kern_view M R k" "file = ''control'' \<Longrightarrow> R' = R(name := (val = ''1''))" "file \<noteq> ''control'' \<Longrightarrow> R' = R"
  shows "kern_view M R' (snd (do_sysfs name file val k))"
proof -
  let ?k = "k\<lparr>k_sysfs := k_sysfs k @ [(name, file, val)]\<rparr>"
  have c: "env_ok k" "\<And>n. members_are n (M n) k" "\<And>n. control_on n k = R n"
    using assms(1) by (auto simp: kern_view_def)
  have "snd (do_sysfs name file val k) = ?k" using c(1) by (simp add: do_sysfs_def env_ok_def)
  moreover have "env_ok ?k" using c(1) by (simp add: env_ok_def)
  moreover have "members_are n (M n) ?k" for n using c(2) [of n] by (simp add: members_are_def space_ok_def)
  moreover have "control_on n ?k = R' n" for n
  proof -
    have "control_on n ?k = control_write n (name, file, val) (control_on n k)" by (simp add: control_on_def)
    then show ?thesis using assms(2,3) c(3) [of n] by (cases "file = ''control''") (auto simp: control_write_def)
  qed
  ultimately show ?thesis unfolding kern_view_def by simp
qed

lemma members_are_other: "same_spaces name k k' \<Longrightarrow> n \<noteq> name \<Longrightarrow> members_are n S k \<Longrightarrow> members_are n S k'"
  by (simp add: same_spaces_def members_are_def space_ok_def)

lemma set_configfs_members_view:
  assumes "kern_view M R k" "weights_end ccs" "set renew \<inter> set new \<subseteq> M name" "card (M name) \<le> MAX_NODES"
  shows "\<exists>rv d' k'. set_configfs_members ccs ccs_list name new renew d k = Some (rv, d', k') \<and>
    kern_view (M(name := set new)) R k'"
proof -
  have "env_ok k" "members_are name (M name) k" using assms(1) by (simp_all add: kern_view_def)
  from set_configfs_members_ok [OF this assms(2-4), of ccs_list d]
  obtain d' k' where k': "set_configfs_members ccs ccs_list name new renew d k = Some (0, d', k')" "env_ok k'"
      "members_are name (set new) k'" "same_spaces name k k'" by blast
  have "members_are n ((M(name := set new)) n) k'" "control_on n k' = R n" for n
    using assms(1) k'(3,4) members_are_other [OF k'(4), of n "M n"]
    by (auto simp: kern_view_def control_on_def same_spaces_def)
  then have "kern_view (M(name := set new)) R k'" using k'(2) unfolding kern_view_def by blast
  then show ?thesis using k'(1) by blast
qed

lemma kernel_run_view:
  assumes "kern_view M R k" "weights_end ccs" "renew_ok M ops" "\<forall>n. card (M n) \<le> MAX_NODES"
  shows "\<exists>d' k'. kernel_run ccs ccs_list ops (d, k) = Some (d', k') \<and> (case fold hears ops (M, R) of (M', R') \<Rightarrow> kern_view M' R' k')"
  using assms
proof (induction ops arbitrary: M R d k)
  case (Cons op ops)
  have step: ?case if "kernel_do ccs ccs_list op (d, k) = Some (d1, k1)" "hears op (M, R) = (M1, R1)" "kern_view M1 R1 k1"
      "renew_ok M1 ops" "\<forall>n. card (M1 n) \<le> MAX_NODES" for d1 k1 M1 R1
    using Cons.IH [OF that(3) Cons.prems(2) that(4,5), of d1] that(1,2) by simp
  show ?case
  proof (cases op)
    case (Set_sysfs_control name val)
    have "kern_view M (R(name := (val = 1))) (snd (set_sysfs_control name val k))"
      unfolding set_sysfs_control_def by (rule do_sysfs_view [OF Cons.prems(1)]) (simp_all add: print_int_one)
    then show ?thesis using step [of d] Cons.prems(3,4) Set_sysfs_control by (simp add: hears_def)
  next
    case (Set_sysfs_event_done name val)
    have "kern_view M R (snd (set_sysfs_event_done name val k))"
      unfolding set_sysfs_event_done_def by (rule do_sysfs_view [OF Cons.prems(1)]) simp_all
    then show ?thesis using step [of d] Cons.prems(3,4) Set_sysfs_event_done by (simp add: hears_def)
  next
    case (Set_sysfs_id name i)
    have "kern_view M R (snd (set_sysfs_id name i k))"
      unfolding set_sysfs_id_def by (rule do_sysfs_view [OF Cons.prems(1)]) simp_all
    then show ?thesis using step [of d] Cons.prems(3,4) Set_sysfs_id by (simp add: hears_def)
  next
    case (Set_configfs_members name new renew)
    have r: "set renew \<inter> set new \<subseteq> M name" "length new \<le> MAX_NODES" "renew_ok (M(name := set new)) ops"
      using Cons.prems(3) Set_configfs_members by simp_all
    have "card (M name) \<le> MAX_NODES" using Cons.prems(4) by blast
    from set_configfs_members_view [OF Cons.prems(1,2) r(1) this, of ccs_list d]
    obtain rv d1 k1 where "set_configfs_members ccs ccs_list name new renew d k = Some (rv, d1, k1)"
        "kern_view (M(name := set new)) R k1" by blast
    moreover have "\<forall>n. card ((M(name := set new)) n) \<le> MAX_NODES"
      using Cons.prems(4) r(2) card_length [of new] by auto
    ultimately show ?thesis using step [of d1 k1] r(3) Set_configfs_members by (simp add: hears_def)
  qed (use step [of d k] Cons.prems in \<open>simp_all add: hears_def\<close>)
qed simp

lemma hears_agree:
  assumes "fst s name = set (fst t)" "snd s name = snd t"
  shows "fst (hears op s) name = set (fst (kernel_hears name op t)) \<and> snd (hears op s) name = snd (kernel_hears name op t)"
  using assms by (cases s; cases t; cases op) (simp_all add: hears_def)

lemma fold_hears:
  "fst s name = set (fst t) \<Longrightarrow> snd s name = snd t \<Longrightarrow>
    fst (fold hears ops s) name = set (fst (fold (kernel_hears name) ops t)) \<and>
    snd (fold hears ops s) name = snd (fold (kernel_hears name) ops t)"
proof (induction ops arbitrary: s t)
  case (Cons op ops)
  show ?case using Cons.IH hears_agree [OF Cons.prems] by simp
qed simp

text \<open>
  C8. As long as the environment does not fail and no call renews a node that was not a member before, the directories
  in configfs and the control files follow the calls of the daemon: for every lockspace the node directories are the
  members of the last call, each with its node id, and the lockspace is started exactly when the last call started it.
\<close>

theorem configfs_follows:
  assumes "env_ok k" "k_spaces k = []" "k_sysfs k = []" "weights_end ccs" "renew_ok (\<lambda>_. {}) (kernel_ops d)"
  shows "\<exists>d' k'. kernel_run ccs ccs_list (kernel_ops d) (d0, k) = Some (d', k') \<and>
    (\<forall>name. members_are name (set (fst (kernel_view name d))) k' \<and> control_on name k' = snd (kernel_view name d))"
proof -
  have "kern_view (\<lambda>_. {}) (\<lambda>_. False) k"
    using assms(1-3) by (simp add: kern_view_def members_are_def control_on_def)
  from kernel_run_view [OF this assms(4,5), of ccs_list d0]
  obtain d' k' where k': "kernel_run ccs ccs_list (kernel_ops d) (d0, k) = Some (d', k')"
      "case fold hears (kernel_ops d) (\<lambda>_. {}, \<lambda>_. False) of (M, R) \<Rightarrow> kern_view M R k'" by auto
  obtain M R where M: "fold hears (kernel_ops d) (\<lambda>_. {}, \<lambda>_. False) = (M, R)" by (rule prod.exhaust)
  have "M name = set (fst (kernel_view name d))" "R name = snd (kernel_view name d)" for name
    using fold_hears [of "(\<lambda>_. {}, \<lambda>_. False)" name "([], False)" "kernel_ops d"] M by (simp_all add: kernel_view_def)
  then show ?thesis using k' M by (auto simp: kern_view_def)
qed

definition ex_kern :: kern where
  "ex_kern = \<lparr>k_spaces = [], k_comms = [], k_cluster = True, k_attrs = [], k_sysfs = [], k_faults = [], k_quorum = [],
     k_addrs = (\<lambda>_. None)\<rparr>"

theorem configfs_follows_witness:
  "\<exists>d ls m d' k'. run_events ex_events ex_joined = Some (d, ls, m) \<and>
    kernel_run Map.empty (\<lambda>_. []) (kernel_ops d) (d, ex_kern) = Some (d', k') \<and>
    members_are ''x'' {1, 2} k' \<and> control_on ''x'' k'"
proof -
  have e: "map_option (\<lambda>(d, ls, m). kernel_view ''x'' d = ([1, 2], True) \<and> renew_ok (\<lambda>_. {}) (kernel_ops d))
      (run_events ex_events ex_joined) = Some True" by code_simp
  then obtain d ls m where r: "run_events ex_events ex_joined = Some (d, ls, m)" "kernel_view ''x'' d = ([1, 2], True)"
      "renew_ok (\<lambda>_. {}) (kernel_ops d)" by auto
  have k: "env_ok ex_kern" "k_spaces ex_kern = []" "k_sysfs ex_kern = []"
    by (simp_all add: ex_kern_def env_ok_def)
  have "weights_end Map.empty" unfolding weights_end_def by (rule exI [of _ 1]) simp
  from configfs_follows [OF k this r(3), of "\<lambda>_. []" d]
  obtain d' k' where "kernel_run Map.empty (\<lambda>_. []) (kernel_ops d) (d, ex_kern) = Some (d', k')"
      "members_are ''x'' (set (fst (kernel_view ''x'' d))) k'" "control_on ''x'' k' = snd (kernel_view ''x'' d)" by blast
  then show ?thesis using r(1,2) by auto
qed

subsection \<open>Renewing a node that was never added\<close>

text \<open>
  Node 1 runs a lockspace alone; nodes 2 and 3 join, 2 leaves and joins again before the kernel is restarted, and all
  three send their start messages.  Nothing in the environment fails.
\<close>

definition ex_renew :: "cpg_event list" where
  "ex_renew = [Ev_confchg [1] [] [1], ex_start 1 0 (ex_cg [1] 1 0 0 1),
     Ev_confchg [1, 2, 3] [] [2, 3], Ev_confchg [1, 3] [(2, CPG_REASON_LEAVE)] [], Ev_confchg [1, 2, 3] [] [2],
     ex_start 1 1 (ex_cg [1, 2, 3] 1 0 0 4), ex_start 2 0 (ex_cg [1, 2, 3] 1 0 0 2), ex_start 3 0 (ex_cg [1, 2, 3] 1 0 0 3)]"


end
