(* ===== verification/Spec2Isabelle.thy ===== *)
theory Spec2Isabelle
  imports Plock_Transfer Plock_Dump Deadlock_Cases Deadlock_Inv Cpg_Agree Dlm_Kernel
begin

text \<open>
  Verification library for \<^verbatim>\<open>dlm_controld\<close>, the daemon that controls the Linux distributed lock
  manager (\<^verbatim>\<open>src/group/dlm_controld\<close>).
\<close>

end
